(* ===== verification/XE_Prelude.thy ===== *)
theory XE_Prelude
  imports Main "HOL-Library.Word" "HOL-Library.AList" "HOL-Library.Char_ord"
    "HOL-Library.List_Lexorder"
begin

text \<open>
  Shared vocabulary of the development: the machine integers of the Go source, its
  strings, errors and maps, and the generic lemmas every component uses.

  \<^item> \<open>uint64\<close> is the type \<^typ>\<open>64 word\<close>: arithmetic wraps, comparisons are unsigned.
  \<^item> \<open>int64\<close> is \<^typ>\<open>int\<close> with the wrap-around written out by \<open>i64\<close>.
  \<^item> A Go string is a byte sequence: HOL's \<^typ>\<open>string\<close>; \<open><\<close> on strings is the
    bytewise lexicographic order, as in Go.
  \<^item> An \<open>error\<close> carries the constant text of its message: the format string given to
    \<open>fmt.Errorf\<close>, with the text of an error wrapped by \<open>%w\<close> put in its place and the
    other verbs left as they are. A run-time panic is a value of its own kind. A fallible
    function returns \<open>Inl\<close> of one of these or \<open>Inr\<close> of a result.
  \<^item> A Go map is an association list with distinct keys; the order of the list stands
    for the iteration order, which Go leaves open.
\<close>

section \<open>Machine integers\<close>

type_synonym u64 = "64 word"
type_synonym bytes = "8 word list"

definition i64 :: "int \<Rightarrow> int" where
  "i64 x = (x + 2 ^ 63) mod 2 ^ 64 - 2 ^ 63"

definition is_i64 :: "int \<Rightarrow> bool" where
  "is_i64 x \<longleftrightarrow> - (2 ^ 63) \<le> x \<and> x < 2 ^ 63"

section \<open>Errors\<close>

datatype error = Error string | RuntimePanic string

type_synonym 'a result = "error + 'a"

abbreviation Err :: "string \<Rightarrow> 'a result" where
  "Err s \<equiv> Inl (Error s)"

abbreviation Panic :: "string \<Rightarrow> 'a result" where
  "Panic s \<equiv> Inl (RuntimePanic s)"

text \<open>\<open>fmt.Errorf("p%w", err)\<close>: a panic is not an error value and passes through.\<close>

definition wrap :: "string \<Rightarrow> error \<Rightarrow> 'a result" where
  "wrap p e = Inl (case e of Error s \<Rightarrow> Error (p @ s) | RuntimePanic s \<Rightarrow> RuntimePanic s)"

text \<open>\<open>err.Error()\<close>.\<close>

fun err_text :: "error \<Rightarrow> string" where
  "err_text (Error s) = s"
| "err_text (RuntimePanic s) = s"

text \<open>\<open>s[:12]\<close> in an error message panics on a shorter string.\<close>

definition short12 :: "string \<Rightarrow> 'a result \<Rightarrow> 'a result" where
  "short12 s e = (if length s < 12 then Panic ''runtime error: slice bounds out of range [:12] with length %d'' else e)"

section \<open>Strings\<close>

definition HasPrefix :: "string \<Rightarrow> string \<Rightarrow> bool" where
  "HasPrefix s p \<longleftrightarrow> take (length p) s = p"

fun Contains :: "string \<Rightarrow> string \<Rightarrow> bool" where
  "Contains [] p \<longleftrightarrow> p = []"
| "Contains (c # s) p \<longleftrightarrow> HasPrefix (c # s) p \<or> Contains s p"

definition lower_char :: "char \<Rightarrow> char" where
  "lower_char c = (if CHR ''A'' \<le> c \<and> c \<le> CHR ''Z'' then char_of (of_char c + 32 :: nat) else c)"

definition ToLower :: "string \<Rightarrow> string" where
  "ToLower s = map lower_char s"

definition EqualFold :: "string \<Rightarrow> string \<Rightarrow> bool" where
  "EqualFold s t \<longleftrightarrow> ToLower s = ToLower t"

section \<open>Lists\<close>

text \<open>The index of the first element a search loop stops at.\<close>

fun first_index :: "('a \<Rightarrow> bool) \<Rightarrow> 'a list \<Rightarrow> nat option" where
  "first_index P [] = None"
| "first_index P (x # xs) =
     (if P x then Some 0 else case first_index P xs of None \<Rightarrow> None | Some i \<Rightarrow> Some (Suc i))"

section \<open>Maps\<close>

type_synonym ('k, 'v) gomap = "('k \<times> 'v) list"

abbreviation mget :: "('k, 'v) gomap \<Rightarrow> 'k \<Rightarrow> 'v option" where
  "mget m k \<equiv> map_of m k"

abbreviation mput :: "'k \<Rightarrow> 'v \<Rightarrow> ('k, 'v) gomap \<Rightarrow> ('k, 'v) gomap" where
  "mput k v m \<equiv> AList.update k v m"

abbreviation mdel :: "'k \<Rightarrow> ('k, 'v) gomap \<Rightarrow> ('k, 'v) gomap" where
  "mdel k m \<equiv> AList.delete k m"

abbreviation mhas :: "('k, 'v) gomap \<Rightarrow> 'k \<Rightarrow> bool" where
  "mhas m k \<equiv> map_of m k \<noteq> None"

text \<open>\<open>m[k]\<close> on a map with zero-valued default.\<close>

definition mdef :: "'v \<Rightarrow> ('k, 'v) gomap \<Rightarrow> 'k \<Rightarrow> 'v" where
  "mdef d m k = (case map_of m k of None \<Rightarrow> d | Some v \<Rightarrow> v)"

text \<open>The sum of a measure over a map, as a loop over its entries computes it.\<close>

definition msum :: "('k \<Rightarrow> 'v \<Rightarrow> 'a::comm_monoid_add) \<Rightarrow> ('k, 'v) gomap \<Rightarrow> 'a" where
  "msum f m = sum_list (map (\<lambda>(k, v). f k v) m)"

definition keys :: "('k, 'v) gomap \<Rightarrow> 'k set" where
  "keys m = fst ` set m"

abbreviation mwf :: "('k, 'v) gomap \<Rightarrow> bool" where
  "mwf m \<equiv> distinct (map fst m)"

section \<open>Lemmas on results\<close>

lemma wrap_neq_Inr [simp]: "wrap p e \<noteq> Inr x" "Inr x \<noteq> wrap p e"
  by (simp_all add: wrap_def)

text \<open>A chain of checks succeeds when every check does.\<close>

named_theorems result_simps \<open>the branches of a fallible function that return a result\<close>

lemma check_if [result_simps]:
  "(if P then Inl e else r) = Inr x \<longleftrightarrow> \<not> P \<and> r = Inr x"
  by simp

lemma check_result [result_simps]:
  "(case r of Inl e \<Rightarrow> Inl e | Inr y \<Rightarrow> f y) = Inr x \<longleftrightarrow> (\<exists>y. r = Inr y \<and> f y = Inr x)"
  "(case r of Inl e \<Rightarrow> wrap s e | Inr y \<Rightarrow> f y) = Inr x \<longleftrightarrow> (\<exists>y. r = Inr y \<and> f y = Inr x)"
  "(case r of Inl e \<Rightarrow> Err t | Inr y \<Rightarrow> f y) = Inr x \<longleftrightarrow> (\<exists>y. r = Inr y \<and> f y = Inr x)"
  by (auto split: sum.splits)

lemma check_option [result_simps]:
  "(case oo of None \<Rightarrow> Inl e | Some y \<Rightarrow> f y) = Inr x \<longleftrightarrow> (\<exists>y. oo = Some y \<and> f y = Inr x)"
  "(case oo of None \<Rightarrow> short12 s (Inl e) | Some y \<Rightarrow> f y) = Inr x \<longleftrightarrow> (\<exists>y. oo = Some y \<and> f y = Inr x)"
  by (auto simp: short12_def split: option.splits)

lemma short12_Inl [simp]: "short12 s (Inl e) \<noteq> Inr x"
  by (simp add: short12_def)

section \<open>Lemmas on integers\<close>

named_theorems go_arith \<open>facts that move 64-bit arithmetic to natural numbers\<close>
named_theorems go_map \<open>lookup and sum laws of maps\<close>

lemma i64_id [simp]: "is_i64 x \<Longrightarrow> i64 x = x"
  by (simp add: i64_def is_i64_def)

lemma i64_range [simp]: "is_i64 (i64 x)"
proof -
  have "0 \<le> (x + 2 ^ 63) mod 2 ^ 64" "(x + 2 ^ 63) mod 2 ^ 64 < (2::int) ^ 64"
    by simp_all
  then show ?thesis by (simp add: i64_def is_i64_def)
qed

lemma unat_u64_lt: "unat (x :: u64) < 2 ^ 64"
  using unsigned_less [of x] by simp

lemma unat_add_u64 [go_arith]:
  "unat a + unat b < 2 ^ 64 \<Longrightarrow> unat ((a :: u64) + b) = unat a + unat b"
  by (simp add: unat_word_ariths)

lemma unat_mult_u64 [go_arith]:
  "unat a * unat b < 2 ^ 64 \<Longrightarrow> unat ((a :: u64) * b) = unat a * unat b"
  by (simp add: unat_word_ariths)

lemma unat_sub_u64 [go_arith]:
  "b \<le> a \<Longrightarrow> unat ((a :: u64) - b) = unat a - unat b"
  by (rule unat_sub)

lemma add_no_wrap_iff: "(a :: u64) + b < a \<longleftrightarrow> 2 ^ 64 \<le> unat a + unat b"
proof (cases "unat a + unat b < 2 ^ 64")
  case True
  then show ?thesis by (simp add: word_less_nat_alt unat_add_u64)
next
  case False
  then have "unat (a + b) = unat a + unat b - 2 ^ 64"
    using unat_u64_lt [of a] unat_u64_lt [of b]
    by (simp add: unat_word_ariths mod_if)
  with False show ?thesis
    using unat_u64_lt [of b] by (simp add: word_less_nat_alt)
qed

lemma unat_add_checked:
  assumes "\<not> (a :: u64) + b < a"
  shows "unat (a + b) = unat a + unat b"
  using assms by (simp add: add_no_wrap_iff unat_add_u64)

section \<open>Lemmas on maps\<close>

lemma mget_mput [simp, go_map]: "mget (mput k v m) k' = (if k' = k then Some v else mget m k')"
  by (simp add: update_conv')

lemma mget_mdel [simp, go_map]: "mget (mdel k m) k' = (if k' = k then None else mget m k')"
  by (simp add: delete_conv')

lemma mdef_mput [simp, go_map]: "mdef d (mput k v m) k' = (if k' = k then v else mdef d m k')"
  by (simp add: mdef_def)

lemma mdef_mdel [simp, go_map]: "mdef d (mdel k m) k' = (if k' = k then d else mdef d m k')"
  by (simp add: mdef_def)

lemma mdef_Nil [simp]: "mdef d [] k = d"
  by (simp add: mdef_def)

lemma mwf_mput [simp]: "mwf m \<Longrightarrow> mwf (mput k v m)"
  by (rule distinct_update)

lemma mwf_mdel [simp]: "mwf m \<Longrightarrow> mwf (mdel k m)"
  by (rule distinct_delete)

lemma keys_iff: "k \<in> keys m \<longleftrightarrow> mhas m k"
  by (auto simp: keys_def map_of_eq_None_iff)

lemma keys_mput [simp, go_map]: "keys (mput k v m) = insert k (keys m)"
  by (auto simp: keys_iff split: if_splits)

lemma keys_mdel [simp, go_map]: "keys (mdel k m) = keys m - {k}"
  by (auto simp: keys_iff split: if_splits)

lemma finite_keys [simp]: "finite (keys m)"
  by (simp add: keys_def)

lemma msum_Nil [simp]: "msum f [] = 0"
  by (simp add: msum_def)

lemma msum_Cons [simp]: "msum f ((k, v) # m) = f k v + msum f m"
  by (simp add: msum_def)

text \<open>A sum over a map is a sum over its keys, so the iteration order does not matter.\<close>

lemma msum_keys:
  assumes "mwf m"
  shows "msum f m = (\<Sum>k\<in>keys m. f k (the (mget m k)))"
  using assms
proof (induction m)
  case Nil
  then show ?case by (simp add: keys_def)
next
  case (Cons e m)
  obtain k v where e: "e = (k, v)" by (cases e)
  from Cons.prems e have k: "k \<notin> keys m" and m: "mwf m"
    by (auto simp: keys_def)
  have "(\<Sum>k'\<in>keys m. f k' (the (mget ((k, v) # m) k'))) = (\<Sum>k'\<in>keys m. f k' (the (mget m k')))"
    by (rule sum.cong) (use k in auto)
  moreover have "keys ((k, v) # m) = insert k (keys m)"
    by (simp add: keys_def)
  ultimately show ?case
    using k Cons.IH [OF m] by (simp add: e)
qed

lemma msum_mput:
  assumes "mwf m"
  shows "msum f (mput k v m) + (case mget m k of None \<Rightarrow> 0 | Some w \<Rightarrow> f k w) = msum f m + f k v"
proof -
  have "msum f (mput k v m) = (\<Sum>k'\<in>insert k (keys m). f k' (the (mget (mput k v m) k')))"
    using assms by (simp add: msum_keys)
  also have "\<dots> = f k v + (\<Sum>k'\<in>keys m - {k}. f k' (the (mget m k')))"
    by (subst sum.insert_remove) (auto intro!: sum.cong)
  finally have new: "msum f (mput k v m) = f k v + (\<Sum>k'\<in>keys m - {k}. f k' (the (mget m k')))" .
  show ?thesis
  proof (cases "mget m k")
    case None
    then have "k \<notin> keys m" by (simp add: keys_iff)
    with None new assms show ?thesis by (simp add: msum_keys add.commute)
  next
    case (Some w)
    then have "k \<in> keys m" by (simp add: keys_iff)
    then have "msum f m = f k w + (\<Sum>k'\<in>keys m - {k}. f k' (the (mget m k')))"
      using assms Some by (simp add: msum_keys sum.remove)
    with Some new show ?thesis by (simp add: add_ac)
  qed
qed

lemma msum_mdel:
  assumes "mwf m"
  shows "msum f (mdel k m) + (case mget m k of None \<Rightarrow> 0 | Some w \<Rightarrow> f k w) = msum f m"
proof (cases "mget m k")
  case None
  then have "k \<notin> keys m" by (simp add: keys_iff)
  then have "(\<Sum>k'\<in>keys m. f k' (the (mget (mdel k m) k'))) = (\<Sum>k'\<in>keys m. f k' (the (mget m k')))"
    by (intro sum.cong) auto
  with None \<open>k \<notin> keys m\<close> assms show ?thesis by (simp add: msum_keys)
next
  case (Some w)
  then have "k \<in> keys m" by (simp add: keys_iff)
  then have "msum f m = f k w + (\<Sum>k'\<in>keys m - {k}. f k' (the (mget m k')))"
    using assms Some by (simp add: msum_keys sum.remove)
  moreover have "msum f (mdel k m) = (\<Sum>k'\<in>keys m - {k}. f k' (the (mget m k')))"
    using assms by (auto simp: msum_keys intro!: sum.cong)
  ultimately show ?thesis using Some by (simp add: add.commute)
qed

lemma msum_cong:
  assumes "\<And>k v. (k, v) \<in> set m \<Longrightarrow> f k v = g k v"
  shows "msum f m = msum g m"
  using assms by (induction m) (auto simp: msum_def)

lemma msum_update_fun:
  fixes f g :: "'k \<Rightarrow> 'v \<Rightarrow> 'a::comm_monoid_add"
  assumes "mwf m" "\<And>k v. k \<noteq> a \<Longrightarrow> f k v = g k v"
  shows "msum g m + (case mget m a of None \<Rightarrow> 0 | Some v \<Rightarrow> f a v) =
         msum f m + (case mget m a of None \<Rightarrow> 0 | Some v \<Rightarrow> g a v)"
  using assms(1)
proof (induction m)
  case (Cons e m)
  obtain k v where e: "e = (k, v)" by (cases e)
  have m: "mwf m" and k: "mget m k = None"
    using Cons.prems by (auto simp: e map_of_eq_None_iff)
  show ?case
  proof (cases "k = a")
    case True
    then show ?thesis using Cons.IH [OF m] k by (simp add: e add_ac)
  next
    case False
    have "f k v + (msum g m + (case mget m a of None \<Rightarrow> 0 | Some v \<Rightarrow> f a v)) =
          f k v + (msum f m + (case mget m a of None \<Rightarrow> 0 | Some v \<Rightarrow> g a v))"
      by (simp only: Cons.IH [OF m])
    then show ?thesis using False assms(2) [of k v] by (simp add: e add_ac)
  qed
qed simp

lemma msum_nonneg:
  fixes f :: "'k \<Rightarrow> 'v \<Rightarrow> int"
  assumes "\<And>k v. 0 \<le> f k v"
  shows "0 \<le> msum f m"
  using assms by (induction m) (auto simp: msum_def)

lemma msum_ge_entry:
  fixes f :: "'k \<Rightarrow> 'v \<Rightarrow> int"
  assumes "\<And>k v. 0 \<le> f k v" "mget m k = Some v"
  shows "f k v \<le> msum f m"
  using assms(2)
proof (induction m)
  case (Cons e m)
  obtain k' v' where e: "e = (k', v')" by (cases e)
  show ?case
    using Cons assms(1) [of k' v'] msum_nonneg [of f m, OF assms(1)]
    by (cases "k' = k") (auto simp: e)
qed simp

lemma first_index_SomeD:
  "first_index P xs = Some i \<Longrightarrow> i < length xs \<and> P (xs ! i) \<and> (\<forall>j<i. \<not> P (xs ! j))"
proof (induction xs arbitrary: i)
  case (Cons x xs)
  show ?case
  proof (cases "P x")
    case False
    with Cons.prems obtain j where j: "first_index P xs = Some j" "i = Suc j"
      by (auto split: option.splits)
    with Cons.IH [OF j(1)] False show ?thesis
      by (auto simp: less_Suc_eq_0_disj)
  qed (use Cons.prems in auto)
qed simp

lemma first_index_None: "first_index P xs = None \<longleftrightarrow> (\<forall>x\<in>set xs. \<not> P x)"
  by (induction xs) (auto split: option.splits)

end
