(* ===== verification/XE_Arith.thy ===== *)
theory XE_Arith
  imports XE_Prelude
begin

text \<open>
  The checked 64-bit arithmetic of \<open>core/ledger.go\<close> and the pricing rules built on it:
  lease cost, stake and emission. The genesis document can change the lease timing
  variables of the package, so they are the fields of a record \<open>lease_timing\<close> passed to
  the functions that read them.
\<close>

section \<open>Definitions\<close>

text \<open>\<open>bits.Mul64\<close>: the high and low words of the 128-bit product.\<close>

definition Mul64 :: "u64 \<Rightarrow> u64 \<Rightarrow> u64 \<times> u64" where
  "Mul64 a b = (of_nat ((unat a * unat b) div 2 ^ 64), a * b)"

definition safeMul :: "u64 \<Rightarrow> u64 \<Rightarrow> u64 \<times> bool" where
  "safeMul a b =
     (if a = 0 \<or> b = 0 then (0, True)
      else let (hi, lo) = Mul64 a b
           in if hi \<noteq> 0 then (0, False) else (lo, True))"

definition safeAdd :: "u64 \<Rightarrow> u64 \<Rightarrow> u64 \<times> bool" where
  "safeAdd a b = (let s = a + b in if s < a then (0, False) else (s, True))"

definition ceilDiv :: "u64 \<Rightarrow> u64 \<Rightarrow> u64" where
  "ceilDiv a b = (if a = 0 then 0 else (a - 1) div b + 1)"

definition LeaseMaxDuration :: u64 where "LeaseMaxDuration = 31536000"
definition LeaseVCPURate :: u64 where "LeaseVCPURate = 20000"
definition LeaseMemGBRate :: u64 where "LeaseMemGBRate = 10000"
definition LeaseDiskGBRate :: u64 where "LeaseDiskGBRate = 1000"
definition LeaseStakeDivisor :: u64 where "LeaseStakeDivisor = 0"
definition LeaseMaxVCPUs :: u64 where "LeaseMaxVCPUs = 4096"
definition LeaseMaxMemoryMB :: u64 where "LeaseMaxMemoryMB = 67108864"
definition LeaseMaxDiskGB :: u64 where "LeaseMaxDiskGB = 1048576"
definition RFallback :: u64 where "RFallback = 2000"

record lease_timing =
  LeaseMinDuration :: u64
  LeaseSettleGrace :: int
  LeaseForceSettleGap :: int
  LeaseEscrowExpiry :: int
  LeaseArchiveGap :: int
  MaxAttestationSkew :: int

definition DefaultLeaseTiming :: lease_timing where
  "DefaultLeaseTiming =
     \<lparr>LeaseMinDuration = 60,
      LeaseSettleGrace = 3600000000000,
      LeaseForceSettleGap = 1500000000000,
      LeaseEscrowExpiry = 31536000000000000,
      LeaseArchiveGap = 3600000000000,
      MaxAttestationSkew = 600000000000\<rparr>"

definition LeaseStake :: "u64 \<Rightarrow> u64" where
  "LeaseStake cost =
     (if LeaseStakeDivisor = 0 then 0
      else let stake = ceilDiv cost LeaseStakeDivisor
           in if stake = 0 then 1 else stake)"

definition LeaseCost :: "lease_timing \<Rightarrow> u64 \<Rightarrow> u64 \<Rightarrow> u64 \<Rightarrow> u64 \<Rightarrow> u64 \<Rightarrow> u64 result" where
  "LeaseCost T vcpus memoryMB diskGB duration multiplierMilli =
     (if multiplierMilli = 0 then Err ''multiplierMilli must be non-zero''
      else if duration < LeaseMinDuration T then Err ''duration must be >= %d seconds, got %d''
      else if duration > LeaseMaxDuration then Err ''duration must be <= %d seconds, got %d''
      else
        let minutes = ceilDiv duration 60;
            memGB = ceilDiv memoryMB 1024;
            (vcpuMicro, ok1) = safeMul vcpus LeaseVCPURate
        in if \<not> ok1 then Err ''overflow: vcpus(%d) * LeaseVCPURate(%d)'' else
        let (memMicro, ok2) = safeMul memGB LeaseMemGBRate
        in if \<not> ok2 then Err ''overflow: memGB(%d) * LeaseMemGBRate(%d)'' else
        let (diskMicro, ok3) = safeMul diskGB LeaseDiskGBRate
        in if \<not> ok3 then Err ''overflow: diskGB(%d) * LeaseDiskGBRate(%d)'' else
        let (perHour0, ok4) = safeAdd vcpuMicro memMicro
        in if \<not> ok4 then Err ''overflow: perHourMicro vcpu(%d) + mem(%d)'' else
        let (perHourMicro, ok5) = safeAdd perHour0 diskMicro
        in if \<not> ok5 then Err ''overflow: perHourMicro(%d) + disk(%d)'' else
        if perHourMicro = 0 then Err ''lease requires at least some resources'' else
        let (perMinuteScaled, ok6) = safeMul perHourMicro minutes
        in if \<not> ok6 then Err ''overflow: perHourMicro(%d) * minutes(%d)'' else
        let costMicro = ceilDiv perMinuteScaled 60;
            (scaled, ok7) = safeMul costMicro multiplierMilli
        in if \<not> ok7 then Err ''overflow: costMicro(%d) * multiplierMilli(%d)'' else
        let cost = ceilDiv scaled 1000
        in Inr (if cost = 0 then 1 else cost))"

definition ValidateLeaseDimensions :: "lease_timing \<Rightarrow> u64 \<Rightarrow> u64 \<Rightarrow> u64 \<Rightarrow> u64 \<Rightarrow> unit result" where
  "ValidateLeaseDimensions T vcpus memoryMB diskGB duration =
     (if vcpus = 0 \<and> memoryMB = 0 \<and> diskGB = 0
        then Err ''lease must request at least one resource (vcpus, memory, or disk)''
      else if vcpus > LeaseMaxVCPUs then Err ''lease vcpus must be <= %d, got %d''
      else if memoryMB > LeaseMaxMemoryMB then Err ''lease memory_mb must be <= %d, got %d''
      else if diskGB > LeaseMaxDiskGB then Err ''lease disk_gb must be <= %d, got %d''
      else if duration < LeaseMinDuration T then Err ''lease duration must be >= %d seconds''
      else if duration > LeaseMaxDuration then Err ''lease duration must be <= %d seconds''
      else Inr ())"

definition CapR :: "u64 \<Rightarrow> u64 \<Rightarrow> u64 \<Rightarrow> u64" where
  "CapR r payoutCap twapMilliUSD =
     (if payoutCap = 0 \<or> twapMilliUSD = 0 then r
      else let (scaled, ok) = safeMul payoutCap 1000
           in if \<not> ok then r
              else let rCapMax = ceilDiv scaled twapMilliUSD
                   in if rCapMax < r then rCapMax else r)"

definition LeaseEmissionChecked :: "u64 \<Rightarrow> u64 \<Rightarrow> u64 result" where
  "LeaseEmissionChecked cost r =
     (let (product, ok) = safeMul cost r
      in if \<not> ok then Err ''lease emission overflow: cost(%d) * r(%d)''
         else let emission = ceilDiv product 1000
              in Inr (if emission = 0 then 1 else emission))"

definition LeaseEmission :: "u64 \<Rightarrow> u64 \<Rightarrow> u64" where
  "LeaseEmission cost r = (case LeaseEmissionChecked cost r of Inl _ \<Rightarrow> 0 | Inr e \<Rightarrow> e)"

section \<open>Reference definitions on natural numbers\<close>

definition ceil_nat :: "nat \<Rightarrow> nat \<Rightarrow> nat" where
  "ceil_nat a b = (a + b - 1) div b"

definition per_hour_nat :: "nat \<Rightarrow> nat \<Rightarrow> nat \<Rightarrow> nat" where
  "per_hour_nat v m d = v * 20000 + ceil_nat m 1024 * 10000 + d * 1000"

definition lease_cost_nat :: "nat \<Rightarrow> nat \<Rightarrow> nat \<Rightarrow> nat \<Rightarrow> nat \<Rightarrow> nat" where
  "lease_cost_nat v m d t k =
     max 1 (ceil_nat (ceil_nat (per_hour_nat v m d * ceil_nat t 60) 60 * k) 1000)"

section \<open>Checked arithmetic is exact\<close>

lemma of_nat_u64_eq_0: "n < 2 ^ 64 \<Longrightarrow> (of_nat n :: u64) = 0 \<longleftrightarrow> n = 0"
proof -
  assume "n < 2 ^ 64"
  then have "unat (of_nat n :: u64) = n" by (simp add: unat_of_nat)
  then show ?thesis by (metis unat_eq_0)
qed

lemma safeMul_eq:
  "safeMul a b = (if unat a * unat b < 2 ^ 64 then (a * b, True) else (0, False))"
proof (cases "a = 0 \<or> b = 0")
  case True
  then show ?thesis by (auto simp: safeMul_def)
next
  case False
  have "unat a * unat b < 2 ^ 64 * 2 ^ 64"
    using unat_u64_lt [of a] unat_u64_lt [of b] by (intro mult_strict_mono) auto
  then have "(unat a * unat b) div 2 ^ 64 < 2 ^ 64"
    by (simp add: less_mult_imp_div_less)
  from of_nat_u64_eq_0 [OF this] show ?thesis
    using False by (simp add: safeMul_def Mul64_def div_eq_0_iff)
qed

lemma safeAdd_eq:
  "safeAdd a b = (if unat a + unat b < 2 ^ 64 then (a + b, True) else (0, False))"
  by (simp add: safeAdd_def add_no_wrap_iff Let_def)

lemma safeMul_ok: "safeMul a b = (c, True) \<Longrightarrow> unat c = unat a * unat b"
  by (auto simp: safeMul_eq unat_mult_u64 split: if_splits)

lemma safeAdd_ok: "safeAdd a b = (c, True) \<Longrightarrow> unat c = unat a + unat b"
  by (auto simp: safeAdd_eq unat_add_u64 split: if_splits)

lemma ceil_nat_pos: "0 < a \<Longrightarrow> 0 < b \<Longrightarrow> ceil_nat a b = (a - 1) div b + 1"
proof -
  assume a: "0 < a" and b: "0 < b"
  have e: "a + b - 1 = (a - 1) + b" using a by simp
  show ?thesis unfolding ceil_nat_def e using b by (subst div_add_self2) auto
qed

lemma ceil_nat_0 [simp]: "ceil_nat 0 b = 0"
  by (cases "b = 0") (simp_all add: ceil_nat_def)

lemma ceil_nat_mono: "a \<le> a' \<Longrightarrow> ceil_nat a b \<le> ceil_nat a' b"
  by (simp add: ceil_nat_def div_le_mono)

text \<open>\<open>ceil_nat\<close> is the least upper quotient.\<close>

lemma ceil_nat_upper: "0 < b \<Longrightarrow> a \<le> ceil_nat a b * b"
proof (cases "a = 0")
  case False
  assume b: "0 < b"
  have "a - 1 < ((a - 1) div b + 1) * b"
    using b by (simp add: dividend_less_div_times add.commute)
  with False b show ?thesis by (simp add: ceil_nat_pos)
qed simp

lemma ceil_nat_least: "0 < b \<Longrightarrow> a \<le> q * b \<Longrightarrow> ceil_nat a b \<le> q"
proof (cases "a = 0")
  case False
  assume b: "0 < b" and q: "a \<le> q * b"
  then have "a - 1 < q * b" using False by simp
  then have "(a - 1) div b < q" by (simp add: less_mult_imp_div_less)
  with False b show ?thesis by (simp add: ceil_nat_pos)
qed simp

lemma unat_ceilDiv [go_arith]:
  assumes "b \<noteq> 0"
  shows "unat (ceilDiv a b) = ceil_nat (unat a) (unat b)"
proof (cases "a = 0")
  case False
  have b: "0 < unat b" and a: "0 < unat a"
    using assms False by (simp_all add: unat_gt_0)
  have "(unat a - 1) div unat b \<le> unat a - 1" by (rule div_le_dividend)
  then have "(unat a - 1) div unat b + 1 < 2 ^ 64"
    using unat_u64_lt [of a] a by linarith
  then have "unat ((a - 1) div b + 1) = (unat a - 1) div unat b + 1"
    using False by (simp add: unat_add_u64 unat_div unat_minus_one)
  with False a b show ?thesis by (simp add: ceilDiv_def ceil_nat_pos)
qed (simp add: ceilDiv_def)

lemma ceilDiv_eq_0_iff: "b \<noteq> 0 \<Longrightarrow> ceilDiv a b = 0 \<longleftrightarrow> a = 0"
proof -
  assume b: "b \<noteq> 0"
  have "ceil_nat (unat a) (unat b) = 0 \<longleftrightarrow> unat a = 0"
    using b by (cases "unat a = 0") (auto simp: ceil_nat_pos unat_gt_0)
  then show ?thesis
    using unat_ceilDiv [OF b, of a] by (metis unat_eq_0)
qed

lemma unat_at_least_1: "unat (if (x :: u64) = 0 then 1 else x) = max 1 (unat x)"
proof (cases "x = 0")
  case False
  then have "1 \<le> unat x" using unat_gt_0 [of x] by linarith
  with False show ?thesis by simp
qed simp

lemmas pricing_consts = LeaseMaxDuration_def LeaseVCPURate_def LeaseMemGBRate_def
  LeaseDiskGBRate_def LeaseMaxVCPUs_def LeaseMaxMemoryMB_def LeaseMaxDiskGB_def

section \<open>Lease cost\<close>

text \<open>C32: every result of \<open>LeaseCost\<close> is the exact price, rounded up at each stage and at
  least one unit; none of the 64-bit operations wraps around.\<close>

theorem LeaseCost_exact:
  assumes "LeaseCost T v m d t k = Inr c"
  shows "unat c = lease_cost_nat (unat v) (unat m) (unat d) (unat t) (unat k)"
proof -
  let ?mem = "ceilDiv m 1024" and ?min = "ceilDiv t 60"
  from assms obtain vm mm dm p0 ph pm sc where
      s1: "safeMul v LeaseVCPURate = (vm, True)"
    and s2: "safeMul ?mem LeaseMemGBRate = (mm, True)"
    and s3: "safeMul d LeaseDiskGBRate = (dm, True)"
    and s4: "safeAdd vm mm = (p0, True)"
    and s5: "safeAdd p0 dm = (ph, True)"
    and s6: "safeMul ph ?min = (pm, True)"
    and s7: "safeMul (ceilDiv pm 60) k = (sc, True)"
    and c: "c = (if ceilDiv sc 1000 = 0 then 1 else ceilDiv sc 1000)"
    unfolding LeaseCost_def Let_def by (auto split: if_splits prod.splits)
  have "unat ph = per_hour_nat (unat v) (unat m) (unat d)"
    using s1 [THEN safeMul_ok] s2 [THEN safeMul_ok] s3 [THEN safeMul_ok]
      s4 [THEN safeAdd_ok] s5 [THEN safeAdd_ok]
    by (simp add: per_hour_nat_def unat_ceilDiv pricing_consts)
  then have "unat sc = ceil_nat (per_hour_nat (unat v) (unat m) (unat d) * ceil_nat (unat t) 60) 60 * unat k"
    using s6 [THEN safeMul_ok] s7 [THEN safeMul_ok] by (simp add: unat_ceilDiv)
  moreover have "unat c = max 1 (unat (ceilDiv sc 1000))"
    unfolding c by (rule unat_at_least_1)
  ultimately show ?thesis
    by (simp add: lease_cost_nat_def unat_ceilDiv)
qed

theorem LeaseCost_exact_witness:
  "LeaseCost DefaultLeaseTiming 2 4096 50 3600 1500 = Inr 195000 \<and>
   unat (195000 :: u64) = lease_cost_nat 2 4096 50 3600 1500"
proof -
  have h: "LeaseCost DefaultLeaseTiming 2 4096 50 3600 1500 = Inr 195000"
    by (simp add: LeaseCost_def DefaultLeaseTiming_def safeMul_eq safeAdd_eq ceilDiv_def pricing_consts)
  show ?thesis using h LeaseCost_exact [OF h] by simp
qed

lemma per_hour_bound:
  "v \<le> 4096 \<Longrightarrow> m \<le> 67108864 \<Longrightarrow> d \<le> 1048576 \<Longrightarrow> per_hour_nat v m d \<le> 1785856000"
  using ceil_nat_mono [of m 67108864 1024]
  by (simp add: per_hour_nat_def ceil_nat_def)



section \<open>Emission\<close>

lemma CapR_le: "CapR r cap twap \<le> r"
  by (auto simp: CapR_def Let_def split: prod.splits)

text \<open>
  The payout cap: with both parameters set (and the cap below the overflow bound), one
  unit of lease cost emits at most the number of XE units whose value at the oracle's
  price reaches the cap.
\<close>

lemma CapR_bound:
  assumes "cap \<noteq> 0" "twap \<noteq> 0" "unat cap * 1000 < 2 ^ 64"
  shows "unat (CapR r cap twap) = min (unat r) (ceil_nat (unat cap * 1000) (unat twap))"
proof -
  have "unat (cap * 1000) = unat cap * 1000"
    using assms(3) by (simp add: unat_mult_u64)
  then have "unat (ceilDiv (cap * 1000) twap) = ceil_nat (unat cap * 1000) (unat twap)"
    using assms(2) by (simp add: unat_ceilDiv)
  with assms show ?thesis
    by (auto simp: CapR_def safeMul_eq word_less_nat_alt)
qed

lemma LeaseEmissionChecked_eq:
  "LeaseEmissionChecked cost r =
     (if unat cost * unat r < 2 ^ 64
      then Inr (if cost * r = 0 then 1 else ceilDiv (cost * r) 1000)
      else Err ''lease emission overflow: cost(%d) * r(%d)'')"
  by (simp add: LeaseEmissionChecked_def safeMul_eq ceilDiv_eq_0_iff Let_def)

lemma LeaseEmissionChecked_exact:
  "LeaseEmissionChecked cost r = Inr e \<Longrightarrow>
   unat e = max 1 (ceil_nat (unat cost * unat r) 1000)"
proof -
  assume h: "LeaseEmissionChecked cost r = Inr e"
  then have b: "unat cost * unat r < 2 ^ 64"
    and e: "e = (if cost * r = 0 then 1 else ceilDiv (cost * r) 1000)"
    by (auto simp: LeaseEmissionChecked_eq split: if_splits)
  have p: "unat (cost * r) = unat cost * unat r" using b by (rule unat_mult_u64)
  show ?thesis
  proof (cases "cost * r = 0")
    case True
    with p have z: "unat cost * unat r = 0" by simp
    show ?thesis unfolding z using True e by simp
  next
    case False
    then have "0 < unat cost * unat r" using p by (metis unat_gt_0)
    then have "1 \<le> ceil_nat (unat cost * unat r) 1000" by (simp add: ceil_nat_pos)
    with False e p show ?thesis by (simp add: unat_ceilDiv)
  qed
qed

end
