(* ===== verification/XE_Types.thy ===== *)
theory XE_Types
  imports XE_Arith
begin

text \<open>
  The data model of \<open>core/types.go\<close> and \<open>core/store.go\<close>: blocks, pending sends,
  leases, conflicts, votes, and the commit and undo records the ledger hands to the
  store. A Go struct is a record with the same fields in the same order, a typed string
  constant is a constructor, a possibly-nil pointer is an \<open>option\<close>. An \<open>AccountChain\<close> is
  the list of its blocks, oldest first.
\<close>

section \<open>Blocks\<close>

datatype block_type =
    BlockSend | BlockReceive | BlockMint | BlockGenesis | BlockBurn
  | BlockLease | BlockLeaseAccept | BlockLeaseSettle | BlockLeaseCancel
  | BlockLeaseForceSettle | BlockLeaseRenew | BlockMultisigOpen | BlockMultisigUpdate
  | BlockOther string

definition IsValidAsset :: "string \<Rightarrow> bool" where
  "IsValidAsset asset \<longleftrightarrow> asset = ''XE'' \<or> asset = ''XUSD''"

record keyset =
  ks_Keys :: "string list"
  ks_Threshold :: int

record block_signature =
  sg_PublicKey :: string
  sg_Sig :: string

record timekeeper_attestation =
  att_PublicKey :: string
  att_Timestamp :: int
  att_Signature :: string

record timekeeper_config =
  tk_Keys :: "string list"
  tk_Threshold :: int

record block =
  blk_Type :: block_type
  blk_Account :: string
  blk_Previous :: string
  blk_Balance :: u64
  blk_Timestamp :: int
  blk_Asset :: string
  blk_Representative :: string
  blk_Destination :: string
  blk_Amount :: u64
  blk_Source :: string
  blk_VCPUs :: u64
  blk_MemoryMB :: u64
  blk_DiskGB :: u64
  blk_Duration :: u64
  blk_AccessPubKey :: string
  blk_LeaseMinDurationSecs :: u64
  blk_LeaseSettleGraceNs :: int
  blk_LeaseForceSettleGapNs :: int
  blk_LeaseEscrowExpiryNs :: int
  blk_LeaseArchiveGapNs :: int
  blk_MaxAttestationSkewNs :: int
  blk_Memo :: string
  blk_MSKeyset :: "keyset option"
  blk_Signatures :: "block_signature list"
  blk_PubKey :: string
  blk_Signature :: string
  blk_Hash :: string
  blk_PoWNonce :: u64
  blk_Attestations :: "timekeeper_attestation list"
  blk_CertificateHash :: string
  blk_LockedR :: u64
  blk_LockedPayoutCap :: u64
  blk_LockedTWAP :: u64

text \<open>The asset of a block; blocks without one predate the field and count as XE.\<close>

definition assetOf :: "block \<Rightarrow> string" where
  "assetOf b = (if blk_Asset b = [] then ''XE'' else blk_Asset b)"

section \<open>Account chains\<close>

type_synonym account_chain = "block list"

definition Frontier :: "account_chain \<Rightarrow> string" where
  "Frontier c = (if c = [] then ''0'' else blk_Hash (last c))"

definition LatestBalance :: "account_chain \<Rightarrow> u64" where
  "LatestBalance c = (if c = [] then 0 else blk_Balance (last c))"

section \<open>Pending sends, conflicts and votes\<close>

record pending_send =
  ps_SendHash :: string
  ps_Source :: string
  ps_Destination :: string
  ps_Amount :: u64
  ps_Asset :: string

record conflict =
  cf_AccountAddress :: string
  cf_PreviousHash :: string
  cf_BlockHashes :: "string list"
  cf_DetectedAt :: int
  cf_WeightSnapshot :: "(string, u64) gomap option"
  cf_TotalWeight :: u64

record vote =
  vt_RepPubKey :: string
  vt_BlockHash :: string
  vt_ConflictAccount :: string
  vt_ConflictPrev :: string
  vt_Timestamp :: int
  vt_Final :: bool
  vt_Signature :: bytes
  vt_Weight :: u64

datatype block_status = StatusPending | StatusFinalized | StatusRejected

section \<open>Leases\<close>

datatype lease_state =
    LeaseCreated | LeaseAccepted | LeaseSettled | LeaseCancelled | LeaseUnfulfilled
  | LeaseExpired | LeaseStateUnset

fun Terminal :: "lease_state \<Rightarrow> bool" where
  "Terminal LeaseSettled = True"
| "Terminal LeaseCancelled = True"
| "Terminal LeaseUnfulfilled = True"
| "Terminal LeaseExpired = True"
| "Terminal _ = False"

record lease_segment =
  seg_RenewHash :: string
  seg_Duration :: u64
  seg_Cost :: u64
  seg_StartTime :: int
  seg_CertificateHash :: string
  seg_LockedR :: u64
  seg_LockedPayoutCap :: u64
  seg_LockedTWAP :: u64

record lease =
  ls_LeaseHash :: string
  ls_State :: lease_state
  ls_Consumer :: string
  ls_Provider :: string
  ls_VCPUs :: u64
  ls_MemoryMB :: u64
  ls_DiskGB :: u64
  ls_Duration :: u64
  ls_AccessPubKey :: string
  ls_Cost :: u64
  ls_Stake :: u64
  ls_StartTime :: int
  ls_CertificateHash :: string
  ls_Settled :: bool
  ls_LockedR :: u64
  ls_LockedPayoutCap :: u64
  ls_LockedTWAP :: u64
  ls_Renewals :: "lease_segment list"

text \<open>The loop over the renewals adds with wrap-around.\<close>

definition EffectiveDurationSecs :: "lease \<Rightarrow> u64" where
  "EffectiveDurationSecs l = foldl (\<lambda>total s. total + seg_Duration s) (ls_Duration l) (ls_Renewals l)"

text \<open>\<open>int64(d)\<close> reinterprets the 64 bits: the signed value of the word.\<close>

definition EffectiveExpiry :: "lease \<Rightarrow> int" where
  "EffectiveExpiry l =
     i64 (ls_StartTime l + i64 (sint (EffectiveDurationSecs l) * 1000000000))"

definition BackfillState :: "lease \<Rightarrow> lease" where
  "BackfillState l =
     (if ls_State l \<noteq> LeaseStateUnset then l
      else if ls_Settled l then l\<lparr>ls_State := LeaseSettled\<rparr>
      else l\<lparr>ls_State := LeaseAccepted\<rparr>)"

record certificate_info =
  ci_Provider :: string
  ci_ExpiresAt :: int
  ci_PriceMultiplierMilli :: u64

section \<open>What the ledger asks of the store\<close>

record asset_delta =
  ad_Account :: string
  ad_Asset :: string
  ad_Amount :: u64

record block_commit =
  c_Block :: block
  c_Account :: string
  c_Chain :: account_chain
  c_FrontierHash :: string
  c_AddPending :: "pending_send option"
  c_DeletePendingID :: string
  c_PutLease :: "lease option"
  c_SettleLeaseHash :: string
  c_CancelLeaseHash :: string
  c_UnfulfillLeaseHash :: string
  c_DelegationRep :: string
  c_DeleteDelegation :: bool
  c_PutKeyset :: "keyset option"
  c_PutAccountKey :: string
  c_ExpectLeaseHash :: string
  c_ExpectLeaseState :: lease_state
  c_AssetCredit :: "asset_delta option"
  c_TopUpPendingID :: string
  c_TopUpPendingAmount :: u64
  c_ExpectLeaseEffectiveDurationSecs :: u64

record block_undo =
  u_Account :: string
  u_Chain :: account_chain
  u_FrontierHash :: string
  u_AddPending :: "pending_send option"
  u_DeletePendingID :: string
  u_RejectHash :: string
  u_DeleteAccount :: bool
  u_RestoreDelegation :: bool
  u_PrevRep :: string
  u_RestoreLease :: "lease option"
  u_DeleteLeaseHash :: string
  u_DeleteKeysetAccount :: string
  u_DeleteAccountKeyAccount :: string
  u_AssetDebit :: "asset_delta option"
  u_ReducePendingID :: string
  u_ReducePendingAmount :: u64

section \<open>Lemmas\<close>

lemma assetOf_valid [simp]: "IsValidAsset (blk_Asset b) \<Longrightarrow> assetOf b = blk_Asset b"
  by (auto simp: assetOf_def IsValidAsset_def)

lemma Frontier_snoc [simp]: "Frontier (c @ [b]) = blk_Hash b"
  by (simp add: Frontier_def)

lemma Frontier_Nil [simp]: "Frontier [] = ''0''"
  by (simp add: Frontier_def)

lemma EffectiveDurationSecs_snoc:
  "EffectiveDurationSecs (l\<lparr>ls_Renewals := ls_Renewals l @ [s]\<rparr>) = EffectiveDurationSecs l + seg_Duration s"
  by (simp add: EffectiveDurationSecs_def)

end
