(* ===== verification/XE_Reputation.thy ===== *)
theory XE_Reputation
  imports XE_Types
begin

text \<open>
  The reputation engine of \<open>core/reputation.go\<close>. The engine keeps an aggregate of
  counters per account in memory and writes each change through to the store; its state
  is the pair of the two maps. \<open>Apply\<close> counts a lease event for its provider and its
  consumer, \<open>Revert\<close> takes it back when the block that caused it is rolled back.
\<close>

section \<open>Definitions\<close>

datatype event_kind =
  EventLeaseAccepted | EventLeaseSettled | EventLeaseCancelled | EventLeaseUnfulfilled

record reputation_event =
  ev_Kind :: event_kind
  ev_Provider :: string
  ev_Consumer :: string
  ev_Timestamp :: int
  ev_DurationSecs :: u64

record reputation_aggregate =
  ra_Version :: nat
  ra_LeasesAcceptedAsProvider :: u64
  ra_LeasesSettledAsProvider :: u64
  ra_LeaseHoursSettledAsProvider :: u64
  ra_LeasesUnfulfilledAsProvider :: u64
  ra_LeasesAcceptedAsConsumer :: u64
  ra_LeasesSettledAsConsumer :: u64
  ra_LeasesCancelledAsConsumer :: u64
  ra_LeaseHoursSettledAsConsumer :: u64
  ra_LeasesUnfulfilledAsConsumer :: u64
  ra_FirstActivityAt :: int
  ra_LastActivityAt :: int

definition NewReputationAggregate :: reputation_aggregate where
  "NewReputationAggregate =
     \<lparr>ra_Version = 2,
      ra_LeasesAcceptedAsProvider = 0, ra_LeasesSettledAsProvider = 0,
      ra_LeaseHoursSettledAsProvider = 0, ra_LeasesUnfulfilledAsProvider = 0,
      ra_LeasesAcceptedAsConsumer = 0, ra_LeasesSettledAsConsumer = 0,
      ra_LeasesCancelledAsConsumer = 0, ra_LeaseHoursSettledAsConsumer = 0,
      ra_LeasesUnfulfilledAsConsumer = 0, ra_FirstActivityAt = 0, ra_LastActivityAt = 0\<rparr>"

text \<open>The \<open>switch\<close> on the kind of the event, for an account that is provider or consumer.\<close>

definition count_event :: "bool \<Rightarrow> bool \<Rightarrow> reputation_event \<Rightarrow> reputation_aggregate \<Rightarrow> reputation_aggregate" where
  "count_event isProvider isConsumer ev agg =
     (case ev_Kind ev of
        EventLeaseAccepted \<Rightarrow>
          (let a = (if isProvider then agg\<lparr>ra_LeasesAcceptedAsProvider := ra_LeasesAcceptedAsProvider agg + 1\<rparr> else agg)
           in if isConsumer then a\<lparr>ra_LeasesAcceptedAsConsumer := ra_LeasesAcceptedAsConsumer a + 1\<rparr> else a)
      | EventLeaseSettled \<Rightarrow>
          (let a = (if isProvider
                    then agg\<lparr>ra_LeasesSettledAsProvider := ra_LeasesSettledAsProvider agg + 1,
                            ra_LeaseHoursSettledAsProvider := ra_LeaseHoursSettledAsProvider agg + ev_DurationSecs ev\<rparr>
                    else agg)
           in if isConsumer
              then a\<lparr>ra_LeasesSettledAsConsumer := ra_LeasesSettledAsConsumer a + 1,
                    ra_LeaseHoursSettledAsConsumer := ra_LeaseHoursSettledAsConsumer a + ev_DurationSecs ev\<rparr>
              else a)
      | EventLeaseCancelled \<Rightarrow>
          (if isConsumer then agg\<lparr>ra_LeasesCancelledAsConsumer := ra_LeasesCancelledAsConsumer agg + 1\<rparr> else agg)
      | EventLeaseUnfulfilled \<Rightarrow>
          (let a = (if isProvider then agg\<lparr>ra_LeasesUnfulfilledAsProvider := ra_LeasesUnfulfilledAsProvider agg + 1\<rparr> else agg)
           in if isConsumer then a\<lparr>ra_LeasesUnfulfilledAsConsumer := ra_LeasesUnfulfilledAsConsumer a + 1\<rparr> else a))"

definition ApplyReputationDelta :: "reputation_aggregate \<Rightarrow> string \<Rightarrow> reputation_event \<Rightarrow> reputation_aggregate" where
  "ApplyReputationDelta agg account ev =
     (if account = [] then agg
      else let isProvider = (account = ev_Provider ev); isConsumer = (account = ev_Consumer ev)
      in if \<not> isProvider \<and> \<not> isConsumer then agg
         else let a = count_event isProvider isConsumer ev agg;
                  a1 = (if ra_FirstActivityAt a = 0 \<or> ev_Timestamp ev < ra_FirstActivityAt a
                        then a\<lparr>ra_FirstActivityAt := ev_Timestamp ev\<rparr> else a)
              in if ev_Timestamp ev > ra_LastActivityAt a1
                 then a1\<lparr>ra_LastActivityAt := ev_Timestamp ev\<rparr> else a1)"

definition dec :: "u64 \<Rightarrow> u64 \<Rightarrow> u64" where
  "dec c n = (if c < n then 0 else c - n)"

definition uncount_event :: "bool \<Rightarrow> bool \<Rightarrow> reputation_event \<Rightarrow> reputation_aggregate \<Rightarrow> reputation_aggregate" where
  "uncount_event isProvider isConsumer ev agg =
     (case ev_Kind ev of
        EventLeaseAccepted \<Rightarrow>
          (let a = (if isProvider then agg\<lparr>ra_LeasesAcceptedAsProvider := dec (ra_LeasesAcceptedAsProvider agg) 1\<rparr> else agg)
           in if isConsumer then a\<lparr>ra_LeasesAcceptedAsConsumer := dec (ra_LeasesAcceptedAsConsumer a) 1\<rparr> else a)
      | EventLeaseSettled \<Rightarrow>
          (let a = (if isProvider
                    then agg\<lparr>ra_LeasesSettledAsProvider := dec (ra_LeasesSettledAsProvider agg) 1,
                            ra_LeaseHoursSettledAsProvider := dec (ra_LeaseHoursSettledAsProvider agg) (ev_DurationSecs ev)\<rparr>
                    else agg)
           in if isConsumer
              then a\<lparr>ra_LeasesSettledAsConsumer := dec (ra_LeasesSettledAsConsumer a) 1,
                    ra_LeaseHoursSettledAsConsumer := dec (ra_LeaseHoursSettledAsConsumer a) (ev_DurationSecs ev)\<rparr>
              else a)
      | EventLeaseCancelled \<Rightarrow>
          (if isConsumer then agg\<lparr>ra_LeasesCancelledAsConsumer := dec (ra_LeasesCancelledAsConsumer agg) 1\<rparr> else agg)
      | EventLeaseUnfulfilled \<Rightarrow>
          (let a = (if isProvider then agg\<lparr>ra_LeasesUnfulfilledAsProvider := dec (ra_LeasesUnfulfilledAsProvider agg) 1\<rparr> else agg)
           in if isConsumer then a\<lparr>ra_LeasesUnfulfilledAsConsumer := dec (ra_LeasesUnfulfilledAsConsumer a) 1\<rparr> else a))"

definition RevertReputationDelta :: "reputation_aggregate \<Rightarrow> string \<Rightarrow> reputation_event \<Rightarrow> reputation_aggregate" where
  "RevertReputationDelta agg account ev =
     (if account = [] then agg
      else let isProvider = (account = ev_Provider ev); isConsumer = (account = ev_Consumer ev)
      in if \<not> isProvider \<and> \<not> isConsumer then agg else uncount_event isProvider isConsumer ev agg)"

definition counters :: "reputation_aggregate \<Rightarrow> u64 list" where
  "counters a =
     [ra_LeasesAcceptedAsProvider a, ra_LeasesSettledAsProvider a,
      ra_LeaseHoursSettledAsProvider a, ra_LeasesUnfulfilledAsProvider a,
      ra_LeasesAcceptedAsConsumer a, ra_LeasesSettledAsConsumer a,
      ra_LeasesCancelledAsConsumer a, ra_LeaseHoursSettledAsConsumer a,
      ra_LeasesUnfulfilledAsConsumer a]"

definition hasNoCounters :: "reputation_aggregate \<Rightarrow> bool" where
  "hasNoCounters a = list_all (\<lambda>c. c = 0) (counters a)"

definition AffectedAccounts :: "reputation_event \<Rightarrow> string list" where
  "AffectedAccounts ev =
     (if ev_Provider ev \<noteq> [] then [ev_Provider ev] else []) @
     (if ev_Consumer ev \<noteq> [] \<and> ev_Consumer ev \<noteq> ev_Provider ev then [ev_Consumer ev] else [])"

type_synonym rep_map = "(string, reputation_aggregate) gomap"
type_synonym rep_engine = "rep_map \<times> rep_map"

definition engine_apply1 :: "reputation_event \<Rightarrow> string \<Rightarrow> rep_engine \<Rightarrow> rep_engine" where
  "engine_apply1 ev acc e =
     (let a = ApplyReputationDelta (mdef NewReputationAggregate (fst e) acc) acc ev
      in (mput acc a (fst e), mput acc a (snd e)))"

definition engine_Apply :: "reputation_event \<Rightarrow> rep_engine \<Rightarrow> rep_engine" where
  "engine_Apply ev e = fold (engine_apply1 ev) (AffectedAccounts ev) e"

definition engine_revert1 :: "reputation_event \<Rightarrow> string \<Rightarrow> rep_engine \<Rightarrow> rep_engine" where
  "engine_revert1 ev acc e =
     (case mget (fst e) acc of
        None \<Rightarrow> e
      | Some a0 \<Rightarrow>
          let a = RevertReputationDelta a0 acc ev
          in if hasNoCounters a then (mdel acc (fst e), mdel acc (snd e))
             else (mput acc a (fst e), mput acc a (snd e)))"

definition engine_Revert :: "reputation_event \<Rightarrow> rep_engine \<Rightarrow> rep_engine" where
  "engine_Revert ev e = fold (engine_revert1 ev) (AffectedAccounts ev) e"

end
