(* ===== verification/XE_Store.thy ===== *)
theory XE_Store
  imports XE_Reputation
begin

text \<open>
  The in-memory store of \<open>store/mem_store.go\<close>: its maps, the accessors the ledger calls,
  and the three operations that write a block: \<open>CommitBlock\<close>, \<open>CommitUndo\<close> and
  \<open>CommitCascade\<close>, which takes back a list of blocks and commits a winner in one step.
  The store's mutex makes each of them atomic. The deep copies the accessors make are
  values here.
\<close>

section \<open>State\<close>

record mem_store =
  m_blocks :: "(string, block) gomap"
  m_chains :: "(string, account_chain) gomap"
  m_pending :: "(string, pending_send) gomap"
  m_pendingByDest :: "(string, (string, pending_send) gomap) gomap"
  m_frontiers :: "(string, string) gomap"
  m_conflicts :: "(string, conflict) gomap"
  m_staged :: "(string, block) gomap"
  m_votes :: "(string, vote) gomap"
  m_blockStatus :: "(string, block_status) gomap"
  m_finalHeight :: "(string, u64) gomap"
  m_finalVotes :: "(string, string) gomap"
  m_delegations :: "(string, string) gomap"
  m_leases :: "(string, lease) gomap"
  m_certificates :: "(string, bytes) gomap"
  m_reputation :: rep_map
  m_keysets :: "(string, keyset) gomap"
  m_accountKeys :: "(string, string) gomap"

definition NewMemStore :: mem_store where
  "NewMemStore =
     \<lparr>m_blocks = [], m_chains = [], m_pending = [], m_pendingByDest = [], m_frontiers = [],
      m_conflicts = [], m_staged = [], m_votes = [], m_blockStatus = [], m_finalHeight = [],
      m_finalVotes = [], m_delegations = [], m_leases = [], m_certificates = [],
      m_reputation = [], m_keysets = [], m_accountKeys = []\<rparr>"

section \<open>Reads\<close>

definition store_GetBlock :: "mem_store \<Rightarrow> string \<Rightarrow> block option" where
  "store_GetBlock m hash = mget (m_blocks m) hash"

definition store_GetAccountChain :: "mem_store \<Rightarrow> string \<Rightarrow> account_chain option" where
  "store_GetAccountChain m account = mget (m_chains m) account"

definition store_GetPendingSend :: "mem_store \<Rightarrow> string \<Rightarrow> pending_send option" where
  "store_GetPendingSend m sendHash = mget (m_pending m) sendHash"

definition store_GetPendingByDest :: "mem_store \<Rightarrow> string \<Rightarrow> pending_send list" where
  "store_GetPendingByDest m account = map snd (mdef [] (m_pendingByDest m) account)"

definition store_GetAllPending :: "mem_store \<Rightarrow> pending_send list" where
  "store_GetAllPending m = map snd (m_pending m)"

definition store_IsEmpty :: "mem_store \<Rightarrow> bool" where
  "store_IsEmpty m \<longleftrightarrow> m_blocks m = []"

definition store_GetLease :: "mem_store \<Rightarrow> string \<Rightarrow> lease option" where
  "store_GetLease m leaseHash = mget (m_leases m) leaseHash"

definition store_GetLeasesByState :: "mem_store \<Rightarrow> lease_state \<Rightarrow> lease list" where
  "store_GetLeasesByState m s = filter (\<lambda>l. ls_State l = s) (map snd (m_leases m))"

definition store_GetLeasesByProvider :: "mem_store \<Rightarrow> string \<Rightarrow> lease list" where
  "store_GetLeasesByProvider m p = filter (\<lambda>l. ls_Provider l = p) (map snd (m_leases m))"

definition store_GetFinalHeight :: "mem_store \<Rightarrow> string \<Rightarrow> u64" where
  "store_GetFinalHeight m account = mdef 0 (m_finalHeight m) account"

definition store_GetBlockStatus :: "mem_store \<Rightarrow> string \<Rightarrow> block_status" where
  "store_GetBlockStatus m hash = mdef StatusPending (m_blockStatus m) hash"

section \<open>The index of pending sends\<close>

definition put_pending :: "pending_send \<Rightarrow> mem_store \<Rightarrow> mem_store" where
  "put_pending ps m =
     m\<lparr>m_pending := mput (ps_SendHash ps) ps (m_pending m),
       m_pendingByDest :=
         mput (ps_Destination ps)
           (mput (ps_SendHash ps) ps (mdef [] (m_pendingByDest m) (ps_Destination ps)))
           (m_pendingByDest m)\<rparr>"

definition delete_pending :: "string \<Rightarrow> mem_store \<Rightarrow> mem_store" where
  "delete_pending sendHash m =
     (case mget (m_pending m) sendHash of
        None \<Rightarrow> m
      | Some ps \<Rightarrow>
          let dest = ps_Destination ps; m1 = m\<lparr>m_pending := mdel sendHash (m_pending m)\<rparr>
          in case mget (m_pendingByDest m) dest of
               None \<Rightarrow> m1
             | Some destMap \<Rightarrow>
                 let dm = mdel sendHash destMap
                 in if dm = [] then m1\<lparr>m_pendingByDest := mdel dest (m_pendingByDest m)\<rparr>
                    else m1\<lparr>m_pendingByDest := mput dest dm (m_pendingByDest m)\<rparr>)"

text \<open>A change of the amount of a pending send, in both maps.\<close>

definition shift_pending :: "string \<Rightarrow> (u64 \<Rightarrow> u64) \<Rightarrow> mem_store \<Rightarrow> mem_store" where
  "shift_pending sendHash f m =
     (case mget (m_pending m) sendHash of
        None \<Rightarrow> m
      | Some ps \<Rightarrow>
          let m1 = m\<lparr>m_pending := mput sendHash (ps\<lparr>ps_Amount := f (ps_Amount ps)\<rparr>) (m_pending m)\<rparr>
          in case mget (m_pendingByDest m) (ps_Destination ps) of
               None \<Rightarrow> m1
             | Some destMap \<Rightarrow>
                 (case mget destMap sendHash of
                    None \<Rightarrow> m1
                  | Some dps \<Rightarrow>
                      m1\<lparr>m_pendingByDest :=
                           mput (ps_Destination ps)
                             (mput sendHash (dps\<lparr>ps_Amount := f (ps_Amount dps)\<rparr>) destMap)
                             (m_pendingByDest m)\<rparr>))"

definition update_lease :: "string \<Rightarrow> (lease \<Rightarrow> lease) \<Rightarrow> mem_store \<Rightarrow> mem_store" where
  "update_lease h f m =
     (case mget (m_leases m) h of
        None \<Rightarrow> m
      | Some l \<Rightarrow> m\<lparr>m_leases := mput h (f l) (m_leases m)\<rparr>)"

section \<open>Committing a block\<close>

definition expect_lease :: "string \<Rightarrow> block_commit \<Rightarrow> lease option \<Rightarrow> unit result" where
  "expect_lease op c found =
     (if c_ExpectLeaseHash c = [] then Inr ()
      else case found of
        None \<Rightarrow> short12 (c_ExpectLeaseHash c) (Err (op @ '': lease state conflict: lease %s not found''))
      | Some l \<Rightarrow>
          if ls_State l \<noteq> c_ExpectLeaseState c
          then short12 (c_ExpectLeaseHash c) (Err (op @ '': lease state conflict: lease %s is %s, want %s''))
          else if c_ExpectLeaseEffectiveDurationSecs c \<noteq> 0 \<and>
                  EffectiveDurationSecs l \<noteq> c_ExpectLeaseEffectiveDurationSecs c
          then short12 (c_ExpectLeaseHash c) (Err (op @ '': lease state conflict: lease %s effective duration %d, want %d''))
          else Inr ())"

definition commit_chain :: "block_commit \<Rightarrow> mem_store \<Rightarrow> mem_store" where
  "commit_chain c m =
     m\<lparr>m_blocks := mput (blk_Hash (c_Block c)) (c_Block c) (m_blocks m),
       m_chains := mput (c_Account c) (c_Chain c) (m_chains m),
       m_frontiers := (if c_FrontierHash c \<noteq> [] then mput (c_Account c) (c_FrontierHash c) (m_frontiers m)
                       else m_frontiers m)\<rparr>"

definition commit_pending :: "block_commit \<Rightarrow> mem_store \<Rightarrow> mem_store" where
  "commit_pending c m =
     (let m1 = (case c_AddPending c of None \<Rightarrow> m | Some ps \<Rightarrow> put_pending ps m);
          m2 = (if c_DeletePendingID c \<noteq> [] then delete_pending (c_DeletePendingID c) m1 else m1)
      in if c_TopUpPendingID c \<noteq> []
         then shift_pending (c_TopUpPendingID c) (\<lambda>a. a + c_TopUpPendingAmount c) m2 else m2)"

definition commit_lease :: "block_commit \<Rightarrow> mem_store \<Rightarrow> mem_store" where
  "commit_lease c m =
     (let m1 = (case c_PutLease c of None \<Rightarrow> m
                | Some l \<Rightarrow> m\<lparr>m_leases := mput (ls_LeaseHash l) l (m_leases m)\<rparr>);
          m2 = (if c_SettleLeaseHash c \<noteq> []
                then update_lease (c_SettleLeaseHash c) (\<lambda>l. l\<lparr>ls_Settled := True, ls_State := LeaseSettled\<rparr>) m1
                else m1);
          m3 = (if c_CancelLeaseHash c \<noteq> []
                then update_lease (c_CancelLeaseHash c) (\<lambda>l. l\<lparr>ls_State := LeaseCancelled\<rparr>) m2 else m2)
      in if c_UnfulfillLeaseHash c \<noteq> []
         then update_lease (c_UnfulfillLeaseHash c) (\<lambda>l. l\<lparr>ls_Settled := True, ls_State := LeaseUnfulfilled\<rparr>) m3
         else m3)"

definition commit_account :: "block_commit \<Rightarrow> mem_store \<Rightarrow> mem_store" where
  "commit_account c m =
     m\<lparr>m_delegations :=
         (if c_DeleteDelegation c then mdel (c_Account c) (m_delegations m)
          else if c_DelegationRep c \<noteq> [] then mput (c_Account c) (c_DelegationRep c) (m_delegations m)
          else m_delegations m),
       m_keysets := (case c_PutKeyset c of None \<Rightarrow> m_keysets m | Some ks \<Rightarrow> mput (c_Account c) ks (m_keysets m)),
       m_accountKeys := (if c_PutAccountKey c \<noteq> [] then mput (c_Account c) (c_PutAccountKey c) (m_accountKeys m)
                         else m_accountKeys m)\<rparr>"

definition applyCommitLocked :: "block_commit \<Rightarrow> mem_store \<Rightarrow> mem_store result" where
  "applyCommitLocked c m =
     (case expect_lease ''CommitBlock'' c (mget (m_leases m) (c_ExpectLeaseHash c)) of
        Inl e \<Rightarrow> Inl e
      | Inr _ \<Rightarrow> Inr (commit_account c (commit_lease c (commit_pending c (commit_chain c m)))))"

section \<open>Undoing a block\<close>

definition undo_chain :: "block_undo \<Rightarrow> mem_store \<Rightarrow> mem_store" where
  "undo_chain u m =
     (if u_DeleteAccount u
      then m\<lparr>m_chains := mdel (u_Account u) (m_chains m), m_frontiers := mdel (u_Account u) (m_frontiers m)\<rparr>
      else m\<lparr>m_chains := mput (u_Account u) (u_Chain u) (m_chains m),
             m_frontiers := mput (u_Account u) (u_FrontierHash u) (m_frontiers m)\<rparr>)"

definition undo_pending :: "block_undo \<Rightarrow> mem_store \<Rightarrow> mem_store" where
  "undo_pending u m =
     (let m1 = (if u_ReducePendingID u \<noteq> []
                then shift_pending (u_ReducePendingID u) (\<lambda>a. a - u_ReducePendingAmount u) m else m);
          m2 = (if u_DeletePendingID u \<noteq> [] then delete_pending (u_DeletePendingID u) m1 else m1)
      in case u_AddPending u of None \<Rightarrow> m2 | Some ps \<Rightarrow> put_pending ps m2)"

definition undo_account :: "block_undo \<Rightarrow> mem_store \<Rightarrow> mem_store" where
  "undo_account u m =
     m\<lparr>m_blockStatus := (if u_RejectHash u \<noteq> [] then mput (u_RejectHash u) StatusRejected (m_blockStatus m)
                         else m_blockStatus m),
       m_delegations :=
         (if u_RestoreDelegation u
          then if u_PrevRep u = [] then mdel (u_Account u) (m_delegations m)
               else mput (u_Account u) (u_PrevRep u) (m_delegations m)
          else m_delegations m),
       m_leases :=
         (let ls = (case u_RestoreLease u of None \<Rightarrow> m_leases m | Some l \<Rightarrow> mput (ls_LeaseHash l) l (m_leases m))
          in if u_DeleteLeaseHash u \<noteq> [] then mdel (u_DeleteLeaseHash u) ls else ls),
       m_keysets := (if u_DeleteKeysetAccount u \<noteq> [] then mdel (u_DeleteKeysetAccount u) (m_keysets m)
                     else m_keysets m),
       m_accountKeys := (if u_DeleteAccountKeyAccount u \<noteq> []
                         then mdel (u_DeleteAccountKeyAccount u) (m_accountKeys m) else m_accountKeys m)\<rparr>"

definition applyUndoLocked :: "block_undo \<Rightarrow> mem_store \<Rightarrow> mem_store" where
  "applyUndoLocked u m = undo_account u (undo_pending u (undo_chain u m))"

section \<open>Replacing a block\<close>

text \<open>
  The lease the winner expects, as it will be after the undos: the last undo that restores
  or deletes it decides.
\<close>

definition lease_after_undos :: "string \<Rightarrow> block_undo list \<Rightarrow> lease option \<Rightarrow> lease option" where
  "lease_after_undos h undos found =
     fold (\<lambda>u acc.
         let acc1 = (case u_RestoreLease u of
                       None \<Rightarrow> acc
                     | Some l \<Rightarrow> if ls_LeaseHash l = h then Some l else acc)
         in if u_DeleteLeaseHash u = h then None else acc1) undos found"

definition CommitCascade :: "block_undo list \<Rightarrow> block_commit \<Rightarrow> mem_store \<Rightarrow> mem_store result" where
  "CommitCascade undos c m =
     (case expect_lease ''CommitCascade: %d undo(s) + winner'' c
             (lease_after_undos (c_ExpectLeaseHash c) undos (mget (m_leases m) (c_ExpectLeaseHash c))) of
        Inl e \<Rightarrow> Inl e
      | Inr _ \<Rightarrow>
          (case applyCommitLocked c (fold applyUndoLocked undos m) of
             Inl e \<Rightarrow> wrap ''CommitCascade: winner commit: '' e
           | Inr m' \<Rightarrow> Inr m'))"

section \<open>Conflicts, votes and finality\<close>

definition memConflictKey :: "string \<Rightarrow> string \<Rightarrow> string" where
  "memConflictKey account prev = account @ ''|'' @ prev"

definition store_SaveConflict :: "conflict \<Rightarrow> mem_store \<Rightarrow> mem_store" where
  "store_SaveConflict c m =
     m\<lparr>m_conflicts := mput (memConflictKey (cf_AccountAddress c) (cf_PreviousHash c)) c (m_conflicts m)\<rparr>"

definition store_GetConflict :: "mem_store \<Rightarrow> string \<Rightarrow> string \<Rightarrow> conflict option" where
  "store_GetConflict m account previousHash = mget (m_conflicts m) (memConflictKey account previousHash)"

definition store_DeleteConflict :: "string \<Rightarrow> string \<Rightarrow> mem_store \<Rightarrow> mem_store" where
  "store_DeleteConflict account previousHash m =
     m\<lparr>m_conflicts := mdel (memConflictKey account previousHash) (m_conflicts m)\<rparr>"

definition store_GetConflictsForAccount :: "mem_store \<Rightarrow> string \<Rightarrow> conflict list" where
  "store_GetConflictsForAccount m account =
     map snd (filter (\<lambda>(k, c). HasPrefix k (account @ ''|'')) (m_conflicts m))"

definition store_SaveStagedBlock :: "block \<Rightarrow> mem_store \<Rightarrow> mem_store" where
  "store_SaveStagedBlock b m = m\<lparr>m_staged := mput (blk_Hash b) b (m_staged m)\<rparr>"

definition store_GetStagedBlock :: "mem_store \<Rightarrow> string \<Rightarrow> block option" where
  "store_GetStagedBlock m hash = mget (m_staged m) hash"

definition store_DeleteStagedBlock :: "string \<Rightarrow> mem_store \<Rightarrow> mem_store" where
  "store_DeleteStagedBlock hash m = m\<lparr>m_staged := mdel hash (m_staged m)\<rparr>"

definition memVoteKey :: "string \<Rightarrow> string \<Rightarrow> string \<Rightarrow> string" where
  "memVoteKey account prev rep = account @ ''|'' @ prev @ ''|'' @ rep"

definition store_PutVote :: "vote \<Rightarrow> mem_store \<Rightarrow> mem_store" where
  "store_PutVote v m =
     m\<lparr>m_votes := mput (memVoteKey (vt_ConflictAccount v) (vt_ConflictPrev v) (vt_RepPubKey v)) v (m_votes m)\<rparr>"

definition store_GetVotesByConflict :: "mem_store \<Rightarrow> string \<Rightarrow> string \<Rightarrow> vote list" where
  "store_GetVotesByConflict m account previous =
     map snd (filter (\<lambda>(k, v). HasPrefix k (account @ ''|'' @ previous @ ''|'')) (m_votes m))"

definition store_GetVote :: "mem_store \<Rightarrow> string \<Rightarrow> string \<Rightarrow> string \<Rightarrow> vote option" where
  "store_GetVote m account previous rep = mget (m_votes m) (memVoteKey account previous rep)"

definition store_HasVoted :: "mem_store \<Rightarrow> string \<Rightarrow> string \<Rightarrow> string \<Rightarrow> bool" where
  "store_HasVoted m account previous rep = mhas (m_votes m) (memVoteKey account previous rep)"

definition store_DeleteVotesForConflict :: "string \<Rightarrow> string \<Rightarrow> mem_store \<Rightarrow> mem_store" where
  "store_DeleteVotesForConflict account previous m =
     m\<lparr>m_votes := filter (\<lambda>(k, v). \<not> HasPrefix k (account @ ''|'' @ previous @ ''|'')) (m_votes m)\<rparr>"

definition store_SetBlockStatus :: "string \<Rightarrow> block_status \<Rightarrow> mem_store \<Rightarrow> mem_store" where
  "store_SetBlockStatus hash s m = m\<lparr>m_blockStatus := mput hash s (m_blockStatus m)\<rparr>"

definition store_SetFinalHeight :: "string \<Rightarrow> u64 \<Rightarrow> mem_store \<Rightarrow> mem_store" where
  "store_SetFinalHeight account h m = m\<lparr>m_finalHeight := mput account h (m_finalHeight m)\<rparr>"

definition store_GetFinalVote :: "mem_store \<Rightarrow> string \<Rightarrow> string \<Rightarrow> string option" where
  "store_GetFinalVote m account previous = mget (m_finalVotes m) (account @ ''|'' @ previous)"

text \<open>The hash that is stored in the end, and whether this call wrote it.\<close>

definition store_PutFinalVoteIfAbsent :: "string \<Rightarrow> string \<Rightarrow> string \<Rightarrow> mem_store \<Rightarrow> (string \<times> bool) \<times> mem_store" where
  "store_PutFinalVoteIfAbsent account previous hash m =
     (let k = account @ ''|'' @ previous
      in case mget (m_finalVotes m) k of
           Some existing \<Rightarrow> ((existing, False), m)
         | None \<Rightarrow> ((hash, True), m\<lparr>m_finalVotes := mput k hash (m_finalVotes m)\<rparr>))"

section \<open>What the operations leave alone\<close>

named_theorems store_simps \<open>the maps of the store after each of its operations\<close>

lemma put_pending_simps [simp, store_simps]:
  "m_pending (put_pending ps m) = mput (ps_SendHash ps) ps (m_pending m)"
  "m_blocks (put_pending ps m) = m_blocks m" "m_chains (put_pending ps m) = m_chains m"
  "m_frontiers (put_pending ps m) = m_frontiers m" "m_leases (put_pending ps m) = m_leases m"
  "m_delegations (put_pending ps m) = m_delegations m" "m_keysets (put_pending ps m) = m_keysets m"
  "m_accountKeys (put_pending ps m) = m_accountKeys m" "m_finalHeight (put_pending ps m) = m_finalHeight m"
  "m_conflicts (put_pending ps m) = m_conflicts m" "m_staged (put_pending ps m) = m_staged m"
  "m_reputation (put_pending ps m) = m_reputation m" "m_blockStatus (put_pending ps m) = m_blockStatus m"
  "m_finalVotes (put_pending ps m) = m_finalVotes m" "m_votes (put_pending ps m) = m_votes m"
  by (simp_all add: put_pending_def)

lemma delete_absent: "mget m k = None \<Longrightarrow> mdel k m = m"
  by (induction m) (auto split: if_splits)

lemma delete_pending_simps [simp, store_simps]:
  "m_pending (delete_pending h m) = mdel h (m_pending m)"
  "m_blocks (delete_pending h m) = m_blocks m" "m_chains (delete_pending h m) = m_chains m"
  "m_frontiers (delete_pending h m) = m_frontiers m" "m_leases (delete_pending h m) = m_leases m"
  "m_delegations (delete_pending h m) = m_delegations m" "m_keysets (delete_pending h m) = m_keysets m"
  "m_accountKeys (delete_pending h m) = m_accountKeys m" "m_finalHeight (delete_pending h m) = m_finalHeight m"
  "m_conflicts (delete_pending h m) = m_conflicts m" "m_staged (delete_pending h m) = m_staged m"
  "m_reputation (delete_pending h m) = m_reputation m" "m_blockStatus (delete_pending h m) = m_blockStatus m"
  "m_finalVotes (delete_pending h m) = m_finalVotes m" "m_votes (delete_pending h m) = m_votes m"
  by (auto simp: delete_pending_def Let_def delete_absent split: option.splits)

text \<open>The amount of one entry changed, nothing else.\<close>

definition shift_entry :: "string \<Rightarrow> (u64 \<Rightarrow> u64) \<Rightarrow> (string, pending_send) gomap \<Rightarrow> (string, pending_send) gomap" where
  "shift_entry h f p = (case mget p h of None \<Rightarrow> p | Some ps \<Rightarrow> mput h (ps\<lparr>ps_Amount := f (ps_Amount ps)\<rparr>) p)"

lemma shift_pending_simps [simp, store_simps]:
  "m_pending (shift_pending h f m) = shift_entry h f (m_pending m)"
  "m_blocks (shift_pending h f m) = m_blocks m" "m_chains (shift_pending h f m) = m_chains m"
  "m_frontiers (shift_pending h f m) = m_frontiers m" "m_leases (shift_pending h f m) = m_leases m"
  "m_delegations (shift_pending h f m) = m_delegations m" "m_keysets (shift_pending h f m) = m_keysets m"
  "m_accountKeys (shift_pending h f m) = m_accountKeys m" "m_finalHeight (shift_pending h f m) = m_finalHeight m"
  "m_conflicts (shift_pending h f m) = m_conflicts m" "m_staged (shift_pending h f m) = m_staged m"
  "m_reputation (shift_pending h f m) = m_reputation m" "m_blockStatus (shift_pending h f m) = m_blockStatus m"
  "m_finalVotes (shift_pending h f m) = m_finalVotes m" "m_votes (shift_pending h f m) = m_votes m"
  by (auto simp: shift_pending_def shift_entry_def Let_def split: option.splits)

lemma mget_shift_entry:
  "mget (shift_entry h f p) k =
     (if k = h then map_option (\<lambda>ps. ps\<lparr>ps_Amount := f (ps_Amount ps)\<rparr>) (mget p h) else mget p k)"
  by (auto simp: shift_entry_def split: option.splits)

lemma update_lease_simps [simp, store_simps]:
  "m_pending (update_lease h f m) = m_pending m" "m_pendingByDest (update_lease h f m) = m_pendingByDest m"
  "m_blocks (update_lease h f m) = m_blocks m" "m_chains (update_lease h f m) = m_chains m"
  "m_frontiers (update_lease h f m) = m_frontiers m" "m_finalHeight (update_lease h f m) = m_finalHeight m"
  "m_delegations (update_lease h f m) = m_delegations m" "m_keysets (update_lease h f m) = m_keysets m"
  "m_accountKeys (update_lease h f m) = m_accountKeys m" "m_conflicts (update_lease h f m) = m_conflicts m"
  "m_staged (update_lease h f m) = m_staged m" "m_reputation (update_lease h f m) = m_reputation m"
  "m_blockStatus (update_lease h f m) = m_blockStatus m" "m_finalVotes (update_lease h f m) = m_finalVotes m"
  "m_votes (update_lease h f m) = m_votes m"
  by (auto simp: update_lease_def split: option.splits)

lemma mget_update_lease [simp]:
  "mget (m_leases (update_lease h f m)) k = (if k = h then map_option f (mget (m_leases m) h) else mget (m_leases m) k)"
  by (auto simp: update_lease_def split: option.splits)

lemma mwf_update_lease [simp]: "mwf (m_leases m) \<Longrightarrow> mwf (m_leases (update_lease h f m))"
  by (auto simp: update_lease_def split: option.splits)

section \<open>The maps after a commit\<close>

definition pending_after :: "block_commit \<Rightarrow> (string, pending_send) gomap \<Rightarrow> (string, pending_send) gomap" where
  "pending_after c p =
     (let p1 = (case c_AddPending c of None \<Rightarrow> p | Some ps \<Rightarrow> mput (ps_SendHash ps) ps p);
          p2 = (if c_DeletePendingID c \<noteq> [] then mdel (c_DeletePendingID c) p1 else p1)
      in if c_TopUpPendingID c \<noteq> [] then shift_entry (c_TopUpPendingID c) (\<lambda>a. a + c_TopUpPendingAmount c) p2 else p2)"

lemma commit_pending_simps [simp, store_simps]:
  "m_pending (commit_pending c m) = pending_after c (m_pending m)"
  "m_blocks (commit_pending c m) = m_blocks m" "m_chains (commit_pending c m) = m_chains m"
  "m_frontiers (commit_pending c m) = m_frontiers m" "m_leases (commit_pending c m) = m_leases m"
  "m_delegations (commit_pending c m) = m_delegations m" "m_keysets (commit_pending c m) = m_keysets m"
  "m_accountKeys (commit_pending c m) = m_accountKeys m" "m_finalHeight (commit_pending c m) = m_finalHeight m"
  "m_conflicts (commit_pending c m) = m_conflicts m" "m_staged (commit_pending c m) = m_staged m"
  "m_reputation (commit_pending c m) = m_reputation m" "m_blockStatus (commit_pending c m) = m_blockStatus m"
  "m_finalVotes (commit_pending c m) = m_finalVotes m" "m_votes (commit_pending c m) = m_votes m"
  by (auto simp: commit_pending_def pending_after_def Let_def split: option.splits)

lemma commit_chain_simps [simp, store_simps]:
  "m_blocks (commit_chain c m) = mput (blk_Hash (c_Block c)) (c_Block c) (m_blocks m)"
  "m_chains (commit_chain c m) = mput (c_Account c) (c_Chain c) (m_chains m)"
  "m_frontiers (commit_chain c m) =
     (if c_FrontierHash c \<noteq> [] then mput (c_Account c) (c_FrontierHash c) (m_frontiers m) else m_frontiers m)"
  "m_pending (commit_chain c m) = m_pending m" "m_pendingByDest (commit_chain c m) = m_pendingByDest m"
  "m_leases (commit_chain c m) = m_leases m"
  "m_delegations (commit_chain c m) = m_delegations m" "m_keysets (commit_chain c m) = m_keysets m"
  "m_accountKeys (commit_chain c m) = m_accountKeys m" "m_finalHeight (commit_chain c m) = m_finalHeight m"
  "m_conflicts (commit_chain c m) = m_conflicts m" "m_staged (commit_chain c m) = m_staged m"
  "m_reputation (commit_chain c m) = m_reputation m" "m_blockStatus (commit_chain c m) = m_blockStatus m"
  "m_finalVotes (commit_chain c m) = m_finalVotes m" "m_votes (commit_chain c m) = m_votes m"
  by (simp_all add: commit_chain_def)

lemma commit_lease_simps [simp, store_simps]:
  "m_pending (commit_lease c m) = m_pending m" "m_pendingByDest (commit_lease c m) = m_pendingByDest m"
  "m_blocks (commit_lease c m) = m_blocks m" "m_chains (commit_lease c m) = m_chains m"
  "m_frontiers (commit_lease c m) = m_frontiers m" "m_finalHeight (commit_lease c m) = m_finalHeight m"
  "m_delegations (commit_lease c m) = m_delegations m" "m_keysets (commit_lease c m) = m_keysets m"
  "m_accountKeys (commit_lease c m) = m_accountKeys m" "m_conflicts (commit_lease c m) = m_conflicts m"
  "m_staged (commit_lease c m) = m_staged m" "m_reputation (commit_lease c m) = m_reputation m"
  "m_blockStatus (commit_lease c m) = m_blockStatus m" "m_finalVotes (commit_lease c m) = m_finalVotes m"
  "m_votes (commit_lease c m) = m_votes m"
  by (auto simp: commit_lease_def Let_def split: option.splits)

lemma commit_account_simps [simp, store_simps]:
  "m_pending (commit_account c m) = m_pending m" "m_pendingByDest (commit_account c m) = m_pendingByDest m"
  "m_blocks (commit_account c m) = m_blocks m" "m_chains (commit_account c m) = m_chains m"
  "m_frontiers (commit_account c m) = m_frontiers m" "m_leases (commit_account c m) = m_leases m"
  "m_finalHeight (commit_account c m) = m_finalHeight m" "m_conflicts (commit_account c m) = m_conflicts m"
  "m_staged (commit_account c m) = m_staged m" "m_reputation (commit_account c m) = m_reputation m"
  "m_blockStatus (commit_account c m) = m_blockStatus m" "m_finalVotes (commit_account c m) = m_finalVotes m"
  "m_votes (commit_account c m) = m_votes m"
  "m_delegations (commit_account c m) =
     (if c_DeleteDelegation c then mdel (c_Account c) (m_delegations m)
      else if c_DelegationRep c \<noteq> [] then mput (c_Account c) (c_DelegationRep c) (m_delegations m)
      else m_delegations m)"
  by (simp_all add: commit_account_def)

section \<open>The index by destination\<close>

text \<open>
  The second map lists the pending sends by destination: looking a hash up under a
  destination gives the pending send with that hash, when it goes there.
\<close>

definition pending_index_ok :: "mem_store \<Rightarrow> bool" where
  "pending_index_ok m \<longleftrightarrow>
     (\<forall>d h. mget (mdef [] (m_pendingByDest m) d) h =
        (case mget (m_pending m) h of
           None \<Rightarrow> None | Some ps \<Rightarrow> if ps_Destination ps = d then Some ps else None))"

lemma pending_index_cong:
  "m_pending m' = m_pending m \<Longrightarrow> m_pendingByDest m' = m_pendingByDest m \<Longrightarrow>
   pending_index_ok m' = pending_index_ok m"
  by (simp add: pending_index_ok_def)

lemma index_put_pending:
  assumes "pending_index_ok m"
    and "\<And>ps'. mget (m_pending m) (ps_SendHash ps) = Some ps' \<Longrightarrow> ps_Destination ps' = ps_Destination ps"
  shows "pending_index_ok (put_pending ps m)"
  using assms by (auto simp: pending_index_ok_def put_pending_def split: option.splits)

lemma index_delete_pending:
  assumes "pending_index_ok m"
  shows "pending_index_ok (delete_pending h m)"
proof (cases "mget (m_pending m) h")
  case None
  then show ?thesis using assms by (simp add: delete_pending_def)
next
  case (Some ps)
  note look = assms [unfolded pending_index_ok_def, rule_format]
  obtain dm where dm: "mget (m_pendingByDest m) (ps_Destination ps) = Some dm"
    using look [of "ps_Destination ps" h] Some by (auto simp: mdef_def split: option.splits)
  have "mget (mdef [] (m_pendingByDest (delete_pending h m)) d) k =
      (if k = h then None else mget (mdef [] (m_pendingByDest m) d) k)" for d k
  proof (cases "d = ps_Destination ps")
    case True
    then show ?thesis
      using Some dm by (cases "mdel h dm = []")
        (auto simp: delete_pending_def mdef_def Let_def dest: map_of_eq_empty_iff [THEN iffD2]
          arg_cong [where f = "\<lambda>x. map_of x k"])
  next
    case False
    then show ?thesis
      using Some dm look [of d h] by (auto simp: delete_pending_def mdef_def Let_def)
  qed
  then show ?thesis using assms by (simp add: pending_index_ok_def)
qed

lemma index_shift_pending:
  assumes "pending_index_ok m"
  shows "pending_index_ok (shift_pending h f m)"
proof (cases "mget (m_pending m) h")
  case None
  then show ?thesis using assms by (simp add: shift_pending_def)
next
  case (Some ps)
  note look = assms [unfolded pending_index_ok_def, rule_format]
  obtain dm where dm: "mget (m_pendingByDest m) (ps_Destination ps) = Some dm" "mget dm h = Some ps"
    using look [of "ps_Destination ps" h] Some by (auto simp: mdef_def split: option.splits)
  have "mget (mdef [] (m_pendingByDest (shift_pending h f m)) d) k =
      (if k = h \<and> d = ps_Destination ps then Some (ps\<lparr>ps_Amount := f (ps_Amount ps)\<rparr>)
       else mget (mdef [] (m_pendingByDest m) d) k)" for d k
    using Some dm by (simp add: shift_pending_def mdef_def)
  then show ?thesis
    using Some by (auto simp: pending_index_ok_def mget_shift_entry look split: option.splits)
qed

lemma index_commit_pending:
  assumes "pending_index_ok m"
    and "\<And>ps ps'. c_AddPending c = Some ps \<Longrightarrow> mget (m_pending m) (ps_SendHash ps) = Some ps' \<Longrightarrow>
           ps_Destination ps' = ps_Destination ps"
  shows "pending_index_ok (commit_pending c m)"
  using assms unfolding commit_pending_def Let_def
  by (auto intro!: index_put_pending index_delete_pending index_shift_pending split: option.splits)

lemma index_commit:
  assumes "pending_index_ok m" "applyCommitLocked c m = Inr m'"
    and "\<And>ps. c_AddPending c = Some ps \<Longrightarrow> mget (m_pending m) (ps_SendHash ps) = None"
  shows "pending_index_ok m'"
proof -
  have m': "m' = commit_account c (commit_lease c (commit_pending c (commit_chain c m)))"
    using assms(2) by (auto simp: applyCommitLocked_def split: sum.splits)
  have "pending_index_ok (commit_pending c (commit_chain c m))"
    by (rule index_commit_pending)
      (use assms(1,3) pending_index_cong [of "commit_chain c m" m] in auto)
  then show ?thesis
    unfolding m' by (simp add: pending_index_ok_def)
qed

lemma index_undo:
  assumes "pending_index_ok m"
    and "\<And>ps ps'. u_AddPending u = Some ps \<Longrightarrow> mget (m_pending m) (ps_SendHash ps) = Some ps' \<Longrightarrow>
           ps_Destination ps' = ps_Destination ps"
  shows "pending_index_ok (applyUndoLocked u m)"
proof -
  define m0 where "m0 = undo_chain u m"
  define m1 where "m1 = (if u_ReducePendingID u \<noteq> []
    then shift_pending (u_ReducePendingID u) (\<lambda>a. a - u_ReducePendingAmount u) m0 else m0)"
  define m2 where "m2 = (if u_DeletePendingID u \<noteq> [] then delete_pending (u_DeletePendingID u) m1 else m1)"
  have p0: "m_pending m0 = m_pending m" and "pending_index_ok m0"
    using assms(1) by (simp_all add: m0_def undo_chain_def pending_index_ok_def)
  then have "pending_index_ok m1" by (simp add: m1_def index_shift_pending)
  then have i2: "pending_index_ok m2" by (simp add: m2_def index_delete_pending)
  have d1: "map_option ps_Destination (mget (m_pending m1) k) = map_option ps_Destination (mget (m_pending m) k)" for k
    by (simp add: m1_def p0 mget_shift_entry option.map_comp comp_def)
  have d2: "ps_Destination ps' = ps_Destination ps"
    if "u_AddPending u = Some ps" "mget (m_pending m2) (ps_SendHash ps) = Some ps'" for ps ps'
  proof -
    have "mget (m_pending m1) (ps_SendHash ps) = Some ps'"
      using that(2) by (simp add: m2_def split: if_splits)
    with d1 [of "ps_SendHash ps"] obtain ps'' where
      "mget (m_pending m) (ps_SendHash ps) = Some ps''" "ps_Destination ps'' = ps_Destination ps'"
      by (cases "mget (m_pending m) (ps_SendHash ps)") auto
    with assms(2) [OF that(1)] show ?thesis by simp
  qed
  have "undo_pending u m0 = (case u_AddPending u of None \<Rightarrow> m2 | Some ps \<Rightarrow> put_pending ps m2)"
    unfolding undo_pending_def Let_def m1_def [symmetric] m2_def [symmetric] ..
  moreover have "pending_index_ok (put_pending ps m2)" if "u_AddPending u = Some ps" for ps
    by (rule index_put_pending [OF i2 d2 [OF that]])
  ultimately have "pending_index_ok (undo_pending u m0)"
    using i2 by (cases "u_AddPending u") simp_all
  then show ?thesis by (simp add: applyUndoLocked_def undo_account_def pending_index_ok_def m0_def)
qed

end
