(* ===== verification/XE_Encoding.thy ===== *)
theory XE_Encoding
  imports XE_Types
begin

text \<open>
  The byte formats of \<open>core/encoding.go\<close> and the memo check of \<open>core/memo.go\<close>: the
  canonical block encoding that is hashed and signed, its decoder, the auxiliary hash
  input, and the vote encoding. The parts of the Go library they use are modelled first:
  \<open>encoding/hex\<close>, \<open>encoding/binary\<close> and \<open>unicode/utf8\<close>.

  \<open>sort.Slice\<close> leaves the order of equal elements open; the stable order is chosen here.
\<close>

section \<open>Library: bytes, hexadecimal, big-endian integers, UTF-8\<close>

definition string_bytes :: "string \<Rightarrow> bytes" where
  "string_bytes s = map (\<lambda>c. of_nat (of_char c)) s"

definition bytes_string :: "bytes \<Rightarrow> string" where
  "bytes_string bs = map (\<lambda>b. char_of (unat b)) bs"

definition slice :: "nat \<Rightarrow> nat \<Rightarrow> 'a list \<Rightarrow> 'a list" where
  "slice i j xs = take (j - i) (drop i xs)"

text \<open>\<open>reverseHexTable\<close>: the value of a digit, or \<open>None\<close>.\<close>

definition hex_val :: "char \<Rightarrow> nat option" where
  "hex_val c =
     (let n = of_char c :: nat
      in if 48 \<le> n \<and> n \<le> 57 then Some (n - 48)
         else if 97 \<le> n \<and> n \<le> 102 then Some (n - 87)
         else if 65 \<le> n \<and> n \<le> 70 then Some (n - 55)
         else None)"

definition hex_digit :: "nat \<Rightarrow> char" where
  "hex_digit n = (if n < 10 then char_of (48 + n) else char_of (87 + n))"

fun hex_DecodeString :: "string \<Rightarrow> bytes result" where
  "hex_DecodeString [] = Inr []"
| "hex_DecodeString [p] =
     (case hex_val p of
        None \<Rightarrow> Err ''encoding/hex: invalid byte: %#U''
      | Some _ \<Rightarrow> Err ''encoding/hex: odd length hex string'')"
| "hex_DecodeString (p # q # s) =
     (case hex_val p of
        None \<Rightarrow> Err ''encoding/hex: invalid byte: %#U''
      | Some a \<Rightarrow>
          (case hex_val q of
             None \<Rightarrow> Err ''encoding/hex: invalid byte: %#U''
           | Some b \<Rightarrow>
               (case hex_DecodeString s of
                  Inl e \<Rightarrow> Inl e
                | Inr bs \<Rightarrow> Inr (of_nat (a * 16 + b) # bs))))"

definition hex_byte :: "8 word \<Rightarrow> string" where
  "hex_byte b = [hex_digit (unat b div 16), hex_digit (unat b mod 16)]"

definition hex_EncodeToString :: "bytes \<Rightarrow> string" where
  "hex_EncodeToString bs = concat (map hex_byte bs)"

text \<open>\<open>binary.BigEndian\<close> on \<open>n\<close> bytes, and its inverse.\<close>

fun be_put :: "nat \<Rightarrow> nat \<Rightarrow> bytes" where
  "be_put 0 x = []"
| "be_put (Suc n) x = be_put n (x div 256) @ [of_nat (x mod 256)]"

definition be_get :: "bytes \<Rightarrow> nat" where
  "be_get bs = foldl (\<lambda>a b. a * 256 + unat b) 0 bs"

definition PutUint64 :: "u64 \<Rightarrow> bytes" where "PutUint64 w = be_put 8 (unat w)"
definition PutUint32 :: "int \<Rightarrow> bytes" where "PutUint32 x = be_put 4 (nat (x mod 2 ^ 32))"
definition PutUint16 :: "nat \<Rightarrow> bytes" where "PutUint16 x = be_put 2 (x mod 2 ^ 16)"
definition PutInt64 :: "int \<Rightarrow> bytes" where "PutInt64 x = PutUint64 (word_of_int x)"
definition Uint64 :: "bytes \<Rightarrow> u64" where "Uint64 bs = of_nat (be_get bs)"
definition Int64 :: "bytes \<Rightarrow> int" where "Int64 bs = sint (Uint64 bs)"

definition allZero :: "bytes \<Rightarrow> bool" where
  "allZero bs = list_all (\<lambda>b. b = 0) bs"

definition cont :: "nat \<Rightarrow> bool" where "cont b \<longleftrightarrow> 128 \<le> b \<and> b \<le> 191"

text \<open>\<open>utf8.ValidString\<close>, on the byte values of the string.\<close>

fun valid_utf8 :: "nat list \<Rightarrow> bool" where
  "valid_utf8 [] = True"
| "valid_utf8 (a # r) =
     (if a < 128 then valid_utf8 r
      else case r of
        [] \<Rightarrow> False
      | b # r1 \<Rightarrow>
          if 194 \<le> a \<and> a \<le> 223 then cont b \<and> valid_utf8 r1
          else case r1 of
            [] \<Rightarrow> False
          | c # r2 \<Rightarrow>
              if a = 224 then 160 \<le> b \<and> b \<le> 191 \<and> cont c \<and> valid_utf8 r2
              else if a = 237 then 128 \<le> b \<and> b \<le> 159 \<and> cont c \<and> valid_utf8 r2
              else if 225 \<le> a \<and> a \<le> 239 then cont b \<and> cont c \<and> valid_utf8 r2
              else case r2 of
                [] \<Rightarrow> False
              | d # r3 \<Rightarrow>
                  if a = 240 then 144 \<le> b \<and> b \<le> 191 \<and> cont c \<and> cont d \<and> valid_utf8 r3
                  else if 241 \<le> a \<and> a \<le> 243 then cont b \<and> cont c \<and> cont d \<and> valid_utf8 r3
                  else if a = 244 then 128 \<le> b \<and> b \<le> 143 \<and> cont c \<and> cont d \<and> valid_utf8 r3
                  else False)"

section \<open>Memos\<close>

definition MaxMemoBytes :: nat where "MaxMemoBytes = 64"

definition ValidateMemo :: "string \<Rightarrow> unit result" where
  "ValidateMemo memo =
     (if memo = [] then Inr ()
      else if length memo > MaxMemoBytes then Err ''memo too long: %d bytes (max %d)''
      else if \<not> valid_utf8 (map of_char memo) then Err ''memo is not valid UTF-8''
      else if list_ex (\<lambda>c. c \<noteq> 9 \<and> c \<noteq> 10 \<and> (c < 32 \<or> c = 127)) (map of_char memo :: nat list)
      then Err ''memo contains disallowed control byte 0x%02x at offset %d''
      else Inr ())"

section \<open>Keysets\<close>

fun decode_keys :: "string list \<Rightarrow> bytes result" where
  "decode_keys [] = Inr []"
| "decode_keys (k # ks) =
     (case hex_DecodeString k of
        Inl e \<Rightarrow> wrap ''invalid key hex: '' e
      | Inr kb \<Rightarrow>
          if length kb \<noteq> 32 then Err ''key must be 32 bytes, got %d''
          else case decode_keys ks of Inl e \<Rightarrow> Inl e | Inr r \<Rightarrow> Inr (kb @ r))"

definition marshalKeysetCanonical :: "keyset option \<Rightarrow> bytes result" where
  "marshalKeysetCanonical ko =
     (case ko of
        None \<Rightarrow> Err ''keyset is nil''
      | Some ks \<Rightarrow>
          (let sorted = sort (ks_Keys ks)
           in case decode_keys sorted of
                Inl e \<Rightarrow> Inl e
              | Inr body \<Rightarrow>
                  Inr (PutUint32 (ks_Threshold ks) @ PutUint32 (int (length sorted)) @ body)))"

definition unmarshalKeysetCanonical :: "bytes \<Rightarrow> (keyset \<times> nat) result" where
  "unmarshalKeysetCanonical data =
     (if length data < 8 then Err ''keyset data too short''
      else
        let threshold = int (be_get (slice 0 4 data));
            numKeys = be_get (slice 4 8 data)
        in if numKeys < 1 \<or> numKeys > 256 then Err ''invalid key count: %d''
           else let totalLen = 8 + 32 * numKeys
           in if length data < totalLen then Err ''keyset data too short for %d keys''
              else Inr (\<lparr>ks_Keys = map (\<lambda>i. hex_EncodeToString (slice (8 + i * 32) (8 + (i + 1) * 32) data)) [0..<numKeys],
                         ks_Threshold = threshold\<rparr>, totalLen))"

section \<open>The canonical block encoding\<close>

definition versionByte :: "8 word" where "versionByte = 2"

fun typeByte :: "block_type \<Rightarrow> 8 word option" where
  "typeByte BlockSend = Some 1"
| "typeByte BlockReceive = Some 2"
| "typeByte BlockLease = Some 4"
| "typeByte BlockLeaseAccept = Some 5"
| "typeByte BlockLeaseSettle = Some 6"
| "typeByte BlockGenesis = Some 7"
| "typeByte BlockMultisigOpen = Some 8"
| "typeByte BlockMultisigUpdate = Some 9"
| "typeByte BlockLeaseCancel = Some 10"
| "typeByte BlockBurn = Some 11"
| "typeByte BlockLeaseForceSettle = Some 12"
| "typeByte BlockMint = Some 13"
| "typeByte BlockLeaseRenew = Some 14"
| "typeByte (BlockOther _) = None"

text \<open>A hexadecimal field of 32 bytes, with the two errors the encoder reports for it.\<close>

definition hex32 :: "string \<Rightarrow> string \<Rightarrow> string \<Rightarrow> bytes result" where
  "hex32 op field s =
     (case hex_DecodeString s of
        Inl e \<Rightarrow> wrap (op @ '': invalid '' @ field @ '' hex: '') e
      | Inr bs \<Rightarrow>
          if length bs \<noteq> 32 then Err (op @ '': '' @ field @ '' must be 32 bytes, got %d'') else Inr bs)"

definition hex32_or_zero :: "bool \<Rightarrow> string \<Rightarrow> string \<Rightarrow> string \<Rightarrow> bytes result" where
  "hex32_or_zero absent op field s = (if absent then Inr (replicate 32 0) else hex32 op field s)"

definition hasGenesisLeaseTiming :: "block \<Rightarrow> bool" where
  "hasGenesisLeaseTiming b \<longleftrightarrow>
     blk_LeaseMinDurationSecs b \<noteq> 0 \<or> blk_LeaseSettleGraceNs b \<noteq> 0 \<or>
     blk_LeaseForceSettleGapNs b \<noteq> 0 \<or> blk_LeaseEscrowExpiryNs b \<noteq> 0 \<or>
     blk_LeaseArchiveGapNs b \<noteq> 0 \<or> blk_MaxAttestationSkewNs b \<noteq> 0"

text \<open>The part of the encoding that depends on the block type.\<close>

definition marshal_tail :: "block \<Rightarrow> bytes result" where
  "marshal_tail b =
     (case blk_Type b of
        BlockSend \<Rightarrow>
          (case hex32 ''MarshalBlock'' ''destination'' (blk_Destination b) of Inl e \<Rightarrow> Inl e
           | Inr dest \<Rightarrow> Inr (dest @ PutUint64 (blk_Amount b)))
      | BlockReceive \<Rightarrow> hex32 ''MarshalBlock'' ''source'' (blk_Source b)
      | BlockLease \<Rightarrow>
          (case hex32 ''MarshalBlock'' ''destination'' (blk_Destination b) of Inl e \<Rightarrow> Inl e
           | Inr dest \<Rightarrow>
               (case hex32_or_zero (blk_AccessPubKey b = []) ''MarshalBlock'' ''access_pub_key'' (blk_AccessPubKey b) of
                  Inl e \<Rightarrow> Inl e
                | Inr sshKey \<Rightarrow>
                    Inr (dest @ PutUint64 (blk_Amount b) @ PutUint64 (blk_VCPUs b) @
                         PutUint64 (blk_MemoryMB b) @ PutUint64 (blk_DiskGB b) @
                         PutUint64 (blk_Duration b) @ sshKey)))
      | BlockGenesis \<Rightarrow> Inr []
      | BlockMultisigOpen \<Rightarrow>
          (case marshalKeysetCanonical (blk_MSKeyset b) of Inl e \<Rightarrow> wrap ''MarshalBlock: '' e | Inr k \<Rightarrow> Inr k)
      | BlockMultisigUpdate \<Rightarrow>
          (case marshalKeysetCanonical (blk_MSKeyset b) of Inl e \<Rightarrow> wrap ''MarshalBlock: '' e | Inr k \<Rightarrow> Inr k)
      | BlockLeaseCancel \<Rightarrow> hex32 ''MarshalBlock'' ''source'' (blk_Source b)
      | BlockLeaseForceSettle \<Rightarrow> hex32 ''MarshalBlock'' ''source'' (blk_Source b)
      | BlockLeaseAccept \<Rightarrow>
          (case hex32 ''MarshalBlock'' ''source'' (blk_Source b) of Inl e \<Rightarrow> Inl e
           | Inr source \<Rightarrow>
               Inr (source @ PutUint64 (blk_Amount b) @ PutUint64 (blk_LockedR b) @
                    PutUint64 (blk_LockedPayoutCap b) @ PutUint64 (blk_LockedTWAP b)))
      | BlockLeaseSettle \<Rightarrow>
          (case hex32 ''MarshalBlock'' ''source'' (blk_Source b) of Inl e \<Rightarrow> Inl e
           | Inr source \<Rightarrow> Inr (source @ PutUint64 (blk_Amount b)))
      | BlockLeaseRenew \<Rightarrow>
          (case hex32 ''MarshalBlock'' ''source'' (blk_Source b) of Inl e \<Rightarrow> Inl e
           | Inr source \<Rightarrow>
               Inr (source @ PutUint64 (blk_Amount b) @ PutUint64 (blk_Duration b) @
                    PutUint64 (blk_LockedR b) @ PutUint64 (blk_LockedPayoutCap b) @
                    PutUint64 (blk_LockedTWAP b)))
      | BlockBurn \<Rightarrow> Inr (PutUint64 (blk_Amount b))
      | BlockMint \<Rightarrow> Inr (PutUint64 (blk_Amount b))
      | BlockOther _ \<Rightarrow> Inr [])"

definition marshal_timing :: "block \<Rightarrow> bytes" where
  "marshal_timing b =
     (if hasGenesisLeaseTiming b
      then PutUint64 (blk_LeaseMinDurationSecs b) @ PutInt64 (blk_LeaseSettleGraceNs b) @
           PutInt64 (blk_LeaseForceSettleGapNs b) @ PutInt64 (blk_LeaseEscrowExpiryNs b) @
           PutInt64 (blk_LeaseArchiveGapNs b) @ PutInt64 (blk_MaxAttestationSkewNs b)
      else [])"

definition marshal_memo :: "block \<Rightarrow> bytes" where
  "marshal_memo b =
     (if blk_Type b = BlockSend \<or> blk_Type b = BlockBurn
      then of_nat (length (blk_Memo b)) # string_bytes (blk_Memo b) else [])"

definition MarshalBlockCanonical :: "block \<Rightarrow> bytes result" where
  "MarshalBlockCanonical b =
     (case typeByte (blk_Type b) of
        None \<Rightarrow> Err ''MarshalBlock: unknown block type %q''
      | Some tb \<Rightarrow>
      if blk_Memo b \<noteq> [] \<and> blk_Type b \<noteq> BlockSend \<and> blk_Type b \<noteq> BlockBurn
      then Err ''MarshalBlock: memo not allowed on %s blocks''
      else case ValidateMemo (blk_Memo b) of Inl e \<Rightarrow> wrap ''MarshalBlock: '' e | Inr _ \<Rightarrow>
      if length (blk_Asset b) > 8 then Err ''MarshalBlock: asset too long: %d bytes (max %d)''
      else case hex32 ''MarshalBlock'' ''account'' (blk_Account b) of Inl e \<Rightarrow> Inl e | Inr account \<Rightarrow>
      case hex32_or_zero (blk_Previous b = ''0'') ''MarshalBlock'' ''previous'' (blk_Previous b) of
        Inl e \<Rightarrow> Inl e | Inr previous \<Rightarrow>
      case marshal_tail b of Inl e \<Rightarrow> Inl e | Inr tail \<Rightarrow>
      case hex32_or_zero (blk_Representative b = []) ''MarshalBlock'' ''representative'' (blk_Representative b) of
        Inl e \<Rightarrow> Inl e | Inr rep \<Rightarrow>
      if hasGenesisLeaseTiming b \<and> blk_Type b \<noteq> BlockGenesis
      then Err ''MarshalBlock: lease-timing fields not allowed on %s blocks''
      else Inr (versionByte # tb # string_bytes (blk_Asset b) @ replicate (8 - length (blk_Asset b)) 0 @
                account @ previous @ PutUint64 (blk_Balance b) @ PutInt64 (blk_Timestamp b) @
                tail @ rep @ marshal_timing b @ marshal_memo b))"

section \<open>The auxiliary hash input\<close>

definition writeLenPrefixedBytes :: "bytes \<Rightarrow> bytes" where
  "writeLenPrefixedBytes b = PutUint64 (of_nat (length b)) @ b"

definition marshal_attestation :: "timekeeper_attestation \<Rightarrow> bytes" where
  "marshal_attestation a =
     writeLenPrefixedBytes (string_bytes (att_PublicKey a)) @ PutInt64 (att_Timestamp a) @
     writeLenPrefixedBytes (string_bytes (att_Signature a))"

definition aux_carries_lease :: "block_type \<Rightarrow> bool" where
  "aux_carries_lease t \<longleftrightarrow>
     t \<in> {BlockLease, BlockLeaseAccept, BlockLeaseSettle, BlockLeaseForceSettle, BlockLeaseRenew}"

definition MarshalBlockAux :: "block \<Rightarrow> bytes" where
  "MarshalBlockAux b =
     (if blk_PubKey b \<noteq> []
      then writeLenPrefixedBytes (string_bytes ''xe/block/pubkey/v1'') @
           writeLenPrefixedBytes (string_bytes (blk_PubKey b))
      else []) @
     (if aux_carries_lease (blk_Type b)
      then writeLenPrefixedBytes (string_bytes (blk_CertificateHash b)) @
           PutUint64 (of_nat (length (blk_Attestations b))) @
           concat (map marshal_attestation (sort_key att_PublicKey (blk_Attestations b)))
      else [])"

definition MarshalBlock :: "block \<Rightarrow> bytes result" where
  "MarshalBlock b =
     (if blk_PubKey b \<noteq> []
      then Err ''MarshalBlock: the binary canonical encoding cannot represent a declared pub_key (it is bound into the hash via the aux input, not the canonical bytes) - use JSON, which is the wire and store format for blocks''
      else case MarshalBlockCanonical b of
             Inl e \<Rightarrow> Inl e
           | Inr canonical \<Rightarrow> Inr (canonical @ rev (PutUint64 (blk_PoWNonce b))))"

section \<open>The block decoder\<close>

definition zero_block :: block where
  "zero_block =
     \<lparr>blk_Type = BlockOther [], blk_Account = [], blk_Previous = [], blk_Balance = 0,
      blk_Timestamp = 0, blk_Asset = [], blk_Representative = [], blk_Destination = [],
      blk_Amount = 0, blk_Source = [], blk_VCPUs = 0, blk_MemoryMB = 0, blk_DiskGB = 0,
      blk_Duration = 0, blk_AccessPubKey = [], blk_LeaseMinDurationSecs = 0,
      blk_LeaseSettleGraceNs = 0, blk_LeaseForceSettleGapNs = 0, blk_LeaseEscrowExpiryNs = 0,
      blk_LeaseArchiveGapNs = 0, blk_MaxAttestationSkewNs = 0, blk_Memo = [],
      blk_MSKeyset = None, blk_Signatures = [], blk_PubKey = [], blk_Signature = [],
      blk_Hash = [], blk_PoWNonce = 0, blk_Attestations = [], blk_CertificateHash = [],
      blk_LockedR = 0, blk_LockedPayoutCap = 0, blk_LockedTWAP = 0\<rparr>"

text \<open>The block type a type byte stands for, with the least length of its encoding.\<close>

definition decode_type :: "8 word \<Rightarrow> (block_type \<times> nat) option" where
  "decode_type t =
     (if t = 1 then Some (BlockSend, 90 + 40 + 32 + 1)
      else if t = 2 then Some (BlockReceive, 90 + 32 + 32)
      else if t = 7 then Some (BlockGenesis, 90 + 32)
      else if t = 8 then Some (BlockMultisigOpen, 90 + 8 + 32)
      else if t = 9 then Some (BlockMultisigUpdate, 90 + 8 + 32)
      else if t = 4 then Some (BlockLease, 90 + 104 + 32)
      else if t = 5 then Some (BlockLeaseAccept, 90 + 64 + 32)
      else if t = 6 then Some (BlockLeaseSettle, 90 + 40 + 32)
      else if t = 10 then Some (BlockLeaseCancel, 90 + 32 + 32)
      else if t = 12 then Some (BlockLeaseForceSettle, 90 + 32 + 32)
      else if t = 11 then Some (BlockBurn, 90 + 8 + 32 + 1)
      else if t = 13 then Some (BlockMint, 90 + 8 + 32)
      else None)"

definition hex_or_empty :: "bytes \<Rightarrow> string" where
  "hex_or_empty bs = (if allZero bs then [] else hex_EncodeToString bs)"

definition unmarshal_header :: "block_type \<Rightarrow> bytes \<Rightarrow> block" where
  "unmarshal_header t data =
     zero_block\<lparr>blk_Type := t,
       blk_Account := hex_EncodeToString (slice 10 42 data),
       blk_Previous := (if allZero (slice 42 74 data) then ''0'' else hex_EncodeToString (slice 42 74 data)),
       blk_Balance := Uint64 (slice 74 82 data),
       blk_Timestamp := Int64 (slice 82 90 data),
       blk_Asset := bytes_string (rev (dropWhile (\<lambda>x. x = 0) (rev (slice 2 10 data))))\<rparr>"

text \<open>The fields of each type, with the offset of the representative.\<close>

definition unmarshal_tail :: "block \<Rightarrow> bytes \<Rightarrow> (block \<times> nat) result" where
  "unmarshal_tail b data =
     (case blk_Type b of
        BlockSend \<Rightarrow>
          Inr (b\<lparr>blk_Destination := hex_EncodeToString (slice 90 122 data),
                blk_Amount := Uint64 (slice 122 130 data)\<rparr>, 130)
      | BlockReceive \<Rightarrow> Inr (b\<lparr>blk_Source := hex_EncodeToString (slice 90 122 data)\<rparr>, 122)
      | BlockLease \<Rightarrow>
          Inr (b\<lparr>blk_Destination := hex_EncodeToString (slice 90 122 data),
                blk_Amount := Uint64 (slice 122 130 data),
                blk_VCPUs := Uint64 (slice 130 138 data),
                blk_MemoryMB := Uint64 (slice 138 146 data),
                blk_DiskGB := Uint64 (slice 146 154 data),
                blk_Duration := Uint64 (slice 154 162 data),
                blk_AccessPubKey := hex_or_empty (slice 162 194 data)\<rparr>, 194)
      | BlockLeaseCancel \<Rightarrow> Inr (b\<lparr>blk_Source := hex_EncodeToString (slice 90 122 data)\<rparr>, 122)
      | BlockLeaseForceSettle \<Rightarrow> Inr (b\<lparr>blk_Source := hex_EncodeToString (slice 90 122 data)\<rparr>, 122)
      | BlockLeaseSettle \<Rightarrow>
          Inr (b\<lparr>blk_Source := hex_EncodeToString (slice 90 122 data),
                blk_Amount := Uint64 (slice 122 130 data)\<rparr>, 130)
      | BlockLeaseAccept \<Rightarrow>
          Inr (b\<lparr>blk_Source := hex_EncodeToString (slice 90 122 data),
                blk_Amount := Uint64 (slice 122 130 data),
                blk_LockedR := Uint64 (slice 130 138 data),
                blk_LockedPayoutCap := Uint64 (slice 138 146 data),
                blk_LockedTWAP := Uint64 (slice 146 154 data)\<rparr>, 154)
      | BlockMultisigOpen \<Rightarrow>
          (case unmarshalKeysetCanonical (drop 90 data) of
             Inl e \<Rightarrow> wrap ''UnmarshalBlock: keyset: '' e
           | Inr (ks, ksLen) \<Rightarrow>
               if length data < 90 + ksLen + 32 then Err ''UnmarshalBlock: data too short for %s after keyset''
               else Inr (b\<lparr>blk_MSKeyset := Some ks\<rparr>, 90 + ksLen))
      | BlockMultisigUpdate \<Rightarrow>
          (case unmarshalKeysetCanonical (drop 90 data) of
             Inl e \<Rightarrow> wrap ''UnmarshalBlock: keyset: '' e
           | Inr (ks, ksLen) \<Rightarrow>
               if length data < 90 + ksLen + 32 then Err ''UnmarshalBlock: data too short for %s after keyset''
               else Inr (b\<lparr>blk_MSKeyset := Some ks\<rparr>, 90 + ksLen))
      | BlockBurn \<Rightarrow> Inr (b\<lparr>blk_Amount := Uint64 (slice 90 98 data)\<rparr>, 98)
      | BlockMint \<Rightarrow> Inr (b\<lparr>blk_Amount := Uint64 (slice 90 98 data)\<rparr>, 98)
      | _ \<Rightarrow> Inr (b, 90))"

definition unmarshal_timing :: "bytes \<Rightarrow> block \<Rightarrow> block" where
  "unmarshal_timing t b =
     b\<lparr>blk_LeaseMinDurationSecs := Uint64 (slice 0 8 t),
       blk_LeaseSettleGraceNs := Int64 (slice 8 16 t),
       blk_LeaseForceSettleGapNs := Int64 (slice 16 24 t),
       blk_LeaseEscrowExpiryNs := Int64 (slice 24 32 t),
       blk_LeaseArchiveGapNs := Int64 (slice 32 40 t),
       blk_MaxAttestationSkewNs := Int64 (slice 40 48 t)\<rparr>"

text \<open>The memo of a send or burn, with the offset behind it.\<close>

definition unmarshal_memo :: "bytes \<Rightarrow> nat \<Rightarrow> nat \<Rightarrow> block \<Rightarrow> (block \<times> nat) result" where
  "unmarshal_memo data minLen repOffset b =
     (let memoLen = unat (data ! (repOffset + 32))
      in if memoLen > MaxMemoBytes then Err ''UnmarshalBlock: memo length %d exceeds max %d''
         else if length data < minLen + memoLen then Err ''UnmarshalBlock: data too short for %d-byte memo''
         else if memoLen > 0
         then let memo = bytes_string (slice minLen (minLen + memoLen) data)
              in case ValidateMemo memo of
                   Inl e \<Rightarrow> wrap ''UnmarshalBlock: '' e
                 | Inr _ \<Rightarrow> Inr (b\<lparr>blk_Memo := memo\<rparr>, minLen + memoLen)
         else Inr (b, minLen + memoLen))"

definition unmarshalBlock :: "bytes \<Rightarrow> block result" where
  "unmarshalBlock data =
     (case decode_type (data ! 1) of
        None \<Rightarrow> Err ''UnmarshalBlock: unknown type byte 0x%02x''
      | Some (t, minLen) \<Rightarrow>
      if length data < minLen then Err ''UnmarshalBlock: data too short for %s block: need %d bytes, got %d''
      else case unmarshal_tail (unmarshal_header t data) data of Inl e \<Rightarrow> Inl e | Inr (b1, repOffset) \<Rightarrow>
      let b2 = b1\<lparr>blk_Representative := hex_or_empty (slice repOffset (repOffset + 32) data)\<rparr>;
          (b3, tailOffset3) =
            (if t = BlockGenesis \<and> length data \<ge> repOffset + 32 + 48
             then (unmarshal_timing (slice (repOffset + 32) (repOffset + 32 + 48) data) b2, repOffset + 32 + 48)
             else (b2, minLen))
      in case (if t = BlockSend \<or> t = BlockBurn then unmarshal_memo data minLen repOffset b3
               else Inr (b3, tailOffset3)) of
           Inl e \<Rightarrow> Inl e
         | Inr (b4, tailOffset) \<Rightarrow>
             if length data = tailOffset + 8
             then Inr (b4\<lparr>blk_PoWNonce := Uint64 (rev (drop tailOffset data))\<rparr>)
             else Inr b4)"

definition UnmarshalBlock :: "bytes \<Rightarrow> block result" where
  "UnmarshalBlock data =
     (if length data < 2 then Err ''UnmarshalBlock: data too short (%d bytes)''
      else if data ! 0 \<noteq> versionByte then Err ''UnmarshalBlock: unsupported version byte 0x%02x''
      else unmarshalBlock data)"

section \<open>Votes\<close>

definition voteVersionByte :: "8 word" where "voteVersionByte = 2"

definition voteSigningBytes :: "vote \<Rightarrow> bytes result" where
  "voteSigningBytes v =
     (case hex32 ''voteSigningBytes'' ''RepPubKey'' (vt_RepPubKey v) of Inl e \<Rightarrow> Inl e | Inr rep \<Rightarrow>
      case hex32 ''voteSigningBytes'' ''BlockHash'' (vt_BlockHash v) of Inl e \<Rightarrow> Inl e | Inr blockHash \<Rightarrow>
      case hex32 ''voteSigningBytes'' ''ConflictAccount'' (vt_ConflictAccount v) of Inl e \<Rightarrow> Inl e | Inr account \<Rightarrow>
      case hex32_or_zero (vt_ConflictPrev v = ''0'') ''voteSigningBytes'' ''ConflictPrev'' (vt_ConflictPrev v) of
        Inl e \<Rightarrow> Inl e | Inr prev \<Rightarrow>
      Inr (voteVersionByte # rep @ blockHash @ account @ prev @ PutInt64 (vt_Timestamp v) @
           [if vt_Final v then 1 else 0]))"

definition EncodeVote :: "vote \<Rightarrow> bytes result" where
  "EncodeVote v =
     (case voteSigningBytes v of
        Inl e \<Rightarrow> wrap ''EncodeVote: '' e
      | Inr signing \<Rightarrow> Inr (signing @ PutUint16 (length (vt_Signature v)) @ vt_Signature v))"

text \<open>
  \<open>sigLen\<close> is a \<open>uint16\<close>, so the upper bound \<open>140+sigLen\<close> of the last slice is computed
  modulo \<open>2^16\<close>; a slice whose upper bound is below its lower bound panics.
\<close>

definition DecodeVote :: "bytes \<Rightarrow> vote result" where
  "DecodeVote data =
     (if length data < 138 + 2 then Err ''DecodeVote: data too short (%d bytes)''
      else if data ! 0 \<noteq> voteVersionByte then Err ''DecodeVote: unsupported version byte 0x%02x''
      else let sigLen = be_get (slice 138 140 data)
      in if length data < 140 + sigLen
         then Err ''DecodeVote: data truncated: need %d bytes for signature, have %d''
         else if (140 + sigLen) mod 2 ^ 16 < 140
         then Panic ''runtime error: slice bounds out of range [140:%d]''
         else Inr
           \<lparr>vt_RepPubKey = hex_EncodeToString (slice 1 33 data),
            vt_BlockHash = hex_EncodeToString (slice 33 65 data),
            vt_ConflictAccount = hex_EncodeToString (slice 65 97 data),
            vt_ConflictPrev = (if allZero (slice 97 129 data) then ''0'' else hex_EncodeToString (slice 97 129 data)),
            vt_Timestamp = Int64 (slice 129 137 data),
            vt_Final = (data ! 137 \<noteq> 0),
            vt_Signature = slice 140 ((140 + sigLen) mod 2 ^ 16) data,
            vt_Weight = 0\<rparr>)"

end
