(* ===== verification/XE_Crypto.thy ===== *)
theory XE_Crypto
  imports XE_Encoding
begin

text \<open>
  Block hashing and authentication: \<open>core/crypto.go\<close>, \<open>core/address.go\<close>, \<open>core/pow.go\<close>,
  \<open>core/multisig.go\<close> and \<open>core/attestation.go\<close>.

  The cryptographic primitives and the package state these functions read are the fields
  of the record \<open>crypto_env\<close>: SHA-256, the Ed25519 verification function, the 8-byte
  BLAKE2b digest, the network identifier (empty when unset) and the current time in
  nanoseconds. Nothing is assumed of the primitives.
\<close>

section \<open>Environment\<close>

record crypto_env =
  sha256 :: "bytes \<Rightarrow> bytes"
  ed25519_Verify :: "bytes \<Rightarrow> bytes \<Rightarrow> bytes \<Rightarrow> bool"
  blake2b_8 :: "bytes \<Rightarrow> bytes"
  networkID :: bytes
  now_ns :: int

section \<open>Keys, addresses and signatures\<close>

definition DecodePublicKey :: "string \<Rightarrow> bytes result" where
  "DecodePublicKey s =
     (case hex_DecodeString s of
        Inl e \<Rightarrow> wrap ''invalid public key hex: '' e
      | Inr b \<Rightarrow> if length b \<noteq> 32 then Err ''invalid public key length: got %d, want %d'' else Inr b)"

definition DecodeSignature :: "string \<Rightarrow> bytes result" where
  "DecodeSignature s =
     (case hex_DecodeString s of
        Inl e \<Rightarrow> wrap ''invalid signature hex: '' e
      | Inr b \<Rightarrow> if length b \<noteq> 64 then Err ''invalid signature length: got %d, want %d'' else Inr b)"

definition DecodeHash :: "string \<Rightarrow> bytes result" where
  "DecodeHash s =
     (case hex_DecodeString s of
        Inl e \<Rightarrow> wrap ''invalid hash hex: '' e
      | Inr b \<Rightarrow> if length b \<noteq> 32 then Err ''invalid hash length: got %d, want 32'' else Inr b)"

definition VerifyHexSignature :: "('e) crypto_env_scheme \<Rightarrow> string \<Rightarrow> string \<Rightarrow> bytes \<Rightarrow> unit result" where
  "VerifyHexSignature E pubKeyHex sigHex message =
     (case DecodePublicKey pubKeyHex of Inl e \<Rightarrow> Inl e | Inr pub \<Rightarrow>
      case DecodeSignature sigHex of Inl e \<Rightarrow> Inl e | Inr sig \<Rightarrow>
      if \<not> ed25519_Verify E pub message sig then Err ''signature verification failed'' else Inr ())"

definition deriveAddressFromKey :: "('e) crypto_env_scheme \<Rightarrow> bytes \<Rightarrow> string" where
  "deriveAddressFromKey E pub = hex_EncodeToString (sha256 E (string_bytes ''xe/account/v1'' @ pub))"

definition DeriveAddress :: "('e) crypto_env_scheme \<Rightarrow> string \<Rightarrow> string result" where
  "DeriveAddress E pubKeyHex =
     (case DecodePublicKey pubKeyHex of
        Inl e \<Rightarrow> wrap ''derive address: '' e
      | Inr pub \<Rightarrow> Inr (deriveAddressFromKey E pub))"

definition VerifyPayloadKey :: "('e) crypto_env_scheme \<Rightarrow> string \<Rightarrow> string \<Rightarrow> unit result" where
  "VerifyPayloadKey E pubKeyHex account =
     (if pubKeyHex = [] then Err ''missing public key''
      else if account = [] then Err ''missing account''
      else case DeriveAddress E pubKeyHex of
             Inl e \<Rightarrow> Inl e
           | Inr derived \<Rightarrow> if derived \<noteq> account then Err ''public key does not derive account %s'' else Inr ())"

section \<open>Block hash and block signature\<close>

definition HashBlock :: "('e) crypto_env_scheme \<Rightarrow> block \<Rightarrow> string result" where
  "HashBlock E b =
     (case MarshalBlockCanonical b of
        Inl e \<Rightarrow> wrap ''HashBlock: '' e
      | Inr data \<Rightarrow> Inr (hex_EncodeToString (sha256 E (networkID E @ data @ MarshalBlockAux b))))"

definition VerifyBlockSignatureWith :: "('e) crypto_env_scheme \<Rightarrow> block \<Rightarrow> string \<Rightarrow> unit result" where
  "VerifyBlockSignatureWith E b pubKeyHex =
     (case DecodeHash (blk_Hash b) of
        Inl e \<Rightarrow> Inl e
      | Inr hashBytes \<Rightarrow> VerifyHexSignature E pubKeyHex (blk_Signature b) hashBytes)"

definition ValidatePubKeyDeclaration :: "('e) crypto_env_scheme \<Rightarrow> block \<Rightarrow> unit result" where
  "ValidatePubKeyDeclaration E b =
     (if blk_Signatures b \<noteq> [] then
        (if blk_PubKey b \<noteq> [] then Err ''multisig block must not declare pub_key'' else Inr ())
      else if blk_Previous b = ''0'' then
        (if blk_PubKey b = [] then Err ''open block must declare pub_key''
         else case DeriveAddress E (blk_PubKey b) of
                Inl e \<Rightarrow> wrap ''invalid pub_key: '' e
              | Inr derived \<Rightarrow>
                  if derived \<noteq> blk_Account b
                  then Err ''pub_key does not derive account address: derived %s, account %s''
                  else Inr ())
      else if blk_PubKey b \<noteq> [] then Err ''non-open block must not declare pub_key''
      else Inr ())"

definition VerifyBlock :: "('e) crypto_env_scheme \<Rightarrow> block \<Rightarrow> unit result" where
  "VerifyBlock E b =
     (case HashBlock E b of
        Inl e \<Rightarrow> wrap ''verify: '' e
      | Inr expected \<Rightarrow>
      if blk_Hash b \<noteq> expected then Err ''hash mismatch: got %s, want %s''
      else case ValidatePubKeyDeclaration E b of Inl e \<Rightarrow> Inl e | Inr _ \<Rightarrow>
      if blk_Signatures b \<noteq> [] then Inr ()
      else if blk_Previous b \<noteq> ''0'' then Inr ()
      else VerifyBlockSignatureWith E b (blk_PubKey b))"

section \<open>Proof of work\<close>

definition powHash :: "('e) crypto_env_scheme \<Rightarrow> u64 \<Rightarrow> bytes \<Rightarrow> u64" where
  "powHash E nonce blockHash = Uint64 (blake2b_8 E (rev (PutUint64 nonce) @ blockHash))"

definition ValidatePoW :: "('e) crypto_env_scheme \<Rightarrow> bytes \<Rightarrow> u64 \<Rightarrow> u64 \<Rightarrow> bool" where
  "ValidatePoW E blockHash nonce difficulty \<longleftrightarrow> powHash E nonce blockHash \<ge> difficulty"

section \<open>Multisig keysets\<close>

text \<open>The loop over the keys, with the set of decoded keys seen so far.\<close>

fun validate_keys :: "string set \<Rightarrow> string list \<Rightarrow> unit result" where
  "validate_keys seen [] = Inr ()"
| "validate_keys seen (k # ks) =
     (if length k \<noteq> 64 then Err ''key %d: expected 64 hex chars, got %d''
      else case hex_DecodeString k of
        Inl e \<Rightarrow> wrap ''key %d: invalid hex: '' e
      | Inr b \<Rightarrow>
          let lower = hex_EncodeToString b
          in if lower \<in> seen then Err ''duplicate key: %s'' else validate_keys (insert lower seen) ks)"

definition ValidateKeyset :: "keyset option \<Rightarrow> unit result" where
  "ValidateKeyset ko =
     (case ko of
        None \<Rightarrow> Err ''keyset is nil''
      | Some ks \<Rightarrow>
      if ks_Keys ks = [] then Err ''keyset has no keys''
      else if ks_Threshold ks < 1 then Err ''keyset threshold must be >= 1, got %d''
      else if ks_Threshold ks > int (length (ks_Keys ks)) then Err ''keyset threshold %d exceeds key count %d''
      else validate_keys {} (ks_Keys ks))"

fun decode_key_list :: "string list \<Rightarrow> bytes result" where
  "decode_key_list [] = Inr []"
| "decode_key_list (k # ks) =
     (case hex_DecodeString k of
        Inl e \<Rightarrow> wrap ''invalid key hex: '' e
      | Inr kb \<Rightarrow> (case decode_key_list ks of Inl e \<Rightarrow> Inl e | Inr r \<Rightarrow> Inr (kb @ r)))"

definition DeriveMultisigAddress :: "('e) crypto_env_scheme \<Rightarrow> keyset option \<Rightarrow> string result" where
  "DeriveMultisigAddress E ko =
     (case ValidateKeyset ko of Inl e \<Rightarrow> Inl e | Inr _ \<Rightarrow>
      case ko of None \<Rightarrow> Err ''keyset is nil'' | Some ks \<Rightarrow>
      let sorted = sort (ks_Keys ks)
      in case decode_key_list sorted of
           Inl e \<Rightarrow> Inl e
         | Inr body \<Rightarrow>
             Inr (hex_EncodeToString (sha256 E
               (PutUint32 (ks_Threshold ks) @ PutUint32 (int (length sorted)) @ body))))"

text \<open>The loop of \<open>VerifyMultisig\<close>: the number of signatures, all of them checked.\<close>

fun verify_sigs :: "('e) crypto_env_scheme \<Rightarrow> bytes \<Rightarrow> string set \<Rightarrow> string set \<Rightarrow> nat \<Rightarrow> block_signature list \<Rightarrow> nat result" where
  "verify_sigs E hashBytes keysetMap seen validCount [] = Inr validCount"
| "verify_sigs E hashBytes keysetMap seen validCount (sig # sigs) =
     (let pk = sg_PublicKey sig
      in if pk \<in> seen then short12 pk (Err ''duplicate signer: %s'')
         else if pk \<notin> keysetMap then short12 pk (Err ''signer %s not in keyset'')
         else case VerifyHexSignature E pk (sg_Sig sig) hashBytes of
                Inl e \<Rightarrow> short12 pk (wrap ''sig from %s: '' e)
              | Inr _ \<Rightarrow> verify_sigs E hashBytes keysetMap (insert pk seen) (Suc validCount) sigs)"

definition VerifyMultisig :: "('e) crypto_env_scheme \<Rightarrow> string \<Rightarrow> block_signature list \<Rightarrow> keyset \<Rightarrow> unit result" where
  "VerifyMultisig E hash sigs ks =
     (if sigs = [] then Err ''no signatures''
      else case DecodeHash hash of
        Inl e \<Rightarrow> wrap ''decode hash: '' e
      | Inr hashBytes \<Rightarrow>
      case verify_sigs E hashBytes (set (ks_Keys ks)) {} 0 sigs of
        Inl e \<Rightarrow> Inl e
      | Inr validCount \<Rightarrow>
          if int validCount < ks_Threshold ks then Err ''insufficient signatures: got %d, need %d'' else Inr ())"

definition VerifyMultisigAny :: "('e) crypto_env_scheme \<Rightarrow> string \<Rightarrow> block_signature list \<Rightarrow> keyset \<Rightarrow> unit result" where
  "VerifyMultisigAny E hash sigs ks =
     (if sigs = [] then Err ''no signatures''
      else case DecodeHash hash of
        Inl e \<Rightarrow> wrap ''decode hash: '' e
      | Inr hashBytes \<Rightarrow>
          if list_ex (\<lambda>sig. sg_PublicKey sig \<in> set (ks_Keys ks) \<and>
               VerifyHexSignature E (sg_PublicKey sig) (sg_Sig sig) hashBytes = Inr ()) sigs
          then Inr () else Err ''no valid signature from any keyset member'')"

definition IsSpendingOp :: "block_type \<Rightarrow> bool" where
  "IsSpendingOp t \<longleftrightarrow>
     t \<in> {BlockSend, BlockBurn, BlockLease, BlockLeaseRenew, BlockMultisigOpen, BlockMultisigUpdate, BlockMint}"

section \<open>Timekeeper attestations\<close>

definition MaxAttestationsPerBlock :: nat where "MaxAttestationsPerBlock = 20"

definition AttestationPayload :: "('e) crypto_env_scheme \<Rightarrow> string \<Rightarrow> int \<Rightarrow> bytes result" where
  "AttestationPayload E leaseHash timestamp =
     (case DecodeHash leaseHash of
        Inl e \<Rightarrow> Inl e
      | Inr hashBytes \<Rightarrow> Inr (sha256 E (hashBytes @ PutInt64 timestamp)))"

definition VerifyAttestation :: "('e) crypto_env_scheme \<Rightarrow> timekeeper_attestation \<Rightarrow> string \<Rightarrow> unit result" where
  "VerifyAttestation E a leaseHash =
     (case AttestationPayload E leaseHash (att_Timestamp a) of
        Inl e \<Rightarrow> Inl e
      | Inr payload \<Rightarrow> VerifyHexSignature E (att_PublicKey a) (att_Signature a) payload)"

text \<open>\<open>delta := a.Timestamp - now; if delta < 0 \{ delta = -delta \}\<close>, with wrap-around.\<close>

definition skew_delta :: "int \<Rightarrow> int \<Rightarrow> int" where
  "skew_delta t now = (let delta = i64 (t - now) in if delta < 0 then i64 (- delta) else delta)"

fun valid_timestamps :: "('e) crypto_env_scheme \<Rightarrow> lease_timing \<Rightarrow> string \<Rightarrow> string set \<Rightarrow> bool \<Rightarrow>
    string set \<Rightarrow> timekeeper_attestation list \<Rightarrow> int list" where
  "valid_timestamps E T leaseHash trusted skipSkew seen [] = []"
| "valid_timestamps E T leaseHash trusted skipSkew seen (a # as) =
     (if att_PublicKey a \<notin> trusted then valid_timestamps E T leaseHash trusted skipSkew seen as
      else if att_PublicKey a \<in> seen then valid_timestamps E T leaseHash trusted skipSkew seen as
      else if VerifyAttestation E a leaseHash \<noteq> Inr () then valid_timestamps E T leaseHash trusted skipSkew seen as
      else if \<not> skipSkew \<and> skew_delta (att_Timestamp a) (now_ns E) > MaxAttestationSkew T
      then valid_timestamps E T leaseHash trusted skipSkew seen as
      else att_Timestamp a # valid_timestamps E T leaseHash trusted skipSkew (insert (att_PublicKey a) seen) as)"

text \<open>
  A negative threshold passes every length test; with no valid attestation the median is
  then read from an empty slice, which panics (\<open>(0-1)/2\<close> is \<open>0\<close> in Go).
\<close>

definition ValidateAttestations :: "('e) crypto_env_scheme \<Rightarrow> lease_timing \<Rightarrow> timekeeper_attestation list \<Rightarrow> string \<Rightarrow>
    timekeeper_config option \<Rightarrow> bool \<Rightarrow> int result" where
  "ValidateAttestations E T attestations leaseHash config skipSkew =
     (case config of
        None \<Rightarrow> Err ''no timekeeper config''
      | Some cfg \<Rightarrow>
      if tk_Threshold cfg = 0 then Err ''timekeeper threshold is zero''
      else if length attestations > MaxAttestationsPerBlock then Err ''too many attestations: %d exceeds max %d''
      else if int (length attestations) < tk_Threshold cfg then Err ''need %d attestations, got %d''
      else let valid = valid_timestamps E T leaseHash (set (tk_Keys cfg)) skipSkew {} attestations
      in if int (length valid) < tk_Threshold cfg
         then Err ''only %d valid attestations from trusted timekeepers, need %d''
         else if valid = [] then Panic ''runtime error: index out of range [0] with length 0''
         else Inr (sort valid ! ((length valid - 1) div 2)))"

end
