(* ===== verification/XE_Ledger.thy ===== *)
theory XE_Ledger
  imports XE_Store XE_Crypto
begin

text \<open>
  The state of the ledger (\<open>core/ledger.go\<close>) and the operations below the block
  handlers: the balance cache, delegated vote weights, the overlay a conflict promotion
  reads through (\<open>core/cascade_commit.go\<close>), the construction of an undo
  (\<open>core/rollback.go\<close>), and the write of a validated block.

  The functions a ledger is configured with are read-only inputs, so they are fields of
  the record \<open>env\<close>: \<open>None\<close> is a nil function. The package variables of the lease timing
  are the field \<open>l_timing\<close> of the ledger. Each operation runs under the account lock (and
  the lease lock), so it is one step on the ledger state; an operation returns its result
  together with the state it leaves, also when it fails. One handler tries the lock of a
  second account; \<open>held_elsewhere\<close> says which locks other operations hold at that moment.
\<close>

section \<open>Configuration\<close>

record minter_config =
  mc_Keys :: "string list"

record epoch_params =
  ep_R :: u64
  ep_PayoutCap :: u64
  ep_TWAP :: u64

record representative_config =
  rc_Mode :: string
  rc_Addresses :: "string list"

record env = crypto_env +
  cfg_Difficulty :: u64
  cfg_TimestampWindow :: int
  cfg_TimekeeperConfigFn :: "timekeeper_config option option"
  cfg_MinterConfigFn :: "minter_config option option"
  cfg_CertificateLookupFn :: "(string \<Rightarrow> certificate_info option) option"
  cfg_EpochRFn :: "u64 option"
  cfg_EpochPayoutCapFn :: "u64 option"
  cfg_EpochTWAPFn :: "u64 option"
  cfg_EpochAtFn :: "(int \<Rightarrow> epoch_params list) option"
  cfg_FeatureActiveFn :: "(string \<Rightarrow> bool) option"
  cfg_RepresentativeConfigFn :: "representative_config option option"
  cfg_GenesisDocument :: "block result"
  held_elsewhere :: "string \<Rightarrow> bool"

section \<open>State\<close>

text \<open>
  The closure that \<open>buildBlockUndo\<close> returns to repair the in-memory state is the record of
  the values it captures; \<open>run_apply\<close> below is its body.
\<close>

record undo_apply =
  ua_account :: string
  ua_asset :: string
  ua_parentBal :: u64
  ua_xeBefore :: u64
  ua_xeAfter :: u64
  ua_prevRep :: string
  ua_deleteAccount :: bool
  ua_deleteKeysetAccount :: string
  ua_deleteAccountKeyAccount :: string
  ua_assetDebit :: "asset_delta option"
  ua_repRevert :: "reputation_event option"

record cascade_build =
  cb_winnerHash :: string
  cb_undos :: "block_undo list"
  cb_memApplies :: "undo_apply list"
  cb_chains :: "(string, account_chain) gomap"
  cb_addPending :: "(string, pending_send) gomap"
  cb_delPending :: "string set"
  cb_restoreLease :: "(string, lease) gomap"
  cb_deleteLease :: "string set"
  cb_deleteKeyset :: "string set"
  cb_delegation :: "(string, string) gomap"
  cb_delegated :: "string set"

record ledger =
  l_store :: mem_store
  l_delegation :: "(string, string) gomap"
  l_weights :: "(string, int) gomap"
  l_assetBalances :: "(string, (string, u64) gomap) gomap"
  l_blockCount :: int
  l_delegationUnderflow :: u64
  l_keysets :: "(string, keyset) gomap"
  l_accountKeys :: "(string, string) gomap"
  l_reputation :: rep_map
  l_activeCascade :: "cascade_build option"
  l_timing :: lease_timing

section \<open>The balance cache\<close>

definition getAssetBalance :: "ledger \<Rightarrow> string \<Rightarrow> string \<Rightarrow> u64" where
  "getAssetBalance l account asset = mdef 0 (mdef [] (l_assetBalances l) account) asset"

definition setAssetBalance :: "string \<Rightarrow> string \<Rightarrow> u64 \<Rightarrow> ledger \<Rightarrow> ledger" where
  "setAssetBalance account asset balance l =
     l\<lparr>l_assetBalances :=
         mput account (mput asset balance (mdef [] (l_assetBalances l) account)) (l_assetBalances l)\<rparr>"

definition addAssetBalance :: "string \<Rightarrow> string \<Rightarrow> u64 \<Rightarrow> ledger \<Rightarrow> ledger" where
  "addAssetBalance account asset delta l =
     setAssetBalance account asset (getAssetBalance l account asset + delta) l"

definition subAssetBalance :: "string \<Rightarrow> string \<Rightarrow> u64 \<Rightarrow> ledger \<Rightarrow> ledger" where
  "subAssetBalance account asset delta l =
     (if mget (l_assetBalances l) account = None then l
      else if delta \<ge> getAssetBalance l account asset then setAssetBalance account asset 0 l
      else setAssetBalance account asset (getAssetBalance l account asset - delta) l)"

definition deleteAccountBalances :: "string \<Rightarrow> ledger \<Rightarrow> ledger" where
  "deleteAccountBalances account l = l\<lparr>l_assetBalances := mdel account (l_assetBalances l)\<rparr>"

section \<open>Delegation\<close>

definition big :: "u64 \<Rightarrow> int" where "big x = int (unat x)"

definition updateDelegation :: "string \<Rightarrow> u64 \<Rightarrow> block \<Rightarrow> ledger \<Rightarrow> ledger" where
  "updateDelegation account prevBalance newBlock l =
     (let newRep = blk_Representative newBlock;
          newXEBal = getAssetBalance l account ''XE'';
          prevXEBal = (if assetOf newBlock \<noteq> ''XE'' then newXEBal else prevBalance);
          oldRep = mdef [] (l_delegation l) account;
          effectiveRep = (if newRep = [] then oldRep else newRep);
          l1 = (if oldRep \<noteq> []
                then let w = mdef 0 (l_weights l) oldRep - big prevXEBal
                     in if w < 0
                        then l\<lparr>l_weights := mput oldRep 0 (l_weights l),
                               l_delegationUnderflow := l_delegationUnderflow l + 1\<rparr>
                        else l\<lparr>l_weights := mput oldRep w (l_weights l)\<rparr>
                else l);
          l2 = (if effectiveRep = [] then l1\<lparr>l_delegation := mdel account (l_delegation l1)\<rparr>
                else l1\<lparr>l_delegation := mput account effectiveRep (l_delegation l1)\<rparr>)
      in if effectiveRep \<noteq> []
         then l2\<lparr>l_weights := mput effectiveRep (mdef 0 (l_weights l2) effectiveRep + big newXEBal) (l_weights l2)\<rparr>
         else l2)"

section \<open>Reputation\<close>

definition reputation_Apply :: "reputation_event \<Rightarrow> ledger \<Rightarrow> ledger" where
  "reputation_Apply ev l =
     (let e = engine_Apply ev (l_reputation l, m_reputation (l_store l))
      in l\<lparr>l_reputation := fst e, l_store := (l_store l)\<lparr>m_reputation := snd e\<rparr>\<rparr>)"

definition reputation_Revert :: "reputation_event \<Rightarrow> ledger \<Rightarrow> ledger" where
  "reputation_Revert ev l =
     (let e = engine_Revert ev (l_reputation l, m_reputation (l_store l))
      in l\<lparr>l_reputation := fst e, l_store := (l_store l)\<lparr>m_reputation := snd e\<rparr>\<rparr>)"

section \<open>Balances read off a chain\<close>

definition assetBalanceOnChain :: "account_chain \<Rightarrow> string \<Rightarrow> u64" where
  "assetBalanceOnChain chain asset =
     foldl (\<lambda>bal b. if assetOf b = asset then blk_Balance b else bal) 0 chain"

text \<open>A settle block is an XE block that also returns the stake, in XUSD.\<close>

definition settle_stake :: "mem_store \<Rightarrow> block \<Rightarrow> u64" where
  "settle_stake m b =
     (if blk_Type b = BlockLeaseSettle
      then case store_GetLease m (blk_Source b) of None \<Rightarrow> 0 | Some ls \<Rightarrow> ls_Stake ls
      else 0)"

definition xusdBalanceOnChain :: "mem_store \<Rightarrow> account_chain \<Rightarrow> u64" where
  "xusdBalanceOnChain m chain =
     foldl (\<lambda>bal b. (if assetOf b = ''XUSD'' then blk_Balance b else bal) + settle_stake m b) 0 chain"

section \<open>The overlay of a conflict promotion\<close>

definition newCascadeBuild :: "string \<Rightarrow> cascade_build" where
  "newCascadeBuild winnerHash =
     \<lparr>cb_winnerHash = winnerHash, cb_undos = [], cb_memApplies = [], cb_chains = [],
      cb_addPending = [], cb_delPending = {}, cb_restoreLease = [], cb_deleteLease = {},
      cb_deleteKeyset = {}, cb_delegation = [], cb_delegated = {}\<rparr>"

definition addUndo :: "block_undo \<Rightarrow> undo_apply \<Rightarrow> cascade_build \<Rightarrow> cascade_build" where
  "addUndo undo memApply cb0 =
     (let cb1 = cb0\<lparr>cb_undos := cb_undos cb0 @ [undo], cb_memApplies := cb_memApplies cb0 @ [memApply],
                    cb_chains := mput (u_Account undo) (u_Chain undo) (cb_chains cb0)\<rparr>;
          cb2 = (case u_AddPending undo of
                   None \<Rightarrow> cb1
                 | Some ps \<Rightarrow> cb1\<lparr>cb_addPending := mput (ps_SendHash ps) ps (cb_addPending cb1),
                                  cb_delPending := cb_delPending cb1 - {ps_SendHash ps}\<rparr>);
          cb3 = (if u_DeletePendingID undo \<noteq> []
                 then cb2\<lparr>cb_delPending := insert (u_DeletePendingID undo) (cb_delPending cb2),
                          cb_addPending := mdel (u_DeletePendingID undo) (cb_addPending cb2)\<rparr>
                 else cb2);
          cb4 = (case u_RestoreLease undo of
                   None \<Rightarrow> cb3
                 | Some rl \<Rightarrow> cb3\<lparr>cb_restoreLease := mput (ls_LeaseHash rl) rl (cb_restoreLease cb3),
                                  cb_deleteLease := cb_deleteLease cb3 - {ls_LeaseHash rl}\<rparr>);
          cb5 = (if u_DeleteLeaseHash undo \<noteq> []
                 then cb4\<lparr>cb_deleteLease := insert (u_DeleteLeaseHash undo) (cb_deleteLease cb4),
                          cb_restoreLease := mdel (u_DeleteLeaseHash undo) (cb_restoreLease cb4)\<rparr>
                 else cb4);
          cb6 = (if u_DeleteKeysetAccount undo \<noteq> []
                 then cb5\<lparr>cb_deleteKeyset := insert (u_DeleteKeysetAccount undo) (cb_deleteKeyset cb5)\<rparr>
                 else cb5)
      in if u_RestoreDelegation undo
         then cb6\<lparr>cb_delegation := mput (u_Account undo) (u_PrevRep undo) (cb_delegation cb6),
                  cb_delegated := insert (u_Account undo) (cb_delegated cb6)\<rparr>
         else cb6)"

definition overlayChain :: "ledger \<Rightarrow> string \<Rightarrow> account_chain option" where
  "overlayChain l account =
     (case l_activeCascade l of None \<Rightarrow> None | Some cb \<Rightarrow> mget (cb_chains cb) account)"

definition getAccountChainOverlay :: "ledger \<Rightarrow> string \<Rightarrow> account_chain option" where
  "getAccountChainOverlay l account =
     (case overlayChain l account of
        Some ch \<Rightarrow> Some ch
      | None \<Rightarrow> store_GetAccountChain (l_store l) account)"

definition getPendingSendOverlay :: "ledger \<Rightarrow> string \<Rightarrow> pending_send option" where
  "getPendingSendOverlay l sendHash =
     (case l_activeCascade l of
        None \<Rightarrow> store_GetPendingSend (l_store l) sendHash
      | Some cb \<Rightarrow>
          (case mget (cb_addPending cb) sendHash of
             Some ps \<Rightarrow> Some ps
           | None \<Rightarrow> if sendHash \<in> cb_delPending cb then None
                     else store_GetPendingSend (l_store l) sendHash))"

definition getLeaseOverlay :: "ledger \<Rightarrow> string \<Rightarrow> lease option" where
  "getLeaseOverlay l leaseHash =
     (case l_activeCascade l of
        None \<Rightarrow> store_GetLease (l_store l) leaseHash
      | Some cb \<Rightarrow>
          (case mget (cb_restoreLease cb) leaseHash of
             Some rl \<Rightarrow> Some rl
           | None \<Rightarrow> if leaseHash \<in> cb_deleteLease cb then None
                     else store_GetLease (l_store l) leaseHash))"

definition GetKeyset :: "ledger \<Rightarrow> string \<Rightarrow> keyset option" where
  "GetKeyset l account = mget (l_keysets l) account"

definition getKeysetOverlay :: "ledger \<Rightarrow> string \<Rightarrow> keyset option" where
  "getKeysetOverlay l account =
     (case l_activeCascade l of
        None \<Rightarrow> GetKeyset l account
      | Some cb \<Rightarrow> if account \<in> cb_deleteKeyset cb then None else GetKeyset l account)"

definition getAssetBalanceOverlay :: "ledger \<Rightarrow> string \<Rightarrow> string \<Rightarrow> u64" where
  "getAssetBalanceOverlay l account asset =
     (case overlayChain l account of
        Some ch \<Rightarrow>
          (let a = (if asset = [] then ''XE'' else asset)
           in if a = ''XUSD'' then xusdBalanceOnChain (l_store l) ch else assetBalanceOnChain ch a)
      | None \<Rightarrow> getAssetBalance l account asset)"

definition overlayDelegationRep :: "ledger \<Rightarrow> string \<Rightarrow> string option" where
  "overlayDelegationRep l account =
     (case l_activeCascade l of
        None \<Rightarrow> None
      | Some cb \<Rightarrow> if account \<in> cb_delegated cb then Some (mdef [] (cb_delegation cb) account) else None)"

definition activateCascade :: "cascade_build \<Rightarrow> ledger \<Rightarrow> ledger result" where
  "activateCascade cb l =
     (case l_activeCascade l of
        Some _ \<Rightarrow> Err ''activateCascade: a conflict promotion is already in progress (winner %s) - promotions must be serialized''
      | None \<Rightarrow> Inr (l\<lparr>l_activeCascade := Some cb\<rparr>))"

definition deactivateCascade :: "ledger \<Rightarrow> ledger" where
  "deactivateCascade l = l\<lparr>l_activeCascade := None\<rparr>"

section \<open>Undoing a block\<close>

definition priorLease :: "ledger \<Rightarrow> string \<Rightarrow> lease_state \<Rightarrow> lease option" where
  "priorLease l leaseHash target =
     (case store_GetLease (l_store l) leaseHash of
        None \<Rightarrow> None
      | Some cur \<Rightarrow>
          let restored = cur\<lparr>ls_State := target, ls_Settled := False\<rparr>
          in if target = LeaseCreated
             then Some (restored\<lparr>ls_Stake := 0, ls_StartTime := 0, ls_LockedR := 0,
                                ls_LockedPayoutCap := 0, ls_LockedTWAP := 0\<rparr>)
             else Some restored)"

definition escrowPendingOf :: "ledger \<Rightarrow> string \<Rightarrow> pending_send option" where
  "escrowPendingOf l leaseHash =
     (case store_GetBlock (l_store l) leaseHash of
        None \<Rightarrow> None
      | Some lb \<Rightarrow>
          if blk_Type lb \<noteq> BlockLease then None
          else Some
            \<lparr>ps_SendHash = blk_Hash lb, ps_Source = blk_Account lb, ps_Destination = blk_Destination lb,
             ps_Amount =
               (case store_GetLease (l_store l) leaseHash of
                  None \<Rightarrow> blk_Amount lb
                | Some ls \<Rightarrow> foldl (\<lambda>amount s. amount + seg_Cost s) (blk_Amount lb) (ls_Renewals ls)),
             ps_Asset = ''XUSD''\<rparr>)"

definition priorLeasePopRenewal :: "ledger \<Rightarrow> string \<Rightarrow> lease option" where
  "priorLeasePopRenewal l leaseHash =
     (case store_GetLease (l_store l) leaseHash of
        None \<Rightarrow> None
      | Some cur \<Rightarrow>
          if ls_Renewals cur = [] then None else Some (cur\<lparr>ls_Renewals := butlast (ls_Renewals cur)\<rparr>))"

definition receive_pending :: "ledger \<Rightarrow> block \<Rightarrow> pending_send option" where
  "receive_pending l b =
     (case store_GetBlock (l_store l) (blk_Source b) of
        None \<Rightarrow> None
      | Some src \<Rightarrow>
          if blk_Type src = BlockSend
          then Some \<lparr>ps_SendHash = blk_Hash src, ps_Source = blk_Account src,
                     ps_Destination = blk_Destination src, ps_Amount = blk_Amount src,
                     ps_Asset = assetOf src\<rparr>
          else None)"

definition last_rep :: "account_chain \<Rightarrow> string" where
  "last_rep c = (case find (\<lambda>b. blk_Representative b \<noteq> []) (rev c) of None \<Rightarrow> [] | Some b \<Rightarrow> blk_Representative b)"

text \<open>What the \<open>switch\<close> of \<open>buildBlockUndo\<close> selects for each block type.\<close>

definition undo_AddPending :: "ledger \<Rightarrow> block \<Rightarrow> pending_send option" where
  "undo_AddPending l b =
     (case blk_Type b of
        BlockReceive \<Rightarrow> receive_pending l b
      | BlockLeaseSettle \<Rightarrow> escrowPendingOf l (blk_Source b)
      | BlockLeaseForceSettle \<Rightarrow> escrowPendingOf l (blk_Source b)
      | BlockLeaseCancel \<Rightarrow> escrowPendingOf l (blk_Source b)
      | _ \<Rightarrow> None)"

definition undo_RestoreLease :: "ledger \<Rightarrow> block \<Rightarrow> lease option" where
  "undo_RestoreLease l b =
     (case blk_Type b of
        BlockLeaseAccept \<Rightarrow> priorLease l (blk_Source b) LeaseCreated
      | BlockLeaseSettle \<Rightarrow> priorLease l (blk_Source b) LeaseAccepted
      | BlockLeaseForceSettle \<Rightarrow> priorLease l (blk_Source b) LeaseAccepted
      | BlockLeaseCancel \<Rightarrow> priorLease l (blk_Source b) LeaseCreated
      | BlockLeaseRenew \<Rightarrow> priorLeasePopRenewal l (blk_Source b)
      | _ \<Rightarrow> None)"

definition reverses_lease :: "block_type \<Rightarrow> bool" where
  "reverses_lease t \<longleftrightarrow>
     t \<in> {BlockLeaseAccept, BlockLeaseSettle, BlockLeaseForceSettle, BlockLeaseCancel, BlockLeaseRenew}"

definition undo_repRevert :: "block \<Rightarrow> lease option \<Rightarrow> reputation_event option" where
  "undo_repRevert b restoreLease =
     (case restoreLease of None \<Rightarrow> None | Some rl \<Rightarrow>
      let ev = (\<lambda>k d. Some \<lparr>ev_Kind = k, ev_Provider = ls_Provider rl, ev_Consumer = ls_Consumer rl,
                            ev_Timestamp = 0, ev_DurationSecs = d\<rparr>)
      in case blk_Type b of
           BlockLeaseAccept \<Rightarrow> ev EventLeaseAccepted 0
         | BlockLeaseSettle \<Rightarrow> ev EventLeaseSettled (ls_Duration rl)
         | BlockLeaseForceSettle \<Rightarrow> ev EventLeaseUnfulfilled 0
         | BlockLeaseCancel \<Rightarrow> ev EventLeaseCancelled 0
         | _ \<Rightarrow> None)"

definition buildBlockUndo :: "ledger \<Rightarrow> string \<Rightarrow> block \<Rightarrow> account_chain option \<Rightarrow> (block_undo \<times> undo_apply) result" where
  "buildBlockUndo l account b chainOpt =
     (case chainOpt of
        None \<Rightarrow> Err ''cascade apply: %s is not the frontier of %s (chain changed under the cascade)''
      | Some chain \<Rightarrow>
      if chain = [] \<or> blk_Hash (last chain) \<noteq> blk_Hash b
      then Err ''cascade apply: %s is not the frontier of %s (chain changed under the cascade)''
      else if blk_Type b = BlockMultisigUpdate
      then Err ''undo: reversing a multisig_update is not supported (prior keyset unrecoverable): %s''
      else
      let asset = assetOf b;
          addPending = undo_AddPending l b;
          restoreLease = undo_RestoreLease l b;
          deletePendingID = (if blk_Type b = BlockSend \<or> blk_Type b = BlockLease then blk_Hash b else []);
          deleteLeaseHash = (if blk_Type b = BlockLease then blk_Hash b else []);
          deleteKeysetAccount = (if blk_Type b = BlockMultisigOpen then blk_Account b else []);
          assetDebit = (case restoreLease of
                          Some rl \<Rightarrow> if blk_Type b = BlockLeaseSettle
                                     then Some \<lparr>ad_Account = blk_Account b, ad_Asset = ''XUSD'', ad_Amount = ls_Stake rl\<rparr>
                                     else None
                        | None \<Rightarrow> None)
      in if reverses_lease (blk_Type b) \<and> restoreLease = None
         then Err ''undo: lease %s not found while reversing %s''
         else
         let newChain = butlast chain;
             parentBal = (if blk_Previous b \<noteq> ''0''
                          then if asset = ''XUSD'' then xusdBalanceOnChain (l_store l) newChain
                               else assetBalanceOnChain newChain asset
                          else 0);
             prevRep = last_rep newChain;
             deleteAccountKeyAccount = (if blk_PubKey b \<noteq> [] then blk_Account b else [])
         in Inr
           (\<lparr>u_Account = account, u_Chain = newChain, u_FrontierHash = Frontier newChain,
             u_AddPending = addPending, u_DeletePendingID = deletePendingID, u_RejectHash = blk_Hash b,
             u_DeleteAccount = (newChain = []), u_RestoreDelegation = True, u_PrevRep = prevRep,
             u_RestoreLease = restoreLease, u_DeleteLeaseHash = deleteLeaseHash,
             u_DeleteKeysetAccount = deleteKeysetAccount,
             u_DeleteAccountKeyAccount = deleteAccountKeyAccount, u_AssetDebit = assetDebit,
             u_ReducePendingID = (if blk_Type b = BlockLeaseRenew then blk_Source b else []),
             u_ReducePendingAmount = (if blk_Type b = BlockLeaseRenew then blk_Amount b else 0)\<rparr>,
            \<lparr>ua_account = account, ua_asset = asset, ua_parentBal = parentBal,
             ua_xeBefore = assetBalanceOnChain chain ''XE'', ua_xeAfter = assetBalanceOnChain newChain ''XE'',
             ua_prevRep = prevRep, ua_deleteAccount = (newChain = []),
             ua_deleteKeysetAccount = deleteKeysetAccount,
             ua_deleteAccountKeyAccount = deleteAccountKeyAccount, ua_assetDebit = assetDebit,
             ua_repRevert = undo_repRevert b restoreLease\<rparr>))"

definition undo_delegation :: "undo_apply \<Rightarrow> ledger \<Rightarrow> ledger" where
  "undo_delegation a l =
     (let curRep = mdef [] (l_delegation l) (ua_account a);
          l1 = (if curRep \<noteq> []
                then case mget (l_weights l) curRep of
                       None \<Rightarrow> l
                     | Some w \<Rightarrow> l\<lparr>l_weights := mput curRep (max 0 (w - big (ua_xeBefore a))) (l_weights l)\<rparr>
                else l);
          l2 = (if ua_prevRep a \<noteq> []
                then l1\<lparr>l_weights := mput (ua_prevRep a)
                         (mdef 0 (l_weights l1) (ua_prevRep a) + big (ua_xeAfter a)) (l_weights l1)\<rparr>
                else l1)
      in if ua_prevRep a = [] then l2\<lparr>l_delegation := mdel (ua_account a) (l_delegation l2)\<rparr>
         else l2\<lparr>l_delegation := mput (ua_account a) (ua_prevRep a) (l_delegation l2)\<rparr>)"

definition run_apply :: "undo_apply \<Rightarrow> ledger \<Rightarrow> ledger" where
  "run_apply a l =
     (let l1 = (if ua_deleteKeysetAccount a \<noteq> []
                then l\<lparr>l_keysets := mdel (ua_deleteKeysetAccount a) (l_keysets l)\<rparr> else l);
          l2 = (if ua_deleteAccountKeyAccount a \<noteq> []
                then l1\<lparr>l_accountKeys := mdel (ua_deleteAccountKeyAccount a) (l_accountKeys l1)\<rparr> else l1);
          l3 = (if ua_deleteAccount a then deleteAccountBalances (ua_account a) l2
                else setAssetBalance (ua_account a) (ua_asset a) (ua_parentBal a) l2);
          l4 = (case ua_assetDebit a of
                  None \<Rightarrow> l3
                | Some d \<Rightarrow> subAssetBalance (ad_Account d) (ad_Asset d) (ad_Amount d) l3);
          l5 = undo_delegation a l4
      in case ua_repRevert a of None \<Rightarrow> l5 | Some ev \<Rightarrow> reputation_Revert ev l5)"

definition undoBlockApply :: "string \<Rightarrow> block \<Rightarrow> ledger \<Rightarrow> unit result \<times> ledger" where
  "undoBlockApply account b l =
     (case buildBlockUndo l account b (store_GetAccountChain (l_store l) account) of
        Inl e \<Rightarrow> (Inl e, l)
      | Inr (undo, memApply) \<Rightarrow>
          (Inr (), run_apply memApply (l\<lparr>l_store := applyUndoLocked undo (l_store l)\<rparr>)))"

section \<open>Writing a block\<close>

definition prepareBlockWrite :: "ledger \<Rightarrow> block \<Rightarrow> block_commit \<times> u64" where
  "prepareBlockWrite l b =
     (let chain = (case getAccountChainOverlay l (blk_Account b) of None \<Rightarrow> [] | Some c \<Rightarrow> c)
      in (\<lparr>c_Block = b, c_Account = blk_Account b, c_Chain = chain @ [b], c_FrontierHash = blk_Hash b,
           c_AddPending = None, c_DeletePendingID = [], c_PutLease = None, c_SettleLeaseHash = [],
           c_CancelLeaseHash = [], c_UnfulfillLeaseHash = [], c_DelegationRep = [],
           c_DeleteDelegation = False, c_PutKeyset = None, c_PutAccountKey = blk_PubKey b,
           c_ExpectLeaseHash = [], c_ExpectLeaseState = LeaseStateUnset, c_AssetCredit = None,
           c_TopUpPendingID = [], c_TopUpPendingAmount = 0, c_ExpectLeaseEffectiveDurationSecs = 0\<rparr>,
          getAssetBalanceOverlay l (blk_Account b) ''XE''))"

text \<open>The in-memory part of a commit, the same on both paths of \<open>commitBlockWrite\<close>.\<close>

definition post_commit :: "block_commit \<Rightarrow> u64 \<Rightarrow> ledger \<Rightarrow> ledger" where
  "post_commit c prevBalance l =
     (let l1 = l\<lparr>l_blockCount := i64 (l_blockCount l + 1)\<rparr>;
          l2 = setAssetBalance (c_Account c) (assetOf (c_Block c)) (blk_Balance (c_Block c)) l1;
          l3 = (if c_PutAccountKey c \<noteq> []
                then l2\<lparr>l_accountKeys := mput (c_Account c) (c_PutAccountKey c) (l_accountKeys l2)\<rparr> else l2);
          l4 = (case c_AssetCredit c of
                  None \<Rightarrow> l3
                | Some d \<Rightarrow> addAssetBalance (ad_Account d) (ad_Asset d) (ad_Amount d) l3)
      in updateDelegation (c_Account c) prevBalance (c_Block c) l4)"

definition with_delegation :: "ledger \<Rightarrow> block_commit \<Rightarrow> block_commit" where
  "with_delegation l c =
     (let oldRep = (case overlayDelegationRep l (c_Account c) of
                      Some r \<Rightarrow> r | None \<Rightarrow> mdef [] (l_delegation l) (c_Account c));
          effectiveRep = (if blk_Representative (c_Block c) = [] then oldRep else blk_Representative (c_Block c))
      in if effectiveRep = [] then c\<lparr>c_DeleteDelegation := True\<rparr> else c\<lparr>c_DelegationRep := effectiveRep\<rparr>)"

definition commitBlockWrite :: "block_commit \<Rightarrow> u64 \<Rightarrow> ledger \<Rightarrow> unit result \<times> ledger" where
  "commitBlockWrite c0 prevBalance l =
     (let c = with_delegation l c0;
          commit = (case applyCommitLocked c (l_store l) of
                      Inl e \<Rightarrow> (wrap ''CommitBlock: '' e, l)
                    | Inr m \<Rightarrow> (Inr (), post_commit c prevBalance (l\<lparr>l_store := m\<rparr>)))
      in case l_activeCascade l of
           None \<Rightarrow> commit
         | Some cascade \<Rightarrow>
             if cb_winnerHash cascade = blk_Hash (c_Block c)
             then case CommitCascade (cb_undos cascade) c (l_store l) of
                    Inl e \<Rightarrow> (wrap ''CommitCascade: '' e, l)
                  | Inr m \<Rightarrow>
                      (Inr (), post_commit c prevBalance
                         (deactivateCascade (fold run_apply (cb_memApplies cascade) (l\<lparr>l_store := m\<rparr>))))
             else commit)"

end
