(* ===== verification/XE_Effects.thy ===== *)
theory XE_Effects
  imports XE_Ledger
begin

text \<open>
  The effect of the ledger's writes on each part of its state: the balance cache, the
  delegated weights, a committed block and an undone block. The invariants of the ledger
  and the properties of the handlers rest on these laws.
\<close>

section \<open>The balance cache\<close>

named_theorems ledger_simps \<open>the parts of the ledger after each of its operations\<close>

lemma getAssetBalance_set [simp]:
  "getAssetBalance (setAssetBalance a s v l) a' s' = (if a' = a \<and> s' = s then v else getAssetBalance l a' s')"
  by (auto simp: getAssetBalance_def setAssetBalance_def)

lemma getAssetBalance_cong: "l_assetBalances l' = l_assetBalances l \<Longrightarrow> getAssetBalance l' = getAssetBalance l"
  by (simp add: getAssetBalance_def fun_eq_iff)

lemma setAssetBalance_simps [simp, ledger_simps]:
  "l_store (setAssetBalance a s v l) = l_store l"
  "l_delegation (setAssetBalance a s v l) = l_delegation l"
  "l_weights (setAssetBalance a s v l) = l_weights l"
  "l_blockCount (setAssetBalance a s v l) = l_blockCount l"
  "l_delegationUnderflow (setAssetBalance a s v l) = l_delegationUnderflow l"
  "l_keysets (setAssetBalance a s v l) = l_keysets l"
  "l_accountKeys (setAssetBalance a s v l) = l_accountKeys l"
  "l_reputation (setAssetBalance a s v l) = l_reputation l"
  "l_activeCascade (setAssetBalance a s v l) = l_activeCascade l"
  "l_timing (setAssetBalance a s v l) = l_timing l"
  "keys (l_assetBalances (setAssetBalance a s v l)) = insert a (keys (l_assetBalances l))"
  by (simp_all add: setAssetBalance_def)

definition balances_wf :: "ledger \<Rightarrow> bool" where
  "balances_wf l \<longleftrightarrow> mwf (l_assetBalances l) \<and> list_all (\<lambda>(a, m). mwf m) (l_assetBalances l)"

lemma balances_wf_inner: "balances_wf l \<Longrightarrow> mwf (mdef [] (l_assetBalances l) a)"
  by (auto simp: balances_wf_def mdef_def list_all_iff dest: map_of_SomeD split: option.splits)

lemma list_all_mput:
  "list_all P m \<Longrightarrow> P (k, v) \<Longrightarrow> list_all P (mput k v m)"
  by (induction m) auto

lemma list_all_mdel: "list_all P m \<Longrightarrow> list_all P (mdel k m)"
  by (induction m) auto

lemma balances_wf_set [simp]: "balances_wf l \<Longrightarrow> balances_wf (setAssetBalance a s v l)"
  using balances_wf_inner [of l a]
  by (auto simp: balances_wf_def setAssetBalance_def intro!: list_all_mput)

lemma balances_wf_delete [simp]: "balances_wf l \<Longrightarrow> balances_wf (deleteAccountBalances a l)"
  by (auto simp: balances_wf_def deleteAccountBalances_def intro: list_all_mdel)

lemma addAssetBalance_0: "getAssetBalance (addAssetBalance a s 0 l) = getAssetBalance l"
  by (auto simp: addAssetBalance_def fun_eq_iff)

text \<open>The total of an asset over all accounts.\<close>

definition held :: "string \<Rightarrow> ledger \<Rightarrow> nat" where
  "held s l = msum (\<lambda>a m. unat (mdef 0 m s)) (l_assetBalances l)"

lemma held_set:
  assumes "balances_wf l"
  shows "held s (setAssetBalance a s' v l) + (if s = s' then unat (getAssetBalance l a s) else 0) =
         held s l + (if s = s' then unat v else 0)"
proof -
  let ?m = "mdef [] (l_assetBalances l) a" and ?f = "\<lambda>a m. unat (mdef 0 m s)"
  have w: "mwf (l_assetBalances l)" using assms by (simp add: balances_wf_def)
  have e: "(case mget (l_assetBalances l) a of None \<Rightarrow> 0 | Some w \<Rightarrow> ?f a w) = unat (getAssetBalance l a s)"
    by (simp add: getAssetBalance_def mdef_def split: option.splits)
  have "held s (setAssetBalance a s' v l) + unat (getAssetBalance l a s) = held s l + unat (mdef 0 (mput s' v ?m) s)"
    using msum_mput [OF w, of ?f a "mput s' v ?m"] unfolding e
    by (simp add: held_def setAssetBalance_def)
  then show ?thesis by (auto simp: getAssetBalance_def split: if_splits)
qed

lemma held_cong: "l_assetBalances l' = l_assetBalances l \<Longrightarrow> held s l' = held s l"
  by (simp add: held_def)

lemma held_ge:
  assumes "balances_wf l"
  shows "unat (getAssetBalance l a s) \<le> held s l"
  using held_set [OF assms, of s a s 0] by simp

section \<open>Delegated weights\<close>

text \<open>
  \<open>delegated_to bal d rep\<close> is the sum of the balances of the accounts that delegate to
  \<open>rep\<close>. The weights are in step with the ledger when every weight is that sum.
\<close>

definition delegated_to :: "(string \<Rightarrow> int) \<Rightarrow> (string, string) gomap \<Rightarrow> string \<Rightarrow> int" where
  "delegated_to bal d rep = msum (\<lambda>a r. if r = rep then bal a else 0) d"

definition xe_balance :: "ledger \<Rightarrow> string \<Rightarrow> int" where
  "xe_balance l a = big (getAssetBalance l a ''XE'')"

lemma big_nonneg [simp]: "0 \<le> big x" by (simp add: big_def)

lemma xe_balance_nonneg [simp]: "0 \<le> xe_balance l a" by (simp add: xe_balance_def)

lemma delegated_to_mput:
  assumes "mwf d"
  shows "delegated_to bal (mput a r d) rep =
    delegated_to bal d rep - (case mget d a of None \<Rightarrow> 0 | Some r' \<Rightarrow> if r' = rep then bal a else 0)
      + (if r = rep then bal a else 0)"
  using msum_mput [OF assms, of "\<lambda>a r. if r = rep then bal a else 0" a r]
  by (simp add: delegated_to_def)

lemma delegated_to_mdel:
  assumes "mwf d"
  shows "delegated_to bal (mdel a d) rep =
    delegated_to bal d rep - (case mget d a of None \<Rightarrow> 0 | Some r' \<Rightarrow> if r' = rep then bal a else 0)"
  using msum_mdel [OF assms, of "\<lambda>a r. if r = rep then bal a else 0" a]
  by (simp add: delegated_to_def)

lemma delegated_to_balance:
  assumes "mwf d" "\<And>x. x \<noteq> a \<Longrightarrow> bal' x = bal x"
  shows "delegated_to bal' d rep =
    delegated_to bal d rep + (case mget d a of None \<Rightarrow> 0 | Some r \<Rightarrow> if r = rep then bal' a - bal a else 0)"
proof -
  have "msum (\<lambda>a r. if r = rep then bal' a else 0) d +
      (case mget d a of None \<Rightarrow> 0 | Some r \<Rightarrow> if r = rep then bal a else 0) =
    msum (\<lambda>a r. if r = rep then bal a else 0) d +
      (case mget d a of None \<Rightarrow> 0 | Some r \<Rightarrow> if r = rep then bal' a else 0)"
    by (rule msum_update_fun [OF assms(1)]) (simp add: assms(2))
  then show ?thesis by (auto simp: delegated_to_def split: option.splits if_splits)
qed

lemma delegated_to_cong:
  assumes "\<And>x. bal' x = bal x"
  shows "delegated_to bal' d rep = delegated_to bal d rep"
  unfolding delegated_to_def by (rule msum_cong) (simp add: assms)

lemma delegated_to_ge:
  assumes "\<And>x. 0 \<le> bal x" "mget d a = Some rep"
  shows "bal a \<le> delegated_to bal d rep"
  using msum_ge_entry [of "\<lambda>a r. if r = rep then bal a else 0" d a rep] assms
  by (simp add: delegated_to_def)

definition new_rep :: "ledger \<Rightarrow> string \<Rightarrow> block \<Rightarrow> string" where
  "new_rep l account b =
     (if blk_Representative b = [] then mdef [] (l_delegation l) account else blk_Representative b)"

definition set_rep :: "string \<Rightarrow> string \<Rightarrow> (string, string) gomap \<Rightarrow> (string, string) gomap" where
  "set_rep account rep d = (if rep = [] then mdel account d else mput account rep d)"

lemma updateDelegation_simps [simp, ledger_simps]:
  "l_store (updateDelegation a p b l) = l_store l"
  "l_assetBalances (updateDelegation a p b l) = l_assetBalances l"
  "l_blockCount (updateDelegation a p b l) = l_blockCount l"
  "l_keysets (updateDelegation a p b l) = l_keysets l"
  "l_accountKeys (updateDelegation a p b l) = l_accountKeys l"
  "l_reputation (updateDelegation a p b l) = l_reputation l"
  "l_activeCascade (updateDelegation a p b l) = l_activeCascade l"
  "l_timing (updateDelegation a p b l) = l_timing l"
  "l_delegation (updateDelegation a p b l) = set_rep a (new_rep l a b) (l_delegation l)"
  by (simp_all add: updateDelegation_def Let_def set_rep_def new_rep_def)

lemma getAssetBalance_updateDelegation [simp]:
  "getAssetBalance (updateDelegation a p b l) = getAssetBalance l"
  by (rule getAssetBalance_cong) simp

text \<open>
  Weights that were in step with the balances \<open>bal\<close> before the write are in step with the
  new balances after \<open>updateDelegation\<close>, when only this account's XE balance changed and
  \<open>prevBalance\<close> is its old value; the weight that is subtracted was there.
\<close>

lemma updateDelegation_weights:
  assumes wf: "mwf (l_delegation l)" "\<And>a. mget (l_delegation l) a \<noteq> Some []"
    and step: "\<And>rep. mdef 0 (l_weights l) rep = delegated_to bal (l_delegation l) rep"
    and nonneg: "\<And>a. 0 \<le> bal a"
    and others: "\<And>a. a \<noteq> account \<Longrightarrow> xe_balance l a = bal a"
    and own: "bal account = (if assetOf b = ''XE'' then big prevBalance else xe_balance l account)"
  shows "mdef 0 (l_weights (updateDelegation account prevBalance b l)) rep =
         delegated_to (xe_balance l) (l_delegation (updateDelegation account prevBalance b l)) rep"
    and "l_delegationUnderflow (updateDelegation account prevBalance b l) = l_delegationUnderflow l"
proof -
  define oldRep where "oldRep = mdef [] (l_delegation l) account"
  define eff where "eff = new_rep l account b"
  define prev where "prev = (if assetOf b \<noteq> ''XE'' then getAssetBalance l account ''XE'' else prevBalance)"
  have prev: "big prev = bal account" using own by (simp add: prev_def xe_balance_def)
  have eff: "eff = (if blk_Representative b = [] then oldRep else blk_Representative b)"
    by (simp add: eff_def new_rep_def oldRep_def)
  have old: "mget (l_delegation l) account = (if oldRep = [] then None else Some oldRep)"
    using wf(2) [of account] by (auto simp: oldRep_def mdef_def split: option.splits)
  have enough: "0 \<le> mdef 0 (l_weights l) oldRep - big prev" if "oldRep \<noteq> []"
    using delegated_to_ge [OF nonneg, of "l_delegation l" account oldRep] that old
    by (simp add: step prev)
  let ?w1 = "if oldRep \<noteq> [] then mput oldRep (mdef 0 (l_weights l) oldRep - big prev) (l_weights l) else l_weights l"
  have w: "l_weights (updateDelegation account prevBalance b l) =
      (if eff \<noteq> [] then mput eff (mdef 0 ?w1 eff + xe_balance l account) ?w1 else ?w1)"
    using enough by (cases "oldRep = []")
      (simp_all add: updateDelegation_def Let_def oldRep_def [symmetric] prev_def [symmetric] eff xe_balance_def)
  show "l_delegationUnderflow (updateDelegation account prevBalance b l) = l_delegationUnderflow l"
    using enough by (cases "oldRep = []")
      (simp_all add: updateDelegation_def Let_def oldRep_def [symmetric] prev_def [symmetric])
  have d': "delegated_to (xe_balance l) (l_delegation (updateDelegation account prevBalance b l)) rep =
      delegated_to bal (l_delegation l) rep - (if oldRep \<noteq> [] \<and> oldRep = rep then bal account else 0)
      + (if eff \<noteq> [] \<and> eff = rep then xe_balance l account else 0)"
    using delegated_to_balance [OF wf(1), of account "xe_balance l" bal rep] others old
    by (auto simp: set_rep_def eff_def [symmetric] delegated_to_mput [OF wf(1)] delegated_to_mdel [OF wf(1)])
  show "mdef 0 (l_weights (updateDelegation account prevBalance b l)) rep =
      delegated_to (xe_balance l) (l_delegation (updateDelegation account prevBalance b l)) rep"
    unfolding d' w by (auto simp: step prev)
qed

section \<open>The maps after a write\<close>

definition update_entry :: "string \<Rightarrow> (lease \<Rightarrow> lease) \<Rightarrow> (string, lease) gomap \<Rightarrow> (string, lease) gomap" where
  "update_entry h f ls = (case mget ls h of None \<Rightarrow> ls | Some x \<Rightarrow> mput h (f x) ls)"

lemma mget_update_entry [simp]:
  "mget (update_entry h f ls) k = (if k = h then map_option f (mget ls h) else mget ls k)"
  by (auto simp: update_entry_def split: option.splits)

lemma mwf_update_entry [simp]: "mwf ls \<Longrightarrow> mwf (update_entry h f ls)"
  by (auto simp: update_entry_def split: option.splits)

lemma mwf_shift_entry [simp]: "mwf p \<Longrightarrow> mwf (shift_entry h f p)"
  by (auto simp: shift_entry_def split: option.splits)

definition settle_entry :: "lease \<Rightarrow> lease" where
  "settle_entry ls = ls\<lparr>ls_Settled := True, ls_State := LeaseSettled\<rparr>"

definition cancel_entry :: "lease \<Rightarrow> lease" where
  "cancel_entry ls = ls\<lparr>ls_State := LeaseCancelled\<rparr>"

definition unfulfill_entry :: "lease \<Rightarrow> lease" where
  "unfulfill_entry ls = ls\<lparr>ls_Settled := True, ls_State := LeaseUnfulfilled\<rparr>"

definition leases_after :: "block_commit \<Rightarrow> (string, lease) gomap \<Rightarrow> (string, lease) gomap" where
  "leases_after c ls =
     (let l1 = (case c_PutLease c of None \<Rightarrow> ls | Some x \<Rightarrow> mput (ls_LeaseHash x) x ls);
          l2 = (if c_SettleLeaseHash c \<noteq> [] then update_entry (c_SettleLeaseHash c) settle_entry l1 else l1);
          l3 = (if c_CancelLeaseHash c \<noteq> [] then update_entry (c_CancelLeaseHash c) cancel_entry l2 else l2)
      in if c_UnfulfillLeaseHash c \<noteq> [] then update_entry (c_UnfulfillLeaseHash c) unfulfill_entry l3 else l3)"

lemma m_leases_update_lease: "m_leases (update_lease h f m) = update_entry h f (m_leases m)"
  by (simp add: update_lease_def update_entry_def split: option.splits)

lemma m_leases_commit: "m_leases (commit_lease c m) = leases_after c (m_leases m)"
  unfolding commit_lease_def leases_after_def settle_entry_def cancel_entry_def unfulfill_entry_def
  by (auto simp: Let_def m_leases_update_lease split: option.splits)

lemma with_delegation_simps [simp]:
  "c_Block (with_delegation l c) = c_Block c" "c_Account (with_delegation l c) = c_Account c"
  "c_Chain (with_delegation l c) = c_Chain c" "c_FrontierHash (with_delegation l c) = c_FrontierHash c"
  "c_AddPending (with_delegation l c) = c_AddPending c"
  "c_DeletePendingID (with_delegation l c) = c_DeletePendingID c"
  "c_PutLease (with_delegation l c) = c_PutLease c"
  "c_SettleLeaseHash (with_delegation l c) = c_SettleLeaseHash c"
  "c_CancelLeaseHash (with_delegation l c) = c_CancelLeaseHash c"
  "c_UnfulfillLeaseHash (with_delegation l c) = c_UnfulfillLeaseHash c"
  "c_PutKeyset (with_delegation l c) = c_PutKeyset c"
  "c_PutAccountKey (with_delegation l c) = c_PutAccountKey c"
  "c_ExpectLeaseHash (with_delegation l c) = c_ExpectLeaseHash c"
  "c_ExpectLeaseState (with_delegation l c) = c_ExpectLeaseState c"
  "c_AssetCredit (with_delegation l c) = c_AssetCredit c"
  "c_TopUpPendingID (with_delegation l c) = c_TopUpPendingID c"
  "c_TopUpPendingAmount (with_delegation l c) = c_TopUpPendingAmount c"
  "c_ExpectLeaseEffectiveDurationSecs (with_delegation l c) = c_ExpectLeaseEffectiveDurationSecs c"
  by (simp_all add: with_delegation_def Let_def)

lemma pending_after_with [simp]: "pending_after (with_delegation l c) = pending_after c"
  unfolding pending_after_def with_delegation_simps ..

lemma leases_after_with [simp]: "leases_after (with_delegation l c) = leases_after c"
  unfolding leases_after_def with_delegation_simps ..

lemma post_commit_simps [simp, ledger_simps]:
  "l_store (post_commit c p l) = l_store l"
  "l_blockCount (post_commit c p l) = i64 (l_blockCount l + 1)"
  "l_activeCascade (post_commit c p l) = l_activeCascade l"
  "l_keysets (post_commit c p l) = l_keysets l"
  "l_reputation (post_commit c p l) = l_reputation l"
  "l_timing (post_commit c p l) = l_timing l"
  "l_delegation (post_commit c p l) = set_rep (c_Account c) (new_rep l (c_Account c) (c_Block c)) (l_delegation l)"
  by (auto simp: post_commit_def Let_def addAssetBalance_def new_rep_def split: option.splits)

text \<open>Only a settle credits a second balance, by the stake of the lease.\<close>

definition credits_nothing :: "block_commit \<Rightarrow> bool" where
  "credits_nothing c \<longleftrightarrow>
     (case c_AssetCredit c of None \<Rightarrow> True | Some d \<Rightarrow> ad_Account d = c_Account c \<and> ad_Amount d = 0)"

lemma credits_nothing_with [simp]: "credits_nothing (with_delegation l c) = credits_nothing c"
  unfolding credits_nothing_def with_delegation_simps ..

lemma getAssetBalance_post_commit:
  assumes "credits_nothing c"
  shows "getAssetBalance (post_commit c p l) a s =
    (if a = c_Account c \<and> s = assetOf (c_Block c) then blk_Balance (c_Block c) else getAssetBalance l a s)"
proof -
  have g: "getAssetBalance (l\<lparr>l_accountKeys := x\<rparr>) = getAssetBalance l"
    "getAssetBalance (l\<lparr>l_blockCount := y\<rparr>) = getAssetBalance l" for l x y
    by (rule getAssetBalance_cong, simp)+
  show ?thesis
    using assms unfolding post_commit_def Let_def credits_nothing_def
    by (auto simp: g addAssetBalance_def split: option.splits)
qed

lemma keys_post_commit:
  assumes "credits_nothing c"
  shows "keys (l_assetBalances (post_commit c p l)) = insert (c_Account c) (keys (l_assetBalances l))"
  using assms unfolding post_commit_def Let_def credits_nothing_def
  by (auto simp: addAssetBalance_def split: option.splits)

lemma balances_wf_cong: "l_assetBalances l' = l_assetBalances l \<Longrightarrow> balances_wf l' = balances_wf l"
  by (simp add: balances_wf_def)

lemma balances_wf_post_commit:
  assumes "balances_wf l"
  shows "balances_wf (post_commit c p l)"
proof -
  have b: "balances_wf (l\<lparr>l_blockCount := x\<rparr>)" for x
    using assms by (simp add: balances_wf_def)
  have k: "balances_wf l' \<Longrightarrow> balances_wf (l'\<lparr>l_accountKeys := y\<rparr>)" for l' y
    by (simp add: balances_wf_def)
  have u: "balances_wf l' \<Longrightarrow> balances_wf (updateDelegation a q bb l')" for l' a q bb
    by (simp add: balances_wf_def)
  show ?thesis
    unfolding post_commit_def Let_def
    by (auto intro!: u k b balances_wf_set simp: addAssetBalance_def split: option.splits)
qed

lemma held_post_commit:
  assumes wf: "balances_wf l" and c: "credits_nothing c"
  shows "held s (post_commit c p l) + (if s = assetOf (c_Block c) then unat (getAssetBalance l (c_Account c) s) else 0) =
         held s l + (if s = assetOf (c_Block c) then unat (blk_Balance (c_Block c)) else 0)"
proof -
  let ?l1 = "l\<lparr>l_blockCount := i64 (l_blockCount l + 1)\<rparr>"
  let ?l2 = "setAssetBalance (c_Account c) (assetOf (c_Block c)) (blk_Balance (c_Block c)) ?l1"
  have wf1: "balances_wf ?l1" and g1: "getAssetBalance ?l1 = getAssetBalance l"
    using wf by (simp_all add: balances_wf_def getAssetBalance_def fun_eq_iff)
  have h: "held s ?l2 + (if s = assetOf (c_Block c) then unat (getAssetBalance l (c_Account c) s) else 0) =
         held s l + (if s = assetOf (c_Block c) then unat (blk_Balance (c_Block c)) else 0)"
    using held_set [OF wf1, of s "c_Account c" "assetOf (c_Block c)" "blk_Balance (c_Block c)"]
      held_cong [of ?l1 l s] unfolding g1 by simp
  have z: "held s (addAssetBalance a s' 0 l') = held s l'" if "balances_wf l'" for l' a s'
    using held_set [OF that, of s a s' "getAssetBalance l' a s'"]
    by (auto simp: addAssetBalance_def split: if_splits)
  have "held s (post_commit c p l) = held s ?l2"
  proof (cases "c_AssetCredit c")
    case None
    then show ?thesis by (simp add: post_commit_def Let_def held_def)
  next
    case (Some d)
    let ?l3 = "if c_PutAccountKey c \<noteq> []
       then ?l2\<lparr>l_accountKeys := mput (c_Account c) (c_PutAccountKey c) (l_accountKeys ?l2)\<rparr> else ?l2"
    have "held s (post_commit c p l) = held s (addAssetBalance (ad_Account d) (ad_Asset d) 0 ?l3)"
      using Some c unfolding post_commit_def Let_def credits_nothing_def
      by (simp add: held_def)
    also have "\<dots> = held s ?l3" by (rule z) (use wf1 in \<open>simp add: balances_wf_def\<close>, use balances_wf_set [OF wf1] in \<open>simp add: balances_wf_def\<close>)
    also have "\<dots> = held s ?l2" by (simp add: held_def)
    finally show ?thesis .
  qed
  with h show ?thesis by simp
qed

end
