(* ===== verification/XE_Invariant.thy ===== *)
theory XE_Invariant
  imports XE_Effects
begin

text \<open>
  The invariant of the ledger and the steps that keep it. \<open>ledger_ok\<close> relates the maps of
  the store to each other and to the ledger's caches. A ledger moves by two kinds of step:
  the write of a validated block, described by \<open>commit_ok\<close>, and the undo of a lease
  acceptance that is not final. Both keep the invariant.
\<close>

section \<open>The state the invariant speaks about\<close>

definition core where
  "core l =
     (let m = l_store l
      in (m_blocks m, m_chains m, m_pending m, m_pendingByDest m, m_frontiers m, m_leases m,
          m_delegations m, m_finalHeight m, l_delegation l, l_weights l, l_assetBalances l,
          l_delegationUnderflow l, l_activeCascade l))"

section \<open>Chains\<close>

fun linked :: "string \<Rightarrow> block list \<Rightarrow> bool" where
  "linked p [] = True"
| "linked p (b # bs) \<longleftrightarrow> blk_Previous b = p \<and> linked (blk_Hash b) bs"

text \<open>The types of block that can be the first of an account.\<close>

definition opens :: "block_type \<Rightarrow> bool" where
  "opens t \<longleftrightarrow> t \<in> {BlockReceive, BlockMint, BlockGenesis, BlockMultisigOpen}"

definition chain_ok :: "mem_store \<Rightarrow> string \<Rightarrow> account_chain \<Rightarrow> bool" where
  "chain_ok m a c \<longleftrightarrow>
     c \<noteq> [] \<and> opens (blk_Type (hd c)) \<and> linked ''0'' c \<and> sorted (map blk_Timestamp c) \<and>
     distinct (map blk_Hash c) \<and>
     list_all (\<lambda>b. blk_Account b = a \<and> IsValidAsset (blk_Asset b) \<and>
       mget (m_blocks m) (blk_Hash b) = Some b) c"

definition chains_ok :: "ledger \<Rightarrow> bool" where
  "chains_ok l \<longleftrightarrow>
     (\<forall>a c. mget (m_chains (l_store l)) a = Some c \<longrightarrow> chain_ok (l_store l) a c) \<and>
     (\<forall>a. mget (m_frontiers (l_store l)) a = map_option Frontier (mget (m_chains (l_store l)) a))"

definition blocks_ok :: "ledger \<Rightarrow> bool" where
  "blocks_ok l \<longleftrightarrow>
     (\<forall>h b. mget (m_blocks (l_store l)) h = Some b \<longrightarrow>
        blk_Hash b = h \<and> h \<noteq> [] \<and> h \<noteq> ''0'' \<and> IsValidAsset (blk_Asset b))"

section \<open>Balances and delegation\<close>

definition chain_of :: "ledger \<Rightarrow> string \<Rightarrow> account_chain" where
  "chain_of l a = mdef [] (m_chains (l_store l)) a"

definition balances_ok :: "ledger \<Rightarrow> bool" where
  "balances_ok l \<longleftrightarrow>
     (\<forall>a s. IsValidAsset s \<longrightarrow> getAssetBalance l a s = assetBalanceOnChain (chain_of l a) s) \<and>
     keys (l_assetBalances l) = keys (m_chains (l_store l))"

definition rep_of :: "account_chain \<Rightarrow> string option" where
  "rep_of c = (if last_rep c = [] then None else Some (last_rep c))"

definition delegation_ok :: "ledger \<Rightarrow> bool" where
  "delegation_ok l \<longleftrightarrow>
     (\<forall>a. mget (l_delegation l) a = rep_of (chain_of l a)) \<and>
     (\<forall>a. mget (m_delegations (l_store l)) a = mget (l_delegation l) a) \<and>
     (\<forall>rep. mdef 0 (l_weights l) rep = delegated_to (xe_balance l) (l_delegation l) rep) \<and>
     l_delegationUnderflow l = 0"

section \<open>Pending sends and leases\<close>

definition live :: "lease \<Rightarrow> bool" where
  "live ls \<longleftrightarrow> ls_State ls = LeaseCreated \<or> ls_State ls = LeaseAccepted"

definition send_pending :: "block \<Rightarrow> pending_send" where
  "send_pending b =
     \<lparr>ps_SendHash = blk_Hash b, ps_Source = blk_Account b, ps_Destination = blk_Destination b,
      ps_Amount = blk_Amount b, ps_Asset = blk_Asset b\<rparr>"

text \<open>A pending send comes from a stored send, or is the escrow of a live lease.\<close>

definition pending_ok :: "ledger \<Rightarrow> bool" where
  "pending_ok l \<longleftrightarrow>
     (\<forall>h ps. mget (m_pending (l_store l)) h = Some ps \<longrightarrow>
        (\<exists>b. mget (m_blocks (l_store l)) h = Some b \<and>
           (blk_Type b = BlockSend \<and> ps = send_pending b \<or>
            blk_Type b = BlockLease \<and> (\<exists>n. ps = (send_pending b)\<lparr>ps_Amount := n\<rparr>))))"

text \<open>
  A lease comes from a stored lease block, carries no stake, and has an escrow exactly
  while it is live.
\<close>

definition lease_of :: "lease \<Rightarrow> block \<Rightarrow> bool" where
  "lease_of ls b \<longleftrightarrow>
     blk_Type b = BlockLease \<and> blk_Asset b = ''XUSD'' \<and> ls_LeaseHash ls = blk_Hash b \<and>
     ls_Consumer ls = blk_Account b \<and> ls_Provider ls = blk_Destination b \<and>
     ls_Cost ls = blk_Amount b \<and> ls_Stake ls = 0"

definition leases_ok :: "ledger \<Rightarrow> bool" where
  "leases_ok l \<longleftrightarrow>
     (\<forall>h b. mget (m_blocks (l_store l)) h = Some b \<longrightarrow> blk_Type b \<noteq> BlockLease \<longrightarrow>
        mget (m_leases (l_store l)) h = None) \<and>
     (\<forall>h ls. mget (m_leases (l_store l)) h = Some ls \<longrightarrow>
        (\<exists>b. mget (m_blocks (l_store l)) h = Some b \<and> lease_of ls b) \<and>
        (live ls \<longrightarrow> \<not> ls_Settled ls) \<and> (live ls \<longleftrightarrow> mhas (m_pending (l_store l)) h)) \<and>
     (\<forall>h b. mget (m_blocks (l_store l)) h = Some b \<longrightarrow> blk_Type b = BlockLease \<longrightarrow>
        mhas (m_pending (l_store l)) h \<longrightarrow> mhas (m_leases (l_store l)) h)"

text \<open>A pending send or escrow is released by at most one block, and is gone afterwards.\<close>

definition releases :: "block_type \<Rightarrow> bool" where
  "releases t \<longleftrightarrow> t \<in> {BlockReceive, BlockLeaseSettle, BlockLeaseCancel, BlockLeaseForceSettle}"

definition on_chain :: "ledger \<Rightarrow> block \<Rightarrow> bool" where
  "on_chain l b \<longleftrightarrow> b \<in> set (chain_of l (blk_Account b))"

definition released_once :: "ledger \<Rightarrow> bool" where
  "released_once l \<longleftrightarrow>
     (\<forall>b. on_chain l b \<longrightarrow> releases (blk_Type b) \<longrightarrow>
        mhas (m_blocks (l_store l)) (blk_Source b) \<and> \<not> mhas (m_pending (l_store l)) (blk_Source b)) \<and>
     (\<forall>b b'. on_chain l b \<longrightarrow> on_chain l b' \<longrightarrow> releases (blk_Type b) \<longrightarrow> releases (blk_Type b') \<longrightarrow>
        blk_Source b = blk_Source b' \<longrightarrow> b = b')"

definition maps_wf :: "ledger \<Rightarrow> bool" where
  "maps_wf l \<longleftrightarrow>
     mwf (m_blocks (l_store l)) \<and> mwf (m_chains (l_store l)) \<and> mwf (m_pending (l_store l)) \<and>
     mwf (m_frontiers (l_store l)) \<and> mwf (m_leases (l_store l)) \<and> mwf (m_delegations (l_store l)) \<and>
     mwf (l_delegation l) \<and> balances_wf l \<and> pending_index_ok (l_store l)"

definition ledger_ok :: "ledger \<Rightarrow> bool" where
  "ledger_ok l \<longleftrightarrow>
     maps_wf l \<and> blocks_ok l \<and> chains_ok l \<and> balances_ok l \<and> delegation_ok l \<and>
     pending_ok l \<and> leases_ok l \<and> released_once l \<and> l_activeCascade l = None"

section \<open>Writes\<close>

definition fresh :: "block \<Rightarrow> ledger \<Rightarrow> bool" where
  "fresh b l \<longleftrightarrow>
     IsValidAsset (blk_Asset b) \<and> mget (m_blocks (l_store l)) (blk_Hash b) = None \<and>
     blk_Hash b \<noteq> [] \<and> blk_Hash b \<noteq> ''0''"

text \<open>The commit of a block that extends its account's chain.\<close>

definition extends :: "ledger \<Rightarrow> block \<Rightarrow> block_commit \<Rightarrow> bool" where
  "extends l b c \<longleftrightarrow>
     c_Block c = b \<and> c_Account c = blk_Account b \<and> c_FrontierHash c = blk_Hash b \<and>
     c_Chain c = chain_of l (blk_Account b) @ [b] \<and> blk_Previous b = Frontier (chain_of l (blk_Account b)) \<and>
     (chain_of l (blk_Account b) = [] \<longrightarrow> opens (blk_Type b)) \<and>
     (chain_of l (blk_Account b) \<noteq> [] \<longrightarrow> blk_Timestamp (last (chain_of l (blk_Account b))) \<le> blk_Timestamp b) \<and>
     c_DelegationRep c = [] \<and> \<not> c_DeleteDelegation c \<and> credits_nothing c"

definition pend_part where
  "pend_part c = (c_AddPending c, c_DeletePendingID c, c_TopUpPendingID c)"

definition lease_part where
  "lease_part c = (c_PutLease c, c_SettleLeaseHash c, c_CancelLeaseHash c, c_UnfulfillLeaseHash c)"

abbreviation old_balance :: "ledger \<Rightarrow> block \<Rightarrow> u64" where
  "old_balance l b \<equiv> getAssetBalance l (blk_Account b) (blk_Asset b)"

text \<open>
  What the write of each type of block does to the pending sends, the leases and the
  balance of the account.
\<close>

inductive effect :: "ledger \<Rightarrow> block \<Rightarrow> block_commit \<Rightarrow> bool" for l b c where
  keys: "\<lbrakk>blk_Type b = BlockMultisigOpen \<or> blk_Type b = BlockMultisigUpdate;
    pend_part c = (None, [], []); lease_part c = (None, [], [], []);
    blk_Balance b = old_balance l b\<rbrakk> \<Longrightarrow> effect l b c"
| genesis: "\<lbrakk>blk_Type b = BlockGenesis; pend_part c = (None, [], []); lease_part c = (None, [], [], []);
    m_blocks (l_store l) = []; blk_Asset b = ''XE''\<rbrakk> \<Longrightarrow> effect l b c"
| burn: "\<lbrakk>blk_Type b = BlockBurn; pend_part c = (None, [], []); lease_part c = (None, [], [], []);
    blk_Asset b = ''XE''; blk_Amount b \<le> old_balance l b; blk_Balance b = old_balance l b - blk_Amount b\<rbrakk> \<Longrightarrow> effect l b c"
| mint: "\<lbrakk>blk_Type b = BlockMint; pend_part c = (None, [], []); lease_part c = (None, [], [], []);
    blk_Asset b = ''XUSD''; unat (blk_Balance b) = unat (old_balance l b) + unat (blk_Amount b)\<rbrakk> \<Longrightarrow> effect l b c"
| send: "\<lbrakk>blk_Type b = BlockSend; pend_part c = (Some (send_pending b), [], []); lease_part c = (None, [], [], []);
    blk_Amount b \<le> old_balance l b; blk_Balance b = old_balance l b - blk_Amount b\<rbrakk> \<Longrightarrow> effect l b c"
| receive: "\<lbrakk>blk_Type b = BlockReceive; blk_Source b \<noteq> []; pend_part c = (None, blk_Source b, []);
    lease_part c = (None, [], [], []); mget (m_pending (l_store l)) (blk_Source b) = Some ps;
    ps_Asset ps = blk_Asset b; ps_Destination ps = blk_Account b;
    \<And>ls. mget (m_leases (l_store l)) (blk_Source b) = Some ls \<Longrightarrow> \<not> live ls;
    unat (blk_Balance b) = unat (old_balance l b) + unat (ps_Amount ps)\<rbrakk> \<Longrightarrow> effect l b c"
| lease: "\<lbrakk>blk_Type b = BlockLease; pend_part c = (Some (send_pending b), [], []);
    lease_part c = (Some ls, [], [], []); lease_of ls b; ls_State ls = LeaseCreated; \<not> ls_Settled ls;
    blk_Amount b \<le> old_balance l b; blk_Balance b = old_balance l b - blk_Amount b\<rbrakk> \<Longrightarrow> effect l b c"
| accept: "\<lbrakk>blk_Type b = BlockLeaseAccept; blk_Asset b = ''XUSD''; blk_Source b \<noteq> []; pend_part c = (None, [], []);
    lease_part c = (Some ls', [], [], []); mget (m_leases (l_store l)) (blk_Source b) = Some ls;
    ls_State ls = LeaseCreated; mget (m_blocks (l_store l)) (blk_Source b) = Some lb; lease_of ls' lb;
    ls_State ls' = LeaseAccepted; \<not> ls_Settled ls'; ls_Provider ls' = blk_Account b;
    blk_Amount b = 0; blk_Balance b = old_balance l b\<rbrakk> \<Longrightarrow> effect l b c"
| renew: "\<lbrakk>blk_Type b = BlockLeaseRenew; blk_Asset b = ''XUSD''; blk_Source b \<noteq> [];
    pend_part c = (None, [], blk_Source b); c_TopUpPendingAmount c = blk_Amount b;
    lease_part c = (Some (ls\<lparr>ls_Renewals := rs\<rparr>), [], [], []);
    mget (m_leases (l_store l)) (blk_Source b) = Some ls; ls_State ls = LeaseAccepted;
    blk_Amount b \<le> old_balance l b; blk_Balance b = old_balance l b - blk_Amount b\<rbrakk> \<Longrightarrow> effect l b c"
| cancel: "\<lbrakk>blk_Type b = BlockLeaseCancel; blk_Asset b = ''XUSD''; blk_Source b \<noteq> [];
    pend_part c = (None, blk_Source b, []); lease_part c = (None, [], blk_Source b, []);
    mget (m_leases (l_store l)) (blk_Source b) = Some ls; ls_State ls = LeaseCreated;
    ls_Consumer ls = blk_Account b;
    blk_Balance b = old_balance l b + ls_Cost ls\<rbrakk> \<Longrightarrow> effect l b c"
| settle: "\<lbrakk>blk_Type b = BlockLeaseSettle; blk_Asset b = ''XE''; blk_Source b \<noteq> [];
    pend_part c = (None, blk_Source b, []); lease_part c = (None, blk_Source b, [], []);
    mget (m_leases (l_store l)) (blk_Source b) = Some ls; ls_State ls = LeaseAccepted;
    ls_Provider ls = blk_Account b;
    unat (blk_Balance b) = unat (old_balance l b) + unat (blk_Amount b)\<rbrakk> \<Longrightarrow> effect l b c"
| unfulfil: "\<lbrakk>blk_Type b = BlockLeaseForceSettle; blk_Asset b = ''XUSD''; blk_Source b \<noteq> [];
    pend_part c = (None, blk_Source b, []); lease_part c = (None, [], [], blk_Source b);
    mget (m_leases (l_store l)) (blk_Source b) = Some ls; ls_State ls = LeaseAccepted;
    ls_Consumer ls = blk_Account b; mget (m_pending (l_store l)) (blk_Source b) = Some ps;
    unat (blk_Balance b) = unat (old_balance l b) + unat (ps_Amount ps)\<rbrakk> \<Longrightarrow> effect l b c"

definition commit_ok :: "ledger \<Rightarrow> block \<Rightarrow> block_commit \<Rightarrow> u64 \<Rightarrow> bool" where
  "commit_ok l b c prevBalance \<longleftrightarrow>
     fresh b l \<and> extends l b c \<and> effect l b c \<and> prevBalance = getAssetBalance l (blk_Account b) ''XE''"

section \<open>The invariant depends on the core only\<close>

lemma ledger_ok_core:
  assumes "core l' = core l"
  shows "ledger_ok l' = ledger_ok l"
proof -
  have g: "getAssetBalance l' = getAssetBalance l"
    using assms by (intro getAssetBalance_cong) (simp add: core_def Let_def)
  have x: "xe_balance l' = xe_balance l" by (simp add: xe_balance_def g fun_eq_iff)
  show ?thesis
    using assms unfolding ledger_ok_def maps_wf_def blocks_ok_def chains_ok_def balances_ok_def
      delegation_ok_def pending_ok_def leases_ok_def released_once_def on_chain_def chain_of_def
      chain_ok_def balances_wf_def pending_index_ok_def g x core_def Let_def by simp
qed

section \<open>The state after a write\<close>

lemma getAssetBalance_store [simp]: "getAssetBalance (l\<lparr>l_store := m\<rparr>) = getAssetBalance l"
  by (rule getAssetBalance_cong) simp

lemma balances_wf_store [simp]: "balances_wf (l\<lparr>l_store := m\<rparr>) = balances_wf l"
  by (rule balances_wf_cong) simp

lemma held_store [simp]: "held s (l\<lparr>l_store := m\<rparr>) = held s l"
  by (rule held_cong) simp

lemma commit_result:
  assumes "l_activeCascade l = None" "commitBlockWrite c p l = (Inr (), l')"
  obtains m where "applyCommitLocked (with_delegation l c) (l_store l) = Inr m"
    "l' = post_commit (with_delegation l c) p (l\<lparr>l_store := m\<rparr>)"
  using assms by (auto simp: commitBlockWrite_def Let_def split: sum.splits)

lemma applyCommit_result:
  "applyCommitLocked c m = Inr m' \<Longrightarrow>
   m' = commit_account c (commit_lease c (commit_pending c (commit_chain c m)))"
  by (auto simp: applyCommitLocked_def split: sum.splits)

lemma written_store:
  assumes "l_activeCascade l = None" "commitBlockWrite c p l = (Inr (), l')" "c_FrontierHash c \<noteq> []"
  shows "m_blocks (l_store l') = mput (blk_Hash (c_Block c)) (c_Block c) (m_blocks (l_store l))"
    "m_chains (l_store l') = mput (c_Account c) (c_Chain c) (m_chains (l_store l))"
    "m_frontiers (l_store l') = mput (c_Account c) (c_FrontierHash c) (m_frontiers (l_store l))"
    "m_pending (l_store l') = pending_after c (m_pending (l_store l))"
    "m_leases (l_store l') = leases_after c (m_leases (l_store l))"
    "m_finalHeight (l_store l') = m_finalHeight (l_store l)"
    "l_activeCascade l' = None"
proof -
  obtain m where m: "applyCommitLocked (with_delegation l c) (l_store l) = Inr m"
    and l': "l' = post_commit (with_delegation l c) p (l\<lparr>l_store := m\<rparr>)"
    using commit_result [OF assms(1,2)] by blast
  note m' = applyCommit_result [OF m]
  show "m_blocks (l_store l') = mput (blk_Hash (c_Block c)) (c_Block c) (m_blocks (l_store l))"
    "m_chains (l_store l') = mput (c_Account c) (c_Chain c) (m_chains (l_store l))"
    "m_frontiers (l_store l') = mput (c_Account c) (c_FrontierHash c) (m_frontiers (l_store l))"
    "m_pending (l_store l') = pending_after c (m_pending (l_store l))"
    "m_leases (l_store l') = leases_after c (m_leases (l_store l))"
    "m_finalHeight (l_store l') = m_finalHeight (l_store l)"
    "l_activeCascade l' = None"
    using assms(1,3) unfolding l' m' by (simp_all add: m_leases_commit)
qed

lemma written_balance:
  assumes "l_activeCascade l = None" "commitBlockWrite c p l = (Inr (), l')" "credits_nothing c"
  shows "getAssetBalance l' a s =
      (if a = c_Account c \<and> s = assetOf (c_Block c) then blk_Balance (c_Block c) else getAssetBalance l a s)"
    "keys (l_assetBalances l') = insert (c_Account c) (keys (l_assetBalances l))"
    "balances_wf l \<Longrightarrow> balances_wf l'"
    "balances_wf l \<Longrightarrow>
       held s l' + (if s = assetOf (c_Block c) then unat (getAssetBalance l (c_Account c) s) else 0) =
       held s l + (if s = assetOf (c_Block c) then unat (blk_Balance (c_Block c)) else 0)"
proof -
  obtain m where l': "l' = post_commit (with_delegation l c) p (l\<lparr>l_store := m\<rparr>)"
    using commit_result [OF assms(1,2)] by blast
  have c: "credits_nothing (with_delegation l c)" using assms(3) by simp
  show "getAssetBalance l' a s =
      (if a = c_Account c \<and> s = assetOf (c_Block c) then blk_Balance (c_Block c) else getAssetBalance l a s)"
    unfolding l' getAssetBalance_post_commit [OF c] by simp
  show "keys (l_assetBalances l') = insert (c_Account c) (keys (l_assetBalances l))"
    unfolding l' keys_post_commit [OF c] by simp
  show "balances_wf l'" if "balances_wf l"
    unfolding l' by (rule balances_wf_post_commit) (simp add: that)
  show "held s l' + (if s = assetOf (c_Block c) then unat (getAssetBalance l (c_Account c) s) else 0) =
       held s l + (if s = assetOf (c_Block c) then unat (blk_Balance (c_Block c)) else 0)" if "balances_wf l"
    using held_post_commit [OF _ c, of "l\<lparr>l_store := m\<rparr>" s p] that
    unfolding l' with_delegation_simps getAssetBalance_store held_store balances_wf_store by simp
qed

lemma new_rep_store [simp]: "new_rep (l\<lparr>l_store := m\<rparr>) a b = new_rep l a b"
  by (simp add: new_rep_def)

lemma written_delegation:
  assumes "l_activeCascade l = None" "commitBlockWrite c p l = (Inr (), l')"
    and "c_DelegationRep c = []" "\<not> c_DeleteDelegation c"
  shows "l_delegation l' = set_rep (c_Account c) (new_rep l (c_Account c) (c_Block c)) (l_delegation l)"
    "m_delegations (l_store l') = set_rep (c_Account c) (new_rep l (c_Account c) (c_Block c)) (m_delegations (l_store l))"
proof -
  obtain m where m: "applyCommitLocked (with_delegation l c) (l_store l) = Inr m"
    and l': "l' = post_commit (with_delegation l c) p (l\<lparr>l_store := m\<rparr>)"
    using commit_result [OF assms(1,2)] by blast
  show "l_delegation l' = set_rep (c_Account c) (new_rep l (c_Account c) (c_Block c)) (l_delegation l)"
    unfolding l' by simp
  have o: "overlayDelegationRep l a = None" for a
    using assms(1) by (simp add: overlayDelegationRep_def)
  show "m_delegations (l_store l') = set_rep (c_Account c) (new_rep l (c_Account c) (c_Block c)) (m_delegations (l_store l))"
    using assms(3,4) unfolding l' applyCommit_result [OF m]
    by (auto simp: with_delegation_def Let_def o set_rep_def new_rep_def)
qed

section \<open>A write keeps the chains, the balances and the delegation\<close>

lemma linked_snoc: "linked p (c @ [b]) \<longleftrightarrow> linked p c \<and> blk_Previous b = (if c = [] then p else blk_Hash (last c))"
  by (induction c arbitrary: p) auto

lemma linked_Frontier: "linked ''0'' (c @ [b]) \<longleftrightarrow> linked ''0'' c \<and> blk_Previous b = Frontier c"
  by (auto simp: linked_snoc Frontier_def)

lemma assetBalanceOnChain_snoc:
  "assetBalanceOnChain (c @ [b]) s = (if assetOf b = s then blk_Balance b else assetBalanceOnChain c s)"
  by (simp add: assetBalanceOnChain_def)

lemma assetBalanceOnChain_Nil [simp]: "assetBalanceOnChain [] s = 0"
  by (simp add: assetBalanceOnChain_def)

lemma last_rep_snoc:
  "last_rep (c @ [b]) = (if blk_Representative b = [] then last_rep c else blk_Representative b)"
  by (simp add: last_rep_def)

lemma last_rep_Nil [simp]: "last_rep [] = []"
  by (simp add: last_rep_def)

lemma chain_of_Some: "mget (m_chains (l_store l)) a = Some c \<Longrightarrow> chain_of l a = c"
  by (simp add: chain_of_def mdef_def)

lemma chain_of_ok:
  assumes "chains_ok l" "chain_of l a \<noteq> []"
  shows "chain_ok (l_store l) a (chain_of l a)"
  using assms by (auto simp: chains_ok_def chain_of_def mdef_def split: option.splits)

lemma chain_of_None:
  assumes "chains_ok l"
  shows "mget (m_chains (l_store l)) a = None \<longleftrightarrow> chain_of l a = []"
  using assms by (auto simp: chains_ok_def chain_of_def mdef_def chain_ok_def split: option.splits)

lemma written_chain_of:
  assumes "l_activeCascade l = None" "commitBlockWrite c p l = (Inr (), l')" "commit_ok l b c p"
  shows "chain_of l' a = (if a = blk_Account b then chain_of l a @ [b] else chain_of l a)"
  using assms written_store(2) [OF assms(1,2)]
  by (auto simp: chain_of_def commit_ok_def extends_def fresh_def)

lemma sorted_map_last: "sorted (map f c) \<Longrightarrow> x \<in> set c \<Longrightarrow> f x \<le> f (last c)"
  by (induction c rule: rev_induct) (auto simp: sorted_append)

lemma chain_ok_snoc:
  assumes "c \<noteq> [] \<longrightarrow> chain_ok m a c"
    and "m_blocks m' = mput (blk_Hash b) b (m_blocks m)" "mget (m_blocks m) (blk_Hash b) = None"
    and "blk_Account b = a" "IsValidAsset (blk_Asset b)" "blk_Previous b = Frontier c"
    and "c = [] \<longrightarrow> opens (blk_Type b)" "c \<noteq> [] \<longrightarrow> blk_Timestamp (last c) \<le> blk_Timestamp b"
  shows "chain_ok m' a (c @ [b])"
proof (cases "c = []")
  case True
  then show ?thesis using assms by (simp add: chain_ok_def)
next
  case False
  with assms(1) have c: "chain_ok m a c" by simp
  have s: "mget (m_blocks m) (blk_Hash x) = Some x" if "x \<in> set c" for x
    using c that by (auto simp: chain_ok_def list_all_iff)
  have n: "blk_Hash x \<noteq> blk_Hash b" if "x \<in> set c" for x
    using s [OF that] assms(3) by auto
  have "blk_Timestamp x \<le> blk_Timestamp b" if "x \<in> set c" for x
    using sorted_map_last [of blk_Timestamp c x] c that assms(8) False by (auto simp: chain_ok_def)
  then show ?thesis
    using c False n s assms
    by (auto simp: chain_ok_def linked_Frontier sorted_append list_all_iff image_iff eq_commute dest!: n)
qed

lemma chain_ok_more_blocks:
  assumes "chain_ok m a c" "m_blocks m' = mput h b (m_blocks m)" "mget (m_blocks m) h = None"
  shows "chain_ok m' a c"
  using assms by (auto simp: chain_ok_def list_all_iff)

lemma write_chains_ok:
  assumes ok: "ledger_ok l" and w: "commitBlockWrite c p l = (Inr (), l')" and c: "commit_ok l b c p"
  shows "blocks_ok l'" "chains_ok l'"
proof -
  have n: "l_activeCascade l = None" and ch: "chains_ok l" and bl: "blocks_ok l"
    using ok by (simp_all add: ledger_ok_def)
  have f: "fresh b l" and e: "extends l b c" using c by (simp_all add: commit_ok_def)
  have fh: "c_FrontierHash c \<noteq> []" using f e by (simp add: fresh_def extends_def)
  note ws = written_store [OF n w fh]
  show "blocks_ok l'" using bl f e by (auto simp: blocks_ok_def ws fresh_def extends_def)
  have "chain_ok (l_store l') a d" if "mget (m_chains (l_store l')) a = Some d" for a d
  proof (cases "a = blk_Account b")
    case True
    have "chain_ok (l_store l') a (chain_of l a @ [b])"
      by (rule chain_ok_snoc [where m = "l_store l"])
        (use f e True chain_of_ok [OF ch] in \<open>auto simp: fresh_def extends_def ws\<close>)
    then show ?thesis using that True e by (simp add: ws extends_def)
  next
    case False
    then have "mget (m_chains (l_store l)) a = Some d" using that e by (simp add: ws extends_def)
    then have "chain_ok (l_store l) a d" using ch by (simp add: chains_ok_def)
    then show ?thesis
      by (rule chain_ok_more_blocks [where h = "blk_Hash b" and b = b])
        (use f e in \<open>auto simp: fresh_def extends_def ws\<close>)
  qed
  then show "chains_ok l'"
    using ch e f by (auto simp: chains_ok_def ws extends_def fresh_def)
qed

lemma write_balances_ok:
  assumes ok: "ledger_ok l" and w: "commitBlockWrite c p l = (Inr (), l')" and c: "commit_ok l b c p"
  shows "balances_ok l'"
proof -
  have n: "l_activeCascade l = None" and ba: "balances_ok l"
    using ok by (simp_all add: ledger_ok_def)
  have f: "fresh b l" and e: "extends l b c" using c by (simp_all add: commit_ok_def)
  have fh: "c_FrontierHash c \<noteq> []" and cr: "credits_nothing c" and as: "assetOf b = blk_Asset b"
    using f e by (simp_all add: fresh_def extends_def)
  show ?thesis
    using ba e as unfolding balances_ok_def written_chain_of [OF n w c] written_balance(1,2) [OF n w cr]
      written_store(2) [OF n w fh]
    by (auto simp: extends_def assetBalanceOnChain_snoc)
qed

lemma set_rep_get: "mget (set_rep a r d) x = (if x = a then if r = [] then None else Some r else mget d x)"
  by (simp add: set_rep_def)

lemma mwf_set_rep [simp]: "mwf d \<Longrightarrow> mwf (set_rep a r d)"
  by (simp add: set_rep_def)

lemma post_commit_weights:
  assumes wf: "mwf (l_delegation l)" "\<And>a. mget (l_delegation l) a \<noteq> Some []"
    and step: "\<And>rep. mdef 0 (l_weights l) rep = delegated_to (xe_balance l) (l_delegation l) rep"
    and c: "credits_nothing c" and p: "p = getAssetBalance l (c_Account c) ''XE''"
  shows "mdef 0 (l_weights (post_commit c p l)) rep =
         delegated_to (xe_balance (post_commit c p l)) (l_delegation (post_commit c p l)) rep"
    and "l_delegationUnderflow (post_commit c p l) = l_delegationUnderflow l"
proof -
  have "\<exists>l4. post_commit c p l = updateDelegation (c_Account c) p (c_Block c) l4 \<and>
      l_delegation l4 = l_delegation l \<and> l_weights l4 = l_weights l \<and>
      l_delegationUnderflow l4 = l_delegationUnderflow l"
    unfolding post_commit_def Let_def
    by (rule exI, rule conjI, rule refl) (auto simp: addAssetBalance_def split: option.splits)
  then obtain l4 where pc: "post_commit c p l = updateDelegation (c_Account c) p (c_Block c) l4"
    and l4: "l_delegation l4 = l_delegation l" "l_weights l4 = l_weights l"
      "l_delegationUnderflow l4 = l_delegationUnderflow l" by blast
  have g: "getAssetBalance l4 = getAssetBalance (post_commit c p l)" by (simp add: pc)
  have x: "xe_balance (post_commit c p l) = xe_balance l4" by (simp add: xe_balance_def g fun_eq_iff)
  have others: "xe_balance l4 a = xe_balance l a" if "a \<noteq> c_Account c" for a
    using that by (simp add: xe_balance_def g getAssetBalance_post_commit [OF c])
  have own: "xe_balance l (c_Account c) = (if assetOf (c_Block c) = ''XE'' then big p else xe_balance l4 (c_Account c))"
    by (simp add: xe_balance_def g getAssetBalance_post_commit [OF c] p)
  note u = updateDelegation_weights [of l4 "xe_balance l" "c_Account c" "c_Block c" p, unfolded l4,
      OF wf step xe_balance_nonneg others own]
  show "mdef 0 (l_weights (post_commit c p l)) rep =
         delegated_to (xe_balance (post_commit c p l)) (l_delegation (post_commit c p l)) rep"
    unfolding x unfolding pc by (rule u(1))
  show "l_delegationUnderflow (post_commit c p l) = l_delegationUnderflow l"
    unfolding pc by (rule u(2))
qed

lemma rep_of_not_empty: "rep_of c \<noteq> Some []"
  by (simp add: rep_of_def)

lemma xe_balance_store [simp]: "xe_balance (l\<lparr>l_store := m\<rparr>) = xe_balance l"
  by (simp add: xe_balance_def fun_eq_iff)

lemma write_delegation_ok:
  assumes ok: "ledger_ok l" and w: "commitBlockWrite c p l = (Inr (), l')" and c: "commit_ok l b c p"
  shows "delegation_ok l'"
proof -
  have n: "l_activeCascade l = None" and d: "delegation_ok l" and wf: "mwf (l_delegation l)"
    using ok by (simp_all add: ledger_ok_def maps_wf_def)
  have e: "extends l b c" and p: "p = getAssetBalance l (blk_Account b) ''XE''"
    using c by (simp_all add: commit_ok_def)
  have cr: "credits_nothing c" and dc: "c_DelegationRep c = []" "\<not> c_DeleteDelegation c"
    and bc: "c_Block c = b" "c_Account c = blk_Account b"
    using e by (simp_all add: extends_def)
  obtain m where l': "l' = post_commit (with_delegation l c) p (l\<lparr>l_store := m\<rparr>)"
    using commit_result [OF n w] by blast
  have step: "mdef 0 (l_weights (l\<lparr>l_store := m\<rparr>)) rep =
      delegated_to (xe_balance (l\<lparr>l_store := m\<rparr>)) (l_delegation (l\<lparr>l_store := m\<rparr>)) rep" for rep
    using d by (simp add: delegation_ok_def)
  have nn: "mget (l_delegation (l\<lparr>l_store := m\<rparr>)) a \<noteq> Some []" for a
    using d rep_of_not_empty by (simp add: delegation_ok_def)
  note u = post_commit_weights [of "l\<lparr>l_store := m\<rparr>" "with_delegation l c" p, OF _ nn step, folded l']
  have weights: "mdef 0 (l_weights l') rep = delegated_to (xe_balance l') (l_delegation l') rep"
    and under: "l_delegationUnderflow l' = l_delegationUnderflow l" for rep
    using u wf cr p bc by simp_all
  have old: "mdef [] (l_delegation l) a = last_rep (chain_of l a)" for a
    using d by (simp add: delegation_ok_def mdef_def rep_of_def)
  have get: "mget (l_delegation l') a = rep_of (chain_of l' a)" for a
    using d unfolding written_delegation [OF n w dc] written_chain_of [OF n w c]
    by (auto simp: set_rep_get bc new_rep_def old last_rep_snoc rep_of_def delegation_ok_def)
  have "mget (m_delegations (l_store l')) a = mget (l_delegation l') a" for a
    using d unfolding written_delegation [OF n w dc] by (simp add: set_rep_get delegation_ok_def)
  with d get weights under show ?thesis unfolding delegation_ok_def by simp
qed

section \<open>A write keeps the pending sends and the leases\<close>

lemma mwf_pending_after [simp]: "mwf p \<Longrightarrow> mwf (pending_after c p)"
  by (auto simp: pending_after_def Let_def split: option.splits)

lemma mwf_leases_after [simp]: "mwf ls \<Longrightarrow> mwf (leases_after c ls)"
  by (auto simp: leases_after_def Let_def split: option.splits)

lemma mget_pending_after:
  "mget (pending_after c p) h =
     (if h \<noteq> [] \<and> h = c_DeletePendingID c then None
      else map_option (\<lambda>ps. if h \<noteq> [] \<and> h = c_TopUpPendingID c
                           then ps\<lparr>ps_Amount := ps_Amount ps + c_TopUpPendingAmount c\<rparr> else ps)
        (case c_AddPending c of None \<Rightarrow> mget p h
         | Some ps \<Rightarrow> if h = ps_SendHash ps then Some ps else mget p h))"
  by (auto simp: pending_after_def Let_def mget_shift_entry option.map_ident split: option.splits)

lemma mget_leases_after:
  "mget (leases_after c ls) h =
     map_option (\<lambda>x. if h \<noteq> [] \<and> h = c_UnfulfillLeaseHash c then unfulfill_entry x else x)
      (map_option (\<lambda>x. if h \<noteq> [] \<and> h = c_CancelLeaseHash c then cancel_entry x else x)
        (map_option (\<lambda>x. if h \<noteq> [] \<and> h = c_SettleLeaseHash c then settle_entry x else x)
          (case c_PutLease c of None \<Rightarrow> mget ls h
           | Some x \<Rightarrow> if h = ls_LeaseHash x then Some x else mget ls h)))"
  by (auto simp: leases_after_def Let_def option.map_ident option.map_comp comp_def split: option.splits)

definition lease_op :: "block_type \<Rightarrow> bool" where
  "lease_op t \<longleftrightarrow>
     t \<in> {BlockLeaseAccept, BlockLeaseRenew, BlockLeaseCancel, BlockLeaseSettle, BlockLeaseForceSettle}"

lemma effect_pending:
  assumes "effect l b c"
  shows "mget (pending_after c p) h =
    (if (blk_Type b = BlockSend \<or> blk_Type b = BlockLease) \<and> h = blk_Hash b then Some (send_pending b)
     else if releases (blk_Type b) \<and> h = blk_Source b then None
     else if blk_Type b = BlockLeaseRenew \<and> h = blk_Source b
     then map_option (\<lambda>ps. ps\<lparr>ps_Amount := ps_Amount ps + blk_Amount b\<rparr>) (mget p h)
     else mget p h)"
  using assms
  by cases (auto simp: pend_part_def releases_def mget_pending_after send_pending_def option.map_ident)

lemma effect_source:
  assumes "effect l b c" "lease_op (blk_Type b)"
  obtains ls where "mget (m_leases (l_store l)) (blk_Source b) = Some ls" "live ls"
  using assms by cases (auto simp: lease_op_def live_def)

lemma effect_leases:
  assumes "effect l b c" "leases_ok l" "blocks_ok l"
  shows "\<not> lease_op (blk_Type b) \<Longrightarrow> blk_Type b \<noteq> BlockLease \<Longrightarrow> leases_after c L = L"
    and "blk_Type b = BlockLease \<Longrightarrow>
      \<exists>ls. lease_of ls b \<and> live ls \<and> \<not> ls_Settled ls \<and> leases_after c L = mput (blk_Hash b) ls L"
    and "lease_op (blk_Type b) \<Longrightarrow>
      \<exists>ls' lb. mget (m_blocks (l_store l)) (blk_Source b) = Some lb \<and> lease_of ls' lb \<and>
        (live ls' \<longleftrightarrow> \<not> releases (blk_Type b)) \<and> (live ls' \<longrightarrow> \<not> ls_Settled ls') \<and>
        (\<forall>h. mget (leases_after c (m_leases (l_store l))) h =
             (if h = blk_Source b then Some ls' else mget (m_leases (l_store l)) h))"
proof -
  show "leases_after c L = L" if "\<not> lease_op (blk_Type b)" "blk_Type b \<noteq> BlockLease"
    using assms(1) that by cases (auto simp: lease_part_def lease_op_def leases_after_def)
  show "\<exists>ls. lease_of ls b \<and> live ls \<and> \<not> ls_Settled ls \<and> leases_after c L = mput (blk_Hash b) ls L"
    if "blk_Type b = BlockLease"
    using assms(1) that by cases (auto simp: lease_part_def leases_after_def live_def lease_of_def)
  assume op: "lease_op (blk_Type b)"
  then obtain ls0 where ls0: "mget (m_leases (l_store l)) (blk_Source b) = Some ls0" "live ls0"
    using effect_source [OF assms(1)] by blast
  then obtain lb where lb: "mget (m_blocks (l_store l)) (blk_Source b) = Some lb" "lease_of ls0 lb"
    and s: "\<not> ls_Settled ls0"
    using assms(2) unfolding leases_ok_def by blast
  have h: "blk_Hash lb = blk_Source b" using lb(1) assms(3) by (simp add: blocks_ok_def)
  show "\<exists>ls' lb. mget (m_blocks (l_store l)) (blk_Source b) = Some lb \<and> lease_of ls' lb \<and>
        (live ls' \<longleftrightarrow> \<not> releases (blk_Type b)) \<and> (live ls' \<longrightarrow> \<not> ls_Settled ls') \<and>
        (\<forall>h. mget (leases_after c (m_leases (l_store l))) h =
             (if h = blk_Source b then Some ls' else mget (m_leases (l_store l)) h))"
    using assms(1) op
  proof cases
    case (accept ls' ls)
    then show ?thesis using lb h
      by (intro exI [of _ ls'] exI [of _ lb])
        (auto simp: lease_part_def mget_leases_after releases_def live_def lease_of_def option.map_ident)
  next
    case (renew rs ls)
    then show ?thesis using ls0 lb s h
      by (intro exI [of _ "ls\<lparr>ls_Renewals := rs\<rparr>"] exI [of _ lb])
        (auto simp: lease_part_def mget_leases_after releases_def live_def lease_of_def option.map_ident)
  next
    case (cancel ls)
    then show ?thesis using ls0 lb s h
      by (intro exI [of _ "cancel_entry ls"] exI [of _ lb])
        (auto simp: lease_part_def mget_leases_after releases_def live_def lease_of_def option.map_ident cancel_entry_def)
  next
    case (settle ls)
    then show ?thesis using ls0 lb s h
      by (intro exI [of _ "settle_entry ls"] exI [of _ lb])
        (auto simp: lease_part_def mget_leases_after releases_def live_def lease_of_def option.map_ident settle_entry_def)
  next
    case (unfulfil ls ps)
    then show ?thesis using ls0 lb s h
      by (intro exI [of _ "unfulfill_entry ls"] exI [of _ lb])
        (auto simp: lease_part_def mget_leases_after releases_def live_def lease_of_def option.map_ident unfulfill_entry_def)
  qed (auto simp: lease_op_def)
qed

lemma source_stored:
  assumes "effect l b c" "pending_ok l" "leases_ok l" "releases (blk_Type b) \<or> lease_op (blk_Type b)"
  shows "mhas (m_pending (l_store l)) (blk_Source b) \<and> mhas (m_blocks (l_store l)) (blk_Source b)"
proof (cases "lease_op (blk_Type b)")
  case True
  with effect_source [OF assms(1)] show ?thesis
    using assms(3) unfolding leases_ok_def by (metis option.distinct(1))
next
  case False
  with assms(4) have "blk_Type b = BlockReceive" by (auto simp: releases_def lease_op_def)
  then obtain ps where "mget (m_pending (l_store l)) (blk_Source b) = Some ps"
    using assms(1) by (auto elim: effect.cases)
  with assms(2) show ?thesis by (auto simp: pending_ok_def)
qed

text \<open>The facts about a write that the following lemmas share.\<close>

lemma write_facts:
  assumes "ledger_ok l" "commitBlockWrite c p l = (Inr (), l')" "commit_ok l b c p"
  shows "l_activeCascade l = None" "effect l b c" "fresh b l" "extends l b c" "c_FrontierHash c \<noteq> []"
    "m_blocks (l_store l') = mput (blk_Hash b) b (m_blocks (l_store l))"
    "m_pending (l_store l') = pending_after c (m_pending (l_store l))"
    "m_leases (l_store l') = leases_after c (m_leases (l_store l))"
    "mget (m_blocks (l_store l)) (blk_Hash b) = None"
    "mget (m_pending (l_store l)) (blk_Hash b) = None" "mget (m_leases (l_store l)) (blk_Hash b) = None"
    "releases (blk_Type b) \<or> lease_op (blk_Type b) \<Longrightarrow> blk_Source b \<noteq> blk_Hash b"
proof -
  show n: "l_activeCascade l = None" and e: "effect l b c" and f: "fresh b l" and x: "extends l b c"
    using assms by (simp_all add: ledger_ok_def commit_ok_def)
  show fh: "c_FrontierHash c \<noteq> []" and fb: "mget (m_blocks (l_store l)) (blk_Hash b) = None"
    using f x by (simp_all add: fresh_def extends_def)
  show "m_blocks (l_store l') = mput (blk_Hash b) b (m_blocks (l_store l))"
    "m_pending (l_store l') = pending_after c (m_pending (l_store l))"
    "m_leases (l_store l') = leases_after c (m_leases (l_store l))"
    using x by (simp_all add: written_store [OF n assms(2) fh] extends_def)
  show "mget (m_pending (l_store l)) (blk_Hash b) = None"
    using assms(1) fb unfolding ledger_ok_def pending_ok_def by (metis option.exhaust option.distinct(1))
  show "mget (m_leases (l_store l)) (blk_Hash b) = None"
    using assms(1) fb unfolding ledger_ok_def leases_ok_def by (metis option.exhaust option.distinct(1))
  show "blk_Source b \<noteq> blk_Hash b" if "releases (blk_Type b) \<or> lease_op (blk_Type b)"
    using source_stored [OF e _ _ that] assms(1) fb by (auto simp: ledger_ok_def)
qed

lemma write_pending_ok:
  assumes ok: "ledger_ok l" and w: "commitBlockWrite c p l = (Inr (), l')" and c: "commit_ok l b c p"
  shows "pending_ok l'"
proof -
  note wf = write_facts [OF assms]
  have po: "pending_ok l" using ok by (simp add: ledger_ok_def)
  show ?thesis
    unfolding pending_ok_def
  proof (intro allI impI)
    fix h ps assume h: "mget (m_pending (l_store l')) h = Some ps"
    show "\<exists>b. mget (m_blocks (l_store l')) h = Some b \<and>
       (blk_Type b = BlockSend \<and> ps = send_pending b \<or>
        blk_Type b = BlockLease \<and> (\<exists>n. ps = (send_pending b)\<lparr>ps_Amount := n\<rparr>))"
    proof (cases "h = blk_Hash b")
      case True
      with h wf(10,12) show ?thesis
        by (auto simp: wf(6,7) effect_pending [OF wf(2)] send_pending_def lease_op_def split: if_splits)
    next
      case False
      with h obtain ps0 where "mget (m_pending (l_store l)) h = Some ps0"
        and ps: "ps = ps0 \<or> blk_Type b = BlockLeaseRenew \<and> h = blk_Source b \<and> (\<exists>n. ps = ps0\<lparr>ps_Amount := n\<rparr>)"
        by (auto simp: wf(7) effect_pending [OF wf(2)] split: if_splits)
      moreover from this(1) obtain b0 where b0: "mget (m_blocks (l_store l)) h = Some b0"
        "blk_Type b0 = BlockSend \<and> ps0 = send_pending b0 \<or>
         blk_Type b0 = BlockLease \<and> (\<exists>n. ps0 = (send_pending b0)\<lparr>ps_Amount := n\<rparr>)"
        using po unfolding pending_ok_def by blast
      moreover have "blk_Type b0 = BlockLease" if "blk_Type b = BlockLeaseRenew" "h = blk_Source b"
        using effect_leases(3) [OF wf(2)] ok that b0(1)
        by (auto simp: ledger_ok_def lease_op_def lease_of_def)
      ultimately show ?thesis using False by (auto simp: wf(6) send_pending_def)
    qed
  qed
qed

lemma write_maps_wf:
  assumes ok: "ledger_ok l" and w: "commitBlockWrite c p l = (Inr (), l')" and c: "commit_ok l b c p"
  shows "maps_wf l'"
proof -
  note wf = write_facts [OF assms]
  have m: "maps_wf l" using ok by (simp add: ledger_ok_def)
  have x: "credits_nothing c" "c_DelegationRep c = []" "\<not> c_DeleteDelegation c"
    using wf(4) by (simp_all add: extends_def)
  obtain m' where a: "applyCommitLocked (with_delegation l c) (l_store l) = Inr m'" and "l_store l' = m'"
    by (rule commit_result [OF wf(1) w]) simp
  moreover have "ps_SendHash ps = blk_Hash b" if "c_AddPending c = Some ps" for ps
    using wf(2) that by cases (auto simp: pend_part_def send_pending_def)
  then have "mget (m_pending (l_store l)) (ps_SendHash ps) = None" if "c_AddPending c = Some ps" for ps
    using that wf(10) by simp
  ultimately have "pending_index_ok (l_store l')"
    using index_commit [OF _ a] m by (simp add: maps_wf_def)
  with m show ?thesis
    unfolding maps_wf_def
    by (simp add: written_store [OF wf(1) w wf(5)] written_delegation [OF wf(1) w x(2,3)]
        written_balance(3) [OF wf(1) w x(1)])
qed

lemma pending_dom_after:
  assumes "effect l b c" "releases (blk_Type b) \<or> lease_op (blk_Type b) \<longrightarrow> blk_Source b \<noteq> blk_Hash b"
  shows "mget (pending_after c p) h = None \<longleftrightarrow>
    (if h = blk_Hash b then blk_Type b \<noteq> BlockSend \<and> blk_Type b \<noteq> BlockLease \<and> mget p h = None
     else mget p h = None \<or> releases (blk_Type b) \<and> h = blk_Source b)"
  using assms(2) unfolding effect_pending [OF assms(1)]
  by (auto simp: releases_def lease_op_def split: if_splits)

lemma write_leases_ok:
  assumes ok: "ledger_ok l" and w: "commitBlockWrite c p l = (Inr (), l')" and c: "commit_ok l b c p"
  shows "leases_ok l'"
proof -
  note wf = write_facts [OF assms]
  have lo: "leases_ok l" and bo: "blocks_ok l" using ok by (simp_all add: ledger_ok_def)
  note el = effect_leases [OF wf(2) lo bo]
  have sh: "releases (blk_Type b) \<or> lease_op (blk_Type b) \<longrightarrow> blk_Source b \<noteq> blk_Hash b"
    using wf(12) by blast
  note dom = pending_dom_after [OF wf(2) sh]
  have new: "mget (m_leases (l_store l')) (blk_Hash b) = None" if "blk_Type b \<noteq> BlockLease"
    using el(1) [of "m_leases (l_store l)"] el(3) wf(11,12) that
    by (cases "lease_op (blk_Type b)") (auto simp: wf(8))
  have old: "mhas (m_leases (l_store l')) h \<longleftrightarrow> mhas (m_leases (l_store l)) h" if "h \<noteq> blk_Hash b" for h
  proof (cases "lease_op (blk_Type b)")
    case True
    then obtain ls where "mget (m_leases (l_store l)) (blk_Source b) = Some ls"
      using effect_source [OF wf(2)] by blast
    moreover obtain ls' where "mget (m_leases (l_store l')) h =
        (if h = blk_Source b then Some ls' else mget (m_leases (l_store l)) h)" for h
      using el(3) [OF True] unfolding wf(8) by blast
    ultimately show ?thesis by simp
  next
    case False
    with el(1) [of "m_leases (l_store l)"] el(2) [of "m_leases (l_store l)"] that show ?thesis
      by (cases "blk_Type b = BlockLease") (auto simp: wf(8))
  qed
  have one: "(\<exists>b. mget (m_blocks (l_store l')) h = Some b \<and> lease_of ls b) \<and>
      (live ls \<longrightarrow> \<not> ls_Settled ls) \<and> (live ls \<longleftrightarrow> mhas (m_pending (l_store l')) h)"
    if h: "mget (m_leases (l_store l')) h = Some ls" for h ls
  proof (cases "blk_Type b = BlockLease \<and> h = blk_Hash b")
    case True
    with el(2) [of "m_leases (l_store l)"] h show ?thesis by (auto simp: wf(6-8) dom iff del: not_None_eq)
  next
    case False
    then have hb: "h \<noteq> blk_Hash b" using new h by auto
    show ?thesis
    proof (cases "lease_op (blk_Type b) \<and> h = blk_Source b")
      case True
      moreover have "mhas (m_pending (l_store l)) h"
        using source_stored [OF wf(2) _ lo] True ok by (simp add: ledger_ok_def)
      ultimately show ?thesis using el(3) h hb by (auto simp: wf(6-8) dom iff del: not_None_eq)
    next
      case F: False
      then have "mget (m_leases (l_store l)) h = Some ls"
        using el(1) [of "m_leases (l_store l)"] el(2) [of "m_leases (l_store l)"] el(3) h hb
        by (cases "lease_op (blk_Type b)"; cases "blk_Type b = BlockLease") (auto simp: wf(8))
      moreover have "\<not> live ls" if "blk_Type b = BlockReceive" "h = blk_Source b"
        using wf(2) that calculation by cases auto
      moreover have "blk_Type b = BlockReceive" if "releases (blk_Type b)" "h = blk_Source b"
        using that F by (auto simp: releases_def lease_op_def)
      ultimately show ?thesis using lo hb by (auto simp: leases_ok_def wf(6,7) dom iff del: not_None_eq)
    qed
  qed
  show ?thesis
    unfolding leases_ok_def
  proof (intro conjI allI impI)
    show "mget (m_leases (l_store l')) h = None"
      if "mget (m_blocks (l_store l')) h = Some b'" "blk_Type b' \<noteq> BlockLease" for h b'
      using that new old [of h] lo by (cases "h = blk_Hash b") (auto simp: wf(6) leases_ok_def)
    show "mhas (m_leases (l_store l')) h"
      if "mget (m_blocks (l_store l')) h = Some b'" "blk_Type b' = BlockLease" "mhas (m_pending (l_store l')) h" for h b'
      using that el(2) [of "m_leases (l_store l)"] old [of h] lo
      by (cases "h = blk_Hash b") (auto simp: wf(6-8) dom leases_ok_def iff del: not_None_eq)
  qed (use one in blast)+
qed

lemma write_on_chain:
  assumes "l_activeCascade l = None" "commitBlockWrite c p l = (Inr (), l')" "commit_ok l b c p"
  shows "on_chain l' x \<longleftrightarrow> on_chain l x \<or> x = b"
  by (auto simp: on_chain_def written_chain_of [OF assms])

lemma write_released_once:
  assumes ok: "ledger_ok l" and w: "commitBlockWrite c p l = (Inr (), l')" and c: "commit_ok l b c p"
  shows "released_once l'"
proof -
  note wf = write_facts [OF assms]
  have r: "released_once l" using ok by (simp add: ledger_ok_def)
  have sh: "releases (blk_Type b) \<or> lease_op (blk_Type b) \<longrightarrow> blk_Source b \<noteq> blk_Hash b"
    using wf(12) by blast
  note dom = pending_dom_after [OF wf(2) sh]
  note oc = write_on_chain [OF wf(1) w c]
  have s: "mhas (m_pending (l_store l)) (blk_Source b) \<and> mhas (m_blocks (l_store l)) (blk_Source b)"
    if "releases (blk_Type b)"
    using source_stored [OF wf(2)] that ok by (simp add: ledger_ok_def)
  have n: "blk_Source x \<noteq> blk_Source b" if "on_chain l x" "releases (blk_Type x)" "releases (blk_Type b)" for x
    using r that s by (auto simp: released_once_def)
  have old: "mhas (m_blocks (l_store l)) (blk_Source x) \<and> \<not> mhas (m_pending (l_store l)) (blk_Source x)"
    if "on_chain l x" "releases (blk_Type x)" for x
    using r that by (simp add: released_once_def)
  show ?thesis
    unfolding released_once_def
  proof (intro conjI allI impI)
    fix x assume x: "on_chain l' x" "releases (blk_Type x)"
    show "mhas (m_blocks (l_store l')) (blk_Source x)"
      using x old [of x] s by (auto simp: oc wf(6))
    show "\<not> mhas (m_pending (l_store l')) (blk_Source x)"
      using x old [of x] s wf(9,12) by (auto simp: oc wf(7) dom iff del: not_None_eq)
  next
    fix x y assume "on_chain l' x" "on_chain l' y" "releases (blk_Type x)" "releases (blk_Type y)"
      "blk_Source x = blk_Source y"
    then show "x = y"
      using r n [of x] n [of y] unfolding oc released_once_def by metis
  qed
qed

lemma write_ledger_ok:
  assumes "ledger_ok l" "commitBlockWrite c p l = (Inr (), l')" "commit_ok l b c p"
  shows "ledger_ok l'"
  unfolding ledger_ok_def
  using write_chains_ok [OF assms] write_balances_ok [OF assms] write_delegation_ok [OF assms]
    write_pending_ok [OF assms] write_maps_wf [OF assms] write_leases_ok [OF assms]
    write_released_once [OF assms] written_store(7) [OF write_facts(1) [OF assms] assms(2) write_facts(5) [OF assms]]
  by simp

end
