(* ===== verification/XE_Undo.thy ===== *)
theory XE_Undo
  imports XE_Invariant
begin

text \<open>
  What taking back the last block of a chain does to the ledger: \<open>buildBlockUndo\<close> followed
  by the store's undo and the repair of the caches. The chains, the balance cache and the
  delegated weights end up as if the block had never been written; undoing a lease
  acceptance keeps the whole invariant.
\<close>

section \<open>The fields of an undo\<close>

lemma undo_shape:
  assumes "buildBlockUndo l a b (Some c) = Inr (u, ap)"
  shows "c \<noteq> []" "blk_Hash (last c) = blk_Hash b" "u_Account u = a" "u_Chain u = butlast c"
    "u_FrontierHash u = Frontier (butlast c)" "u_DeleteAccount u \<longleftrightarrow> butlast c = []"
    "u_RestoreDelegation u" "u_PrevRep u = last_rep (butlast c)"
    "u_AddPending u = undo_AddPending l b" "u_RestoreLease u = undo_RestoreLease l b"
    "u_DeletePendingID u = (if blk_Type b = BlockSend \<or> blk_Type b = BlockLease then blk_Hash b else [])"
    "u_DeleteLeaseHash u = (if blk_Type b = BlockLease then blk_Hash b else [])"
    "u_ReducePendingID u = (if blk_Type b = BlockLeaseRenew then blk_Source b else [])"
    "ua_account ap = a" "ua_asset ap = assetOf b"
    "ua_parentBal ap = (if blk_Previous b \<noteq> ''0''
       then if assetOf b = ''XUSD'' then xusdBalanceOnChain (l_store l) (butlast c)
            else assetBalanceOnChain (butlast c) (assetOf b) else 0)"
    "ua_xeBefore ap = assetBalanceOnChain c ''XE''" "ua_xeAfter ap = assetBalanceOnChain (butlast c) ''XE''"
    "ua_prevRep ap = last_rep (butlast c)" "ua_deleteAccount ap \<longleftrightarrow> butlast c = []"
    "ua_assetDebit ap = (case undo_RestoreLease l b of
       Some rl \<Rightarrow> if blk_Type b = BlockLeaseSettle
                  then Some \<lparr>ad_Account = blk_Account b, ad_Asset = ''XUSD'', ad_Amount = ls_Stake rl\<rparr> else None
     | None \<Rightarrow> None)"
    "reverses_lease (blk_Type b) \<Longrightarrow> undo_RestoreLease l b \<noteq> None"
proof -
  have g: "c \<noteq> []" "blk_Hash (last c) = blk_Hash b" "blk_Type b \<noteq> BlockMultisigUpdate"
    "\<not> (reverses_lease (blk_Type b) \<and> undo_RestoreLease l b = None)"
    using assms by (auto simp: buildBlockUndo_def Let_def split: if_splits)
  have r: "(c = [] \<or> blk_Hash (last c) \<noteq> blk_Hash b) = False" "(blk_Type b = BlockMultisigUpdate) = False"
    "(reverses_lease (blk_Type b) \<and> undo_RestoreLease l b = None) = False"
    using g by simp_all
  note e = assms [unfolded buildBlockUndo_def option.case Let_def r if_False, THEN sum.inject(2) [THEN iffD1],
      unfolded prod.inject]
  note ue = e [THEN conjunct1, symmetric] and ae = e [THEN conjunct2, symmetric]
  show "c \<noteq> []" "blk_Hash (last c) = blk_Hash b" "reverses_lease (blk_Type b) \<Longrightarrow> undo_RestoreLease l b \<noteq> None"
    using g by simp_all
  show "u_Account u = a" "u_Chain u = butlast c"
    "u_FrontierHash u = Frontier (butlast c)" "u_DeleteAccount u \<longleftrightarrow> butlast c = []"
    "u_RestoreDelegation u" "u_PrevRep u = last_rep (butlast c)"
    "u_AddPending u = undo_AddPending l b" "u_RestoreLease u = undo_RestoreLease l b"
    "u_DeletePendingID u = (if blk_Type b = BlockSend \<or> blk_Type b = BlockLease then blk_Hash b else [])"
    "u_DeleteLeaseHash u = (if blk_Type b = BlockLease then blk_Hash b else [])"
    "u_ReducePendingID u = (if blk_Type b = BlockLeaseRenew then blk_Source b else [])"
    unfolding ue by simp_all
  show "ua_account ap = a" "ua_asset ap = assetOf b"
    "ua_parentBal ap = (if blk_Previous b \<noteq> ''0''
       then if assetOf b = ''XUSD'' then xusdBalanceOnChain (l_store l) (butlast c)
            else assetBalanceOnChain (butlast c) (assetOf b) else 0)"
    "ua_xeBefore ap = assetBalanceOnChain c ''XE''" "ua_xeAfter ap = assetBalanceOnChain (butlast c) ''XE''"
    "ua_prevRep ap = last_rep (butlast c)" "ua_deleteAccount ap \<longleftrightarrow> butlast c = []"
    "ua_assetDebit ap = (case undo_RestoreLease l b of
       Some rl \<Rightarrow> if blk_Type b = BlockLeaseSettle
                  then Some \<lparr>ad_Account = blk_Account b, ad_Asset = ''XUSD'', ad_Amount = ls_Stake rl\<rparr> else None
     | None \<Rightarrow> None)"
    unfolding ae by simp_all
qed

section \<open>The store after an undo\<close>

lemma undo_chain_simps [simp]:
  "m_blocks (undo_chain u m) = m_blocks m" "m_pending (undo_chain u m) = m_pending m"
  "m_pendingByDest (undo_chain u m) = m_pendingByDest m" "m_leases (undo_chain u m) = m_leases m"
  "m_delegations (undo_chain u m) = m_delegations m" "m_finalHeight (undo_chain u m) = m_finalHeight m"
  by (simp_all add: undo_chain_def)

lemma undo_pending_simps [simp]:
  "m_blocks (undo_pending u m) = m_blocks m" "m_chains (undo_pending u m) = m_chains m"
  "m_frontiers (undo_pending u m) = m_frontiers m" "m_leases (undo_pending u m) = m_leases m"
  "m_delegations (undo_pending u m) = m_delegations m" "m_finalHeight (undo_pending u m) = m_finalHeight m"
  by (auto simp: undo_pending_def Let_def split: option.splits)

lemma undo_account_simps [simp]:
  "m_blocks (undo_account u m) = m_blocks m" "m_chains (undo_account u m) = m_chains m"
  "m_frontiers (undo_account u m) = m_frontiers m" "m_pending (undo_account u m) = m_pending m"
  "m_pendingByDest (undo_account u m) = m_pendingByDest m" "m_finalHeight (undo_account u m) = m_finalHeight m"
  by (simp_all add: undo_account_def)

lemma applyUndo_simps:
  "m_blocks (applyUndoLocked u m) = m_blocks m" "m_finalHeight (applyUndoLocked u m) = m_finalHeight m"
  "m_chains (applyUndoLocked u m) =
     (if u_DeleteAccount u then mdel (u_Account u) (m_chains m) else mput (u_Account u) (u_Chain u) (m_chains m))"
  "m_frontiers (applyUndoLocked u m) =
     (if u_DeleteAccount u then mdel (u_Account u) (m_frontiers m) else mput (u_Account u) (u_FrontierHash u) (m_frontiers m))"
  "u_RestoreDelegation u \<Longrightarrow>
   m_delegations (applyUndoLocked u m) = set_rep (u_Account u) (u_PrevRep u) (m_delegations m)"
  by (simp_all add: applyUndoLocked_def undo_chain_def undo_account_def set_rep_def)

section \<open>The caches after an undo\<close>

lemma reputation_Revert_simps [simp]:
  "core (reputation_Revert ev l) = core l" "getAssetBalance (reputation_Revert ev l) = getAssetBalance l"
  by (simp_all add: reputation_Revert_def core_def Let_def getAssetBalance_def fun_eq_iff)

lemma reputation_Apply_simps [simp]:
  "core (reputation_Apply ev l) = core l" "getAssetBalance (reputation_Apply ev l) = getAssetBalance l"
  by (simp_all add: reputation_Apply_def core_def Let_def getAssetBalance_def fun_eq_iff)

lemma undo_delegation_simps [simp]:
  "l_store (undo_delegation ap l) = l_store l" "l_assetBalances (undo_delegation ap l) = l_assetBalances l"
  "l_activeCascade (undo_delegation ap l) = l_activeCascade l"
  "l_delegationUnderflow (undo_delegation ap l) = l_delegationUnderflow l"
  "l_delegation (undo_delegation ap l) = set_rep (ua_account ap) (ua_prevRep ap) (l_delegation l)"
  by (auto simp: undo_delegation_def Let_def set_rep_def split: option.splits)

lemma undo_delegation_weights:
  assumes wf: "mwf (l_delegation l)" "\<And>a. mget (l_delegation l) a \<noteq> Some []"
    and step: "\<And>rep. mdef 0 (l_weights l) rep = delegated_to bal (l_delegation l) rep"
    and nonneg: "\<And>x. 0 \<le> bal x"
    and others: "\<And>x. x \<noteq> ua_account ap \<Longrightarrow> bal' x = bal x"
    and own: "bal (ua_account ap) = big (ua_xeBefore ap)" "bal' (ua_account ap) = big (ua_xeAfter ap)"
  shows "mdef 0 (l_weights (undo_delegation ap l)) rep = delegated_to bal' (l_delegation (undo_delegation ap l)) rep"
proof -
  define curRep where "curRep = mdef [] (l_delegation l) (ua_account ap)"
  have old: "mget (l_delegation l) (ua_account ap) = (if curRep = [] then None else Some curRep)"
    using wf(2) [of "ua_account ap"] by (auto simp: curRep_def mdef_def split: option.splits)
  have enough: "big (ua_xeBefore ap) \<le> mdef 0 (l_weights l) curRep" if "curRep \<noteq> []"
    using delegated_to_ge [of bal "l_delegation l" "ua_account ap" curRep, OF nonneg] that old by (simp add: step own)
  define w1 where "w1 = (if curRep \<noteq> [] then case mget (l_weights l) curRep of None \<Rightarrow> l_weights l
      | Some w \<Rightarrow> mput curRep (max 0 (w - big (ua_xeBefore ap))) (l_weights l) else l_weights l)"
  have w1: "mdef 0 w1 rep = mdef 0 (l_weights l) rep - (if curRep \<noteq> [] \<and> rep = curRep then big (ua_xeBefore ap) else 0)" for rep
    using enough antisym [OF _ big_nonneg] by (auto simp: w1_def mdef_def split: option.splits)
  have w: "l_weights (undo_delegation ap l) = (if ua_prevRep ap \<noteq> []
      then mput (ua_prevRep ap) (mdef 0 w1 (ua_prevRep ap) + big (ua_xeAfter ap)) w1 else w1)"
    unfolding undo_delegation_def Let_def curRep_def [symmetric]
    by (auto simp: w1_def split: option.splits)
  have d': "delegated_to bal' (l_delegation (undo_delegation ap l)) rep =
      delegated_to bal (l_delegation l) rep - (if curRep \<noteq> [] \<and> curRep = rep then bal (ua_account ap) else 0)
      + (if ua_prevRep ap \<noteq> [] \<and> ua_prevRep ap = rep then bal' (ua_account ap) else 0)"
    using delegated_to_balance [OF wf(1), of "ua_account ap" bal' bal rep] others old
    by (auto simp: set_rep_def delegated_to_mput [OF wf(1)] delegated_to_mdel [OF wf(1)])
  show ?thesis unfolding d' w by (auto simp: w1 step own)
qed

lemma subAssetBalance_0:
  "getAssetBalance (subAssetBalance a s 0 l) = getAssetBalance l"
  "keys (l_assetBalances (subAssetBalance a s 0 l)) = keys (l_assetBalances l)"
  "balances_wf l \<Longrightarrow> balances_wf (subAssetBalance a s 0 l)"
  by (auto simp: subAssetBalance_def fun_eq_iff keys_iff)

lemma subAssetBalance_simps [simp]:
  "l_store (subAssetBalance a s v l) = l_store l" "l_delegation (subAssetBalance a s v l) = l_delegation l"
  "l_weights (subAssetBalance a s v l) = l_weights l" "l_activeCascade (subAssetBalance a s v l) = l_activeCascade l"
  "l_delegationUnderflow (subAssetBalance a s v l) = l_delegationUnderflow l"
  by (simp_all add: subAssetBalance_def)

lemma deleteAccountBalances_simps [simp]:
  "l_store (deleteAccountBalances a l) = l_store l" "l_delegation (deleteAccountBalances a l) = l_delegation l"
  "l_weights (deleteAccountBalances a l) = l_weights l" "l_activeCascade (deleteAccountBalances a l) = l_activeCascade l"
  "l_delegationUnderflow (deleteAccountBalances a l) = l_delegationUnderflow l"
  "getAssetBalance (deleteAccountBalances a l) x s = (if x = a then 0 else getAssetBalance l x s)"
  "keys (l_assetBalances (deleteAccountBalances a l)) = keys (l_assetBalances l) - {a}"
  by (simp_all add: deleteAccountBalances_def getAssetBalance_def)

definition debits_nothing :: "undo_apply \<Rightarrow> bool" where
  "debits_nothing ap \<longleftrightarrow> (case ua_assetDebit ap of None \<Rightarrow> True | Some d \<Rightarrow> ad_Amount d = 0)"

text \<open>The state in which \<open>run_apply\<close> repairs the delegation.\<close>

lemma run_apply_core:
  assumes "debits_nothing ap"
  obtains l4 where "core (run_apply ap l) = core (undo_delegation ap l4)"
    "l_store l4 = l_store l" "l_delegation l4 = l_delegation l" "l_weights l4 = l_weights l"
    "l_activeCascade l4 = l_activeCascade l" "l_delegationUnderflow l4 = l_delegationUnderflow l"
    "balances_wf l \<Longrightarrow> balances_wf l4"
    "\<And>x s. getAssetBalance l4 x s =
       (if x = ua_account ap \<and> ua_deleteAccount ap then 0
        else if x = ua_account ap \<and> s = ua_asset ap then ua_parentBal ap else getAssetBalance l x s)"
    "keys (l_assetBalances l4) =
       (if ua_deleteAccount ap then keys (l_assetBalances l) - {ua_account ap}
        else insert (ua_account ap) (keys (l_assetBalances l)))"
proof -
  define l2 where "l2 = (let l1 = (if ua_deleteKeysetAccount ap \<noteq> []
                then l\<lparr>l_keysets := mdel (ua_deleteKeysetAccount ap) (l_keysets l)\<rparr> else l)
    in if ua_deleteAccountKeyAccount ap \<noteq> []
       then l1\<lparr>l_accountKeys := mdel (ua_deleteAccountKeyAccount ap) (l_accountKeys l1)\<rparr> else l1)"
  have l2: "l_store l2 = l_store l" "l_delegation l2 = l_delegation l" "l_weights l2 = l_weights l"
    "l_activeCascade l2 = l_activeCascade l" "l_delegationUnderflow l2 = l_delegationUnderflow l"
    "l_assetBalances l2 = l_assetBalances l"
    by (simp_all add: l2_def Let_def)
  have g2: "getAssetBalance l2 = getAssetBalance l" by (rule getAssetBalance_cong) (rule l2)
  define l3 where "l3 = (if ua_deleteAccount ap then deleteAccountBalances (ua_account ap) l2
                else setAssetBalance (ua_account ap) (ua_asset ap) (ua_parentBal ap) l2)"
  define l4 where "l4 = (case ua_assetDebit ap of None \<Rightarrow> l3
      | Some d \<Rightarrow> subAssetBalance (ad_Account d) (ad_Asset d) (ad_Amount d) l3)"
  have l4: "l_store l4 = l_store l" "l_delegation l4 = l_delegation l" "l_weights l4 = l_weights l"
    "l_activeCascade l4 = l_activeCascade l" "l_delegationUnderflow l4 = l_delegationUnderflow l"
    by (simp_all add: l4_def l3_def l2 split: option.splits)
  have d: "getAssetBalance l4 = getAssetBalance l3" "keys (l_assetBalances l4) = keys (l_assetBalances l3)"
    "balances_wf l3 \<Longrightarrow> balances_wf l4"
    using assms by (auto simp: l4_def debits_nothing_def subAssetBalance_0 split: option.splits)
  have "core (run_apply ap l) = core (undo_delegation ap l4)"
    unfolding run_apply_def Let_def by (auto simp: l4_def l3_def l2_def Let_def split: option.splits)
  moreover have "balances_wf l4" if "balances_wf l"
    using that balances_wf_cong [OF l2(6)] by (intro d) (simp add: l3_def)
  moreover have "getAssetBalance l4 x s =
       (if x = ua_account ap \<and> ua_deleteAccount ap then 0
        else if x = ua_account ap \<and> s = ua_asset ap then ua_parentBal ap else getAssetBalance l x s)" for x s
    by (auto simp: d l3_def g2)
  moreover have "keys (l_assetBalances l4) =
       (if ua_deleteAccount ap then keys (l_assetBalances l) - {ua_account ap}
        else insert (ua_account ap) (keys (l_assetBalances l)))"
    by (simp add: d l3_def l2)
  ultimately show ?thesis using that l4 by blast
qed

section \<open>Chains, balances and delegation after an undo\<close>

definition undone :: "block_undo \<Rightarrow> undo_apply \<Rightarrow> ledger \<Rightarrow> ledger" where
  "undone u ap l = run_apply ap (l\<lparr>l_store := applyUndoLocked u (l_store l)\<rparr>)"

text \<open>No lease carries a stake, so the stakes returned by settle blocks add nothing.\<close>

lemma settle_stake_0: "leases_ok l \<Longrightarrow> settle_stake (l_store l) b = 0"
  by (auto simp: settle_stake_def leases_ok_def lease_of_def store_GetLease_def split: option.splits)

lemma xusdBalanceOnChain_eq:
  assumes "leases_ok l"
  shows "xusdBalanceOnChain (l_store l) c = assetBalanceOnChain c ''XUSD''"
  by (simp add: xusdBalanceOnChain_def assetBalanceOnChain_def settle_stake_0 [OF assms])

lemma undo_debits_nothing:
  assumes "buildBlockUndo l a b (Some c) = Inr (u, ap)" "leases_ok l"
  shows "debits_nothing ap"
  using assms(2) undo_shape(21) [OF assms(1)]
  by (auto simp: debits_nothing_def undo_RestoreLease_def priorLease_def leases_ok_def lease_of_def
      store_GetLease_def Let_def split: option.splits if_splits)

lemma core_eqD:
  assumes "core l' = core l"
  shows "m_blocks (l_store l') = m_blocks (l_store l)" "m_chains (l_store l') = m_chains (l_store l)"
    "m_pending (l_store l') = m_pending (l_store l)" "m_pendingByDest (l_store l') = m_pendingByDest (l_store l)"
    "m_frontiers (l_store l') = m_frontiers (l_store l)" "m_leases (l_store l') = m_leases (l_store l)"
    "m_delegations (l_store l') = m_delegations (l_store l)" "m_finalHeight (l_store l') = m_finalHeight (l_store l)"
    "l_delegation l' = l_delegation l" "l_weights l' = l_weights l" "l_assetBalances l' = l_assetBalances l"
    "l_delegationUnderflow l' = l_delegationUnderflow l" "l_activeCascade l' = l_activeCascade l"
    "getAssetBalance l' = getAssetBalance l" "chain_of l' = chain_of l" "balances_wf l' = balances_wf l"
  using assms by (simp_all add: core_def Let_def getAssetBalance_def chain_of_def balances_wf_def fun_eq_iff)

lemma butlast_chain_ok:
  assumes "chain_ok m a c" "butlast c \<noteq> []" "m_blocks m' = m_blocks m"
  shows "chain_ok m' a (butlast c)"
proof -
  have c: "c = butlast c @ [last c]" using assms(1) by (simp add: chain_ok_def)
  have "linked ''0'' (butlast c)"
    using assms(1) linked_Frontier [of "butlast c" "last c"] c by (simp add: chain_ok_def)
  moreover have "sorted (map blk_Timestamp (butlast c))" "distinct (map blk_Hash (butlast c))"
    using assms(1) by (simp_all add: chain_ok_def map_butlast sorted_butlast distinct_butlast)
  moreover have "hd (butlast c) = hd c" using assms(2) c by (metis hd_append2)
  ultimately show ?thesis
    using assms by (auto simp: chain_ok_def list_all_iff dest: in_set_butlastD)
qed

text \<open>The facts about an undo of the tip of a chain that the following lemmas share.\<close>

lemma undone_facts:
  assumes ok: "ledger_ok l" and ch: "mget (m_chains (l_store l)) a = Some c" and b: "b = last c"
    and u: "buildBlockUndo l a b (Some c) = Inr (u, ap)"
  shows "m_blocks (l_store (undone u ap l)) = m_blocks (l_store l)"
    "m_finalHeight (l_store (undone u ap l)) = m_finalHeight (l_store l)"
    "l_activeCascade (undone u ap l) = None" "balances_wf (undone u ap l)"
    "l_delegationUnderflow (undone u ap l) = 0"
    "chain_of (undone u ap l) x = (if x = a then butlast c else chain_of l x)"
    "getAssetBalance (undone u ap l) x s =
       (if x = a \<and> (butlast c = [] \<or> s = assetOf b) then assetBalanceOnChain (butlast c) s else getAssetBalance l x s)"
    "keys (l_assetBalances (undone u ap l)) =
       (if butlast c = [] then keys (l_assetBalances l) - {a} else insert a (keys (l_assetBalances l)))"
    "l_delegation (undone u ap l) = set_rep a (last_rep (butlast c)) (l_delegation l)"
    "m_delegations (l_store (undone u ap l)) = set_rep a (last_rep (butlast c)) (m_delegations (l_store l))"
    "mdef 0 (l_weights (undone u ap l)) rep = delegated_to (xe_balance (undone u ap l)) (l_delegation (undone u ap l)) rep"
    "m_pending (l_store (undone u ap l)) = m_pending (applyUndoLocked u (l_store l))"
    "m_pendingByDest (l_store (undone u ap l)) = m_pendingByDest (applyUndoLocked u (l_store l))"
    "m_leases (l_store (undone u ap l)) = m_leases (applyUndoLocked u (l_store l))"
    "m_chains (l_store (undone u ap l)) = m_chains (applyUndoLocked u (l_store l))"
    "m_frontiers (l_store (undone u ap l)) = m_frontiers (applyUndoLocked u (l_store l))"
proof -
  note us = undo_shape [OF u]
  have lo: "leases_ok l" and dn: "debits_nothing ap"
    using ok undo_debits_nothing [OF u] by (simp_all add: ledger_ok_def)
  let ?l0 = "l\<lparr>l_store := applyUndoLocked u (l_store l)\<rparr>"
  obtain l4 where c4: "core (run_apply ap ?l0) = core (undo_delegation ap l4)"
    and l4: "l_store l4 = l_store ?l0" "l_delegation l4 = l_delegation ?l0" "l_weights l4 = l_weights ?l0"
    "l_activeCascade l4 = l_activeCascade ?l0" "l_delegationUnderflow l4 = l_delegationUnderflow ?l0"
    and b4: "balances_wf ?l0 \<Longrightarrow> balances_wf l4"
    and g4: "\<And>x s. getAssetBalance l4 x s =
       (if x = ua_account ap \<and> ua_deleteAccount ap then 0
        else if x = ua_account ap \<and> s = ua_asset ap then ua_parentBal ap else getAssetBalance ?l0 x s)"
    and k4: "keys (l_assetBalances l4) =
       (if ua_deleteAccount ap then keys (l_assetBalances ?l0) - {ua_account ap}
        else insert (ua_account ap) (keys (l_assetBalances ?l0)))"
    by (rule run_apply_core [OF dn, of ?l0]) blast
  note c = core_eqD [OF c4, folded undone_def]
  have gd: "getAssetBalance (undo_delegation ap l4) = getAssetBalance l4"
    by (rule getAssetBalance_cong) simp
  have cok: "chain_ok (l_store l) a c" and bo: "blocks_ok l"
    using ok ch by (auto simp: ledger_ok_def chains_ok_def)
  have cs: "butlast c @ [b] = c" using us(1) b by simp
  have prev: "blk_Previous b = Frontier (butlast c)"
    using cok linked_Frontier [of "butlast c" b] unfolding cs by (simp add: chain_ok_def)
  have pz: "blk_Previous b = ''0'' \<longleftrightarrow> butlast c = []"
  proof (cases "butlast c = []")
    case False
    then have "last (butlast c) \<in> set c" by (metis in_set_butlastD last_in_set)
    then have "mget (m_blocks (l_store l)) (blk_Hash (last (butlast c))) = Some (last (butlast c))"
      using cok by (simp add: chain_ok_def list_all_iff)
    then have "blk_Hash (last (butlast c)) \<noteq> ''0''" using bo unfolding blocks_ok_def by blast
    with False show ?thesis by (simp add: prev Frontier_def)
  qed (simp add: prev)
  have pb: "ua_parentBal ap = assetBalanceOnChain (butlast c) (assetOf b)"
    using pz by (simp add: us(16) xusdBalanceOnChain_eq [OF lo])
  show g: "getAssetBalance (undone u ap l) x s =
       (if x = a \<and> (butlast c = [] \<or> s = assetOf b) then assetBalanceOnChain (butlast c) s else getAssetBalance l x s)" for x s
    unfolding c(14) gd g4 by (auto simp: us(14,15,20) pb)
  show "m_blocks (l_store (undone u ap l)) = m_blocks (l_store l)"
    "m_finalHeight (l_store (undone u ap l)) = m_finalHeight (l_store l)"
    "l_activeCascade (undone u ap l) = None" "l_delegationUnderflow (undone u ap l) = 0"
    "m_pending (l_store (undone u ap l)) = m_pending (applyUndoLocked u (l_store l))"
    "m_pendingByDest (l_store (undone u ap l)) = m_pendingByDest (applyUndoLocked u (l_store l))"
    "m_leases (l_store (undone u ap l)) = m_leases (applyUndoLocked u (l_store l))"
    "m_chains (l_store (undone u ap l)) = m_chains (applyUndoLocked u (l_store l))"
    "m_frontiers (l_store (undone u ap l)) = m_frontiers (applyUndoLocked u (l_store l))"
    using ok by (simp_all add: c l4 applyUndo_simps ledger_ok_def delegation_ok_def)
  show "chain_of (undone u ap l) x = (if x = a then butlast c else chain_of l x)"
    by (simp add: c chain_of_def l4 applyUndo_simps us)
  show "balances_wf (undone u ap l)"
    using ok b4 by (simp add: c balances_wf_def ledger_ok_def maps_wf_def)
  show "keys (l_assetBalances (undone u ap l)) =
       (if butlast c = [] then keys (l_assetBalances l) - {a} else insert a (keys (l_assetBalances l)))"
    by (simp add: c k4 us)
  show d: "l_delegation (undone u ap l) = set_rep a (last_rep (butlast c)) (l_delegation l)"
    "m_delegations (l_store (undone u ap l)) = set_rep a (last_rep (butlast c)) (m_delegations (l_store l))"
    by (simp_all add: c l4 us applyUndo_simps)
  have xb: "xe_balance l a = big (assetBalanceOnChain c ''XE'')"
    using ok chain_of_Some [OF ch] by (simp add: ledger_ok_def balances_ok_def xe_balance_def IsValidAsset_def)
  have xa: "xe_balance (undone u ap l) a = big (assetBalanceOnChain (butlast c) ''XE'')"
    using xb assetBalanceOnChain_snoc [of "butlast c" b "''XE''", unfolded cs] by (auto simp: xe_balance_def g)
  have "mdef 0 (l_weights (undo_delegation ap l4)) rep =
      delegated_to (xe_balance (undone u ap l)) (l_delegation (undo_delegation ap l4)) rep"
    by (rule undo_delegation_weights [where bal = "xe_balance l"])
      (use ok rep_of_not_empty xa xb us g in \<open>auto simp: l4 ledger_ok_def maps_wf_def delegation_ok_def xe_balance_def\<close>)
  then show "mdef 0 (l_weights (undone u ap l)) rep =
      delegated_to (xe_balance (undone u ap l)) (l_delegation (undone u ap l)) rep"
    by (simp add: c)
qed

lemma undone_common:
  assumes ok: "ledger_ok l" and ch: "mget (m_chains (l_store l)) a = Some c" and b: "b = last c"
    and u: "buildBlockUndo l a b (Some c) = Inr (u, ap)"
  shows "blocks_ok (undone u ap l)" "chains_ok (undone u ap l)" "balances_ok (undone u ap l)"
    "delegation_ok (undone u ap l)"
proof -
  note us = undo_shape [OF u] and uf = undone_facts [OF assms]
  have bo: "blocks_ok l" and co: "chains_ok l" and ba: "balances_ok l" and de: "delegation_ok l"
    using ok by (simp_all add: ledger_ok_def)
  have cok: "chain_ok (l_store l) a c" using co ch by (simp add: chains_ok_def)
  have cs: "butlast c @ [b] = c" using us(1) b by simp
  have keep: "chain_ok (l_store (undone u ap l)) x d" if "chain_ok (l_store l) x d" for x d
    using that by (simp add: chain_ok_def uf)
  have bl: "chain_ok (l_store (undone u ap l)) a (butlast c)" if "butlast c \<noteq> []"
    by (rule butlast_chain_ok [OF cok that]) (rule uf)
  show "blocks_ok (undone u ap l)" using bo by (simp add: blocks_ok_def uf)
  show "chains_ok (undone u ap l)"
    using co keep bl unfolding chains_ok_def
    by (simp add: uf(15,16) applyUndo_simps us)
  have own: "getAssetBalance l a s = assetBalanceOnChain (butlast c) s" if "IsValidAsset s" "s \<noteq> assetOf b" for s
    using ba that chain_of_Some [OF ch] assetBalanceOnChain_snoc [of "butlast c" b s, unfolded cs]
    by (simp add: balances_ok_def)
  have ka: "a \<in> keys (m_chains (l_store l))" using ch by (simp add: keys_iff)
  show "balances_ok (undone u ap l)"
    using ba own ka unfolding balances_ok_def uf(6,7,8,15)
    by (auto simp: applyUndo_simps us)
  have "mget (l_delegation (undone u ap l)) x = rep_of (chain_of (undone u ap l) x)" for x
    using de by (simp add: uf(6,9) set_rep_get delegation_ok_def rep_of_def)
  moreover have "mget (m_delegations (l_store (undone u ap l))) x = mget (l_delegation (undone u ap l)) x" for x
    using de by (simp add: uf(9,10) set_rep_get delegation_ok_def)
  ultimately show "delegation_ok (undone u ap l)"
    using uf(5,11) by (simp add: delegation_ok_def)
qed

section \<open>Undoing a lease acceptance\<close>

definition unaccepted :: "lease \<Rightarrow> lease" where
  "unaccepted ls = ls\<lparr>ls_State := LeaseCreated, ls_Settled := False, ls_Stake := 0, ls_StartTime := 0,
     ls_LockedR := 0, ls_LockedPayoutCap := 0, ls_LockedTWAP := 0\<rparr>"

lemma undone_accept_maps:
  assumes ok: "ledger_ok l" and ch: "mget (m_chains (l_store l)) a = Some c" and b: "b = last c"
    and u: "buildBlockUndo l a b (Some c) = Inr (u, ap)" and t: "blk_Type b = BlockLeaseAccept"
    and ls: "mget (m_leases (l_store l)) (blk_Source b) = Some ls"
  shows "m_pending (l_store (undone u ap l)) = m_pending (l_store l)"
    "m_pendingByDest (l_store (undone u ap l)) = m_pendingByDest (l_store l)"
    "m_leases (l_store (undone u ap l)) = mput (blk_Source b) (unaccepted ls) (m_leases (l_store l))"
proof -
  note us = undo_shape [OF u] and uf = undone_facts [OF ok ch b u]
  have p: "undo_pending u m = m" for m
    by (simp add: undo_pending_def us t undo_AddPending_def)
  show "m_pending (l_store (undone u ap l)) = m_pending (l_store l)"
    "m_pendingByDest (l_store (undone u ap l)) = m_pendingByDest (l_store l)"
    by (simp_all add: uf applyUndoLocked_def p)
  obtain lb where "mget (m_blocks (l_store l)) (blk_Source b) = Some lb" "lease_of ls lb"
    using ok ls unfolding ledger_ok_def leases_ok_def by blast
  then have "ls_LeaseHash ls = blk_Source b"
    using ok unfolding ledger_ok_def blocks_ok_def lease_of_def by metis
  then show "m_leases (l_store (undone u ap l)) = mput (blk_Source b) (unaccepted ls) (m_leases (l_store l))"
    by (simp add: uf applyUndoLocked_def undo_account_def us t undo_RestoreLease_def priorLease_def
        store_GetLease_def ls Let_def unaccepted_def)
qed

lemma undone_accept_ok:
  assumes ok: "ledger_ok l" and ch: "mget (m_chains (l_store l)) a = Some c" and b: "b = last c"
    and u: "buildBlockUndo l a b (Some c) = Inr (u, ap)" and t: "blk_Type b = BlockLeaseAccept"
    and ls: "mget (m_leases (l_store l)) (blk_Source b) = Some ls" and lv: "live ls"
  shows "ledger_ok (undone u ap l)"
proof -
  note us = undo_shape [OF u] and uf = undone_facts [OF ok ch b u] and um = undone_accept_maps [OF ok ch b u t ls]
  have maps: "maps_wf (undone u ap l)"
    using ok uf(4) unfolding ledger_ok_def maps_wf_def
    by (simp add: uf(1,9,10) um uf(15,16) applyUndo_simps(3,4) pending_index_cong [of "l_store (undone u ap l)" "l_store l", OF um(1,2)])
  have pend: "pending_ok (undone u ap l)"
    using ok unfolding ledger_ok_def pending_ok_def by (simp add: um uf(1))
  have lo: "leases_ok l" using ok by (simp add: ledger_ok_def)
  obtain lb where lb: "mget (m_blocks (l_store l)) (blk_Source b) = Some lb" "lease_of ls lb"
    and mp: "mhas (m_pending (l_store l)) (blk_Source b)"
    using lo ls lv unfolding leases_ok_def by blast
  have r: "lease_of (unaccepted ls) lb" "live (unaccepted ls)" "\<not> ls_Settled (unaccepted ls)"
    using lb by (auto simp: unaccepted_def lease_of_def live_def)
  have leases: "leases_ok (undone u ap l)"
    using lo lb r mp unfolding leases_ok_def by (auto simp: um uf(1) lease_of_def)
  have sub: "on_chain l x" if "on_chain (undone u ap l) x" for x
    using that chain_of_Some [OF ch] by (auto simp: on_chain_def uf(6) dest: in_set_butlastD split: if_splits)
  have once: "released_once (undone u ap l)"
    using ok sub unfolding ledger_ok_def released_once_def by (simp add: um uf(1))
  show ?thesis
    using maps pend leases once uf(3) undone_common [OF ok ch b u] by (simp add: ledger_ok_def)
qed

end
