(* ===== verification/XE_Genesis.thy ===== *)
theory XE_Genesis
  imports XE_Ledger
begin

text \<open>
  The genesis block: its validation (\<open>core/genesis.go\<close>) and the lease timing it fixes
  for the network (\<open>ApplyGenesisLeaseTiming\<close> in \<open>core/ledger.go\<close>). The JSON document
  is decoded by the Go library; the decoded block is the field \<open>cfg_GenesisDocument\<close> of
  the environment.
\<close>

section \<open>Definitions\<close>

definition GenesisSupply :: u64 where "GenesisSupply = 42000000 * 1000000"

definition ZeroAddress :: string where "ZeroAddress = replicate 64 CHR ''0''"

definition validateGenesisRepresentative :: "block \<Rightarrow> unit result" where
  "validateGenesisRepresentative b =
     (if blk_Representative b = []
      then Err ''genesis: representative is required - a genesis that delegates nothing yields zero total delegated weight, so no block can ever finalize and every balance stays unspendable while all health checks read green''
      else case hex_DecodeString (blk_Representative b) of
        Inl _ \<Rightarrow> Err ''genesis: representative must be 64 hex characters (32-byte account address), got %q''
      | Inr rep \<Rightarrow>
      if length rep \<noteq> 32
      then Err ''genesis: representative must be 64 hex characters (32-byte account address), got %q''
      else if blk_Representative b = ZeroAddress
      then Err ''genesis: representative must not be the all-zero address - that is how the canonical encoding spells no representative''
      else if blk_PubKey b \<noteq> [] \<and> blk_Representative b = blk_PubKey b
      then Err ''genesis: representative is the genesis PUBLIC KEY, not an account address - an address is sha256(%q || pubkey), so this delegates the whole supply to an account that cannot exist and nothing can ever finalize''
      else Inr ())"

text \<open>
  The timing a genesis block sets: its own values, the defaults for those it leaves zero.
  The validation computes the same values before it checks them.
\<close>

definition or_default :: "'a::zero \<Rightarrow> 'a \<Rightarrow> 'a" where
  "or_default d x = (if x \<noteq> 0 then x else d)"

definition ApplyGenesisLeaseTiming :: "block option \<Rightarrow> lease_timing" where
  "ApplyGenesisLeaseTiming bo =
     (case bo of
        None \<Rightarrow> DefaultLeaseTiming
      | Some b \<Rightarrow>
          \<lparr>LeaseMinDuration = or_default (LeaseMinDuration DefaultLeaseTiming) (blk_LeaseMinDurationSecs b),
           LeaseSettleGrace = or_default (LeaseSettleGrace DefaultLeaseTiming) (blk_LeaseSettleGraceNs b),
           LeaseForceSettleGap = or_default (LeaseForceSettleGap DefaultLeaseTiming) (blk_LeaseForceSettleGapNs b),
           LeaseEscrowExpiry = or_default (LeaseEscrowExpiry DefaultLeaseTiming) (blk_LeaseEscrowExpiryNs b),
           LeaseArchiveGap = or_default (LeaseArchiveGap DefaultLeaseTiming) (blk_LeaseArchiveGapNs b),
           MaxAttestationSkew = or_default (MaxAttestationSkew DefaultLeaseTiming) (blk_MaxAttestationSkewNs b)\<rparr>)"

definition validateGenesisLeaseTiming :: "block \<Rightarrow> unit result" where
  "validateGenesisLeaseTiming b =
     (let minDur = (if blk_LeaseMinDurationSecs b = 0 then LeaseMinDuration DefaultLeaseTiming else blk_LeaseMinDurationSecs b);
          grace = (if blk_LeaseSettleGraceNs b = 0 then LeaseSettleGrace DefaultLeaseTiming else blk_LeaseSettleGraceNs b);
          gap = (if blk_LeaseForceSettleGapNs b = 0 then LeaseForceSettleGap DefaultLeaseTiming else blk_LeaseForceSettleGapNs b);
          escrow = (if blk_LeaseEscrowExpiryNs b = 0 then LeaseEscrowExpiry DefaultLeaseTiming else blk_LeaseEscrowExpiryNs b);
          archive = (if blk_LeaseArchiveGapNs b = 0 then LeaseArchiveGap DefaultLeaseTiming else blk_LeaseArchiveGapNs b);
          skew = (if blk_MaxAttestationSkewNs b = 0 then MaxAttestationSkew DefaultLeaseTiming else blk_MaxAttestationSkewNs b)
      in if minDur < 1 then Err ''genesis: lease_min_duration_secs must be >= 1, got %d''
         else if grace \<le> 0 then Err ''genesis: lease_settle_grace_ns must be > 0, got %d''
         else if skew \<le> 0 then Err ''genesis: max_attestation_skew_ns must be > 0, got %d''
         else if gap \<le> i64 (2 * skew)
         then Err ''genesis: lease_force_settle_gap_ns (%d) must exceed 2*max_attestation_skew_ns (%d)''
         else if escrow \<le> i64 (grace + gap)
         then Err ''genesis: lease_escrow_expiry_ns (%d) must exceed settle_grace+force_settle_gap (%d)''
         else if archive \<le> 0 then Err ''genesis: lease_archive_gap_ns must be > 0, got %d''
         else Inr ())"

definition ValidateGenesisBlock :: "env \<Rightarrow> block \<Rightarrow> unit result" where
  "ValidateGenesisBlock E b =
     (if blk_Type b \<noteq> BlockGenesis then Err ''genesis: type must be %q, got %q''
      else if blk_Previous b \<noteq> ''0'' then Err ''genesis: previous must be 0''
      else if blk_Timestamp b \<noteq> 0 then Err ''genesis: timestamp must be 0''
      else if blk_Asset b \<noteq> ''XE'' then Err ''genesis: asset must be XE, got %q''
      else if blk_Balance b \<noteq> GenesisSupply then Err ''genesis: balance must be %d, got %d''
      else if blk_Account b = [] then Err ''genesis: account must not be empty''
      else case validateGenesisRepresentative b of Inl e \<Rightarrow> Inl e | Inr _ \<Rightarrow>
      case validateGenesisLeaseTiming b of Inl e \<Rightarrow> Inl e | Inr _ \<Rightarrow>
      case VerifyBlock (E\<lparr>networkID := []\<rparr>) b of
        Inl e \<Rightarrow> wrap ''genesis: '' e
      | Inr _ \<Rightarrow> Inr ())"

definition parseGenesisBlock :: "env \<Rightarrow> block result" where
  "parseGenesisBlock E =
     (case cfg_GenesisDocument E of
        Inl e \<Rightarrow> wrap ''parse genesis: '' e
      | Inr b \<Rightarrow> (case ValidateGenesisBlock E b of Inl e \<Rightarrow> Inl e | Inr _ \<Rightarrow> Inr b))"

text \<open>Loading the genesis block sets the timing variables of the package.\<close>

definition LoadGenesisBlock :: "env \<Rightarrow> ledger \<Rightarrow> block result \<times> ledger" where
  "LoadGenesisBlock E l =
     (case parseGenesisBlock E of
        Inl e \<Rightarrow> (Inl e, l)
      | Inr b \<Rightarrow> (Inr b, l\<lparr>l_timing := ApplyGenesisLeaseTiming (Some b)\<rparr>))"

section \<open>Timing\<close>

text \<open>
  The timing of a validated genesis separates the windows of a lease: with values for
  which the two sums do not overflow, the force-settle window opens more than twice the
  attestation skew after the settle window closes, and before the escrow expires.
\<close>

lemma validateGenesisLeaseTiming_sound:
  assumes "validateGenesisLeaseTiming b = Inr ()"
    and T: "T = ApplyGenesisLeaseTiming (Some b)"
    and "is_i64 (2 * MaxAttestationSkew T)" "is_i64 (LeaseSettleGrace T + LeaseForceSettleGap T)"
  shows "LeaseMinDuration T \<noteq> 0" "0 < LeaseSettleGrace T" "0 < MaxAttestationSkew T"
    "2 * MaxAttestationSkew T < LeaseForceSettleGap T"
    "LeaseSettleGrace T + LeaseForceSettleGap T < LeaseEscrowExpiry T"
    "0 < LeaseArchiveGap T"
proof -
  have e: "(if (x::'c::zero) = 0 then d else x) = or_default d x" for x d
    by (simp add: or_default_def)
  note h = assms(1) [unfolded validateGenesisLeaseTiming_def Let_def e]
  show "LeaseMinDuration T \<noteq> 0" "0 < LeaseSettleGrace T" "0 < MaxAttestationSkew T"
    "2 * MaxAttestationSkew T < LeaseForceSettleGap T"
    "LeaseSettleGrace T + LeaseForceSettleGap T < LeaseEscrowExpiry T"
    "0 < LeaseArchiveGap T"
    using h assms(3,4) by (auto simp: T ApplyGenesisLeaseTiming_def split: if_splits)
qed

end
