(* ===== verification/XE_Handlers.thy ===== *)
theory XE_Handlers
  imports XE_Genesis
begin

text \<open>
  The block handlers of the ledger: one \<open>validateAndAdd\<close> function per block type
  (\<open>core/ledger.go\<close>, \<open>core/mint.go\<close>, \<open>core/lease_renew.go\<close>), the check of a block's
  credential, and the dispatch on the type. A handler validates the block against the
  ledger, builds a commit, and writes it. The part up to the commit only reads the ledger;
  it is the function \<open>..._commit\<close>, and the handler is that function followed by
  \<open>commitBlockWrite\<close> and by what the handler does after the write.
\<close>

section \<open>Common steps\<close>

definition finish :: "(block_commit \<times> u64) result \<Rightarrow> ledger \<Rightarrow> unit result \<times> ledger" where
  "finish r l =
     (case r of Inl e \<Rightarrow> (Inl e, l) | Inr (c, prevBalance) \<Rightarrow> commitBlockWrite c prevBalance l)"

definition and_then :: "unit result \<times> ledger \<Rightarrow> (ledger \<Rightarrow> ledger) \<Rightarrow> unit result \<times> ledger" where
  "and_then r f = (case fst r of Inl e \<Rightarrow> (Inl e, snd r) | Inr _ \<Rightarrow> (Inr (), f (snd r)))"

text \<open>
  The tests every handler makes on an existing chain: it is open, the block extends its
  frontier, and time does not run backwards.
\<close>

definition check_extends :: "string \<Rightarrow> block \<Rightarrow> account_chain option \<Rightarrow> unit result" where
  "check_extends unopened b chainOpt =
     (case chainOpt of
        None \<Rightarrow> Err unopened
      | Some chain \<Rightarrow>
          if blk_Previous b \<noteq> Frontier chain then Err ''previous mismatch: got %s, want %s''
          else if chain \<noteq> [] \<and> blk_Timestamp b < blk_Timestamp (last chain)
          then Err ''block timestamp %d is before previous block timestamp %d''
          else Inr ())"

section \<open>Credentials\<close>

definition setKeyset :: "string \<Rightarrow> keyset \<Rightarrow> ledger \<Rightarrow> ledger" where
  "setKeyset account ks l = l\<lparr>l_keysets := mput account ks (l_keysets l)\<rparr>"

definition setAccountKey :: "string \<Rightarrow> string \<Rightarrow> ledger \<Rightarrow> ledger" where
  "setAccountKey account pubKey l = l\<lparr>l_accountKeys := mput account pubKey (l_accountKeys l)\<rparr>"

definition declared_key :: "account_chain \<Rightarrow> string" where
  "declared_key chain = foldl (\<lambda>found b. if blk_PubKey b \<noteq> [] then blk_PubKey b else found) [] chain"

definition GetAccountKey :: "string \<Rightarrow> ledger \<Rightarrow> string \<times> ledger" where
  "GetAccountKey account l =
     (case mget (l_accountKeys l) account of
        Some pub \<Rightarrow> (pub, l)
      | None \<Rightarrow>
          (case store_GetAccountChain (l_store l) account of
             None \<Rightarrow> ([], l)
           | Some chain \<Rightarrow>
               let found = declared_key chain
               in if found = [] then ([], l) else (found, setAccountKey account found l)))"

definition chain_keyset :: "account_chain \<Rightarrow> keyset option" where
  "chain_keyset chain =
     foldl (\<lambda>found b. if (blk_Type b = BlockMultisigOpen \<or> blk_Type b = BlockMultisigUpdate) \<and> blk_MSKeyset b \<noteq> None
                      then blk_MSKeyset b else found) None chain"

definition resolveMissingKeyset :: "string \<Rightarrow> ledger \<Rightarrow> keyset result \<times> ledger" where
  "resolveMissingKeyset account l =
     (case store_GetAccountChain (l_store l) account of
        None \<Rightarrow> (Err ''block has signatures but multisig keyset is not known: unopened account %s (multisig_open not yet synced)'', l)
      | Some chain \<Rightarrow>
          (case chain_keyset chain of
             None \<Rightarrow> (Err ''block has signatures but account is not multisig'', l)
           | Some ks \<Rightarrow> (Inr ks, setKeyset account ks l)))"

definition verify_signatures :: "env \<Rightarrow> block \<Rightarrow> keyset \<Rightarrow> unit result" where
  "verify_signatures E b ks =
     (if IsSpendingOp (blk_Type b)
      then case VerifyMultisig E (blk_Hash b) (blk_Signatures b) ks of
             Inl e \<Rightarrow> wrap ''multisig: '' e | Inr _ \<Rightarrow> Inr ()
      else case VerifyMultisigAny E (blk_Hash b) (blk_Signatures b) ks of
             Inl e \<Rightarrow> wrap ''multisig: '' e | Inr _ \<Rightarrow> Inr ())"

definition verifyBlockCredential :: "env \<Rightarrow> block \<Rightarrow> ledger \<Rightarrow> unit result \<times> ledger" where
  "verifyBlockCredential E b l =
     (case ValidatePubKeyDeclaration E b of
        Inl e \<Rightarrow> (Inl e, l)
      | Inr _ \<Rightarrow>
      if blk_Signatures b \<noteq> [] then
        (case (if blk_Type b = BlockMultisigOpen then blk_MSKeyset b else GetKeyset l (blk_Account b)) of
           Some ks \<Rightarrow> (verify_signatures E b ks, l)
         | None \<Rightarrow>
             (case resolveMissingKeyset (blk_Account b) l of
                (Inl e, l1) \<Rightarrow> (Inl e, l1)
              | (Inr ks, l1) \<Rightarrow> (verify_signatures E b ks, l1)))
      else if GetKeyset l (blk_Account b) \<noteq> None then (Err ''multisig account requires signatures'', l)
      else
        let (pubKey, l1) = (if blk_Previous b = ''0'' then (blk_PubKey b, l) else GetAccountKey (blk_Account b) l)
        in if blk_Previous b \<noteq> ''0'' \<and> pubKey = []
           then (Err ''signature: unopened account %s has no declared public key'', l1)
           else case VerifyBlockSignatureWith E b pubKey of
                  Inl e \<Rightarrow> (wrap ''signature: '' e, l1)
                | Inr _ \<Rightarrow> (Inr (), l1))"

section \<open>Sends, receives, mints and burns\<close>

definition send_commit :: "block \<Rightarrow> ledger \<Rightarrow> (block_commit \<times> u64) result" where
  "send_commit b l =
     (case check_extends ''send from unopened account: %s'' b (getAccountChainOverlay l (blk_Account b)) of
        Inl e \<Rightarrow> Inl e
      | Inr _ \<Rightarrow>
      let oldBal = getAssetBalanceOverlay l (blk_Account b) (blk_Asset b)
      in if blk_Amount b = 0 then Err ''send amount must be > 0''
         else if blk_Amount b > oldBal then Err ''insufficient balance: have %d, sending %d''
         else if blk_Balance b \<noteq> oldBal - blk_Amount b then Err ''balance mismatch: expected %d, got %d''
         else if blk_Destination b = [] then Err ''send must have a destination''
         else if blk_Destination b = blk_Account b then Err ''cannot send to self''
         else case ValidateMemo (blk_Memo b) of
           Inl e \<Rightarrow> wrap ''send: '' e
         | Inr _ \<Rightarrow>
         let (commit, prevBalance) = prepareBlockWrite l b
         in Inr (commit\<lparr>c_AddPending := Some
              \<lparr>ps_SendHash = blk_Hash b, ps_Source = blk_Account b, ps_Destination = blk_Destination b,
               ps_Amount = blk_Amount b, ps_Asset = blk_Asset b\<rparr>\<rparr>, prevBalance))"

definition validateAndAddSend :: "block \<Rightarrow> ledger \<Rightarrow> unit result \<times> ledger" where
  "validateAndAddSend b l = finish (send_commit b l) l"

definition burn_commit :: "block \<Rightarrow> ledger \<Rightarrow> (block_commit \<times> u64) result" where
  "burn_commit b l =
     (if blk_Asset b \<noteq> ''XE'' then Err ''burn: restricted to XE''
      else if blk_Destination b \<noteq> [] \<or> blk_Source b \<noteq> [] then Err ''burn: must not have source or destination''
      else if blk_Amount b = 0 then Err ''burn: amount must be > 0''
      else case check_extends ''burn from unopened account: %s'' b (getAccountChainOverlay l (blk_Account b)) of
        Inl e \<Rightarrow> Inl e
      | Inr _ \<Rightarrow>
      let oldBal = getAssetBalanceOverlay l (blk_Account b) (blk_Asset b)
      in if blk_Amount b > oldBal then Err ''insufficient balance: have %d XE, burning %d''
         else if blk_Balance b \<noteq> oldBal - blk_Amount b then Err ''balance mismatch: expected %d, got %d''
         else case ValidateMemo (blk_Memo b) of
           Inl e \<Rightarrow> wrap ''burn: '' e
         | Inr _ \<Rightarrow> Inr (prepareBlockWrite l b))"

definition validateAndAddBurn :: "block \<Rightarrow> ledger \<Rightarrow> unit result \<times> ledger" where
  "validateAndAddBurn b l = finish (burn_commit b l) l"

definition isLiveLeaseEscrow :: "ledger \<Rightarrow> string \<Rightarrow> bool" where
  "isLiveLeaseEscrow l sendHash =
     (case getLeaseOverlay l sendHash of
        None \<Rightarrow> False
      | Some ls \<Rightarrow> ls_State ls = LeaseCreated \<or> ls_State ls = LeaseAccepted)"

definition GetBlockOrStaged :: "ledger \<Rightarrow> string \<Rightarrow> block option" where
  "GetBlockOrStaged l hash =
     (case store_GetBlock (l_store l) hash of
        Some b \<Rightarrow> Some b
      | None \<Rightarrow> store_GetStagedBlock (l_store l) hash)"

definition contested :: "ledger \<Rightarrow> string \<Rightarrow> bool" where
  "contested l hash =
     (case GetBlockOrStaged l hash of
        None \<Rightarrow> False
      | Some src \<Rightarrow> store_GetConflict (l_store l) (blk_Account src) (blk_Previous src) \<noteq> None)"

definition receive_commit :: "block \<Rightarrow> ledger \<Rightarrow> (block_commit \<times> u64) result" where
  "receive_commit b l =
     (if blk_Source b = [] then Err ''receive must reference a source send''
      else case getPendingSendOverlay l (blk_Source b) of
        None \<Rightarrow> Err ''source send not pending: %s''
      | Some pending \<Rightarrow>
      if ps_Destination pending \<noteq> blk_Account b then Err ''send not addressed to this account''
      else if isLiveLeaseEscrow l (blk_Source b) then Err ''cannot receive a live lease escrow: %s''
      else if contested l (blk_Source b)
      then Err ''source send %s is contested by an unresolved conflict - receive deferred pending resolution''
      else if blk_Asset b \<noteq> (if ps_Asset pending = [] then ''XE'' else ps_Asset pending)
      then Err ''receive asset %q does not match pending send asset %q''
      else
      let chainOpt = getAccountChainOverlay l (blk_Account b);
          oldBal = getAssetBalanceOverlay l (blk_Account b) (blk_Asset b);
          (commit, prevBalance) = prepareBlockWrite l b
      in case chainOpt of
           None \<Rightarrow>
             if blk_Previous b \<noteq> ''0'' then Err ''first block on account must have previous=0''
             else if blk_Balance b \<noteq> ps_Amount pending then Err ''open-receive balance mismatch: expected %d, got %d''
             else Inr (commit\<lparr>c_DeletePendingID := blk_Source b\<rparr>, prevBalance)
         | Some chain \<Rightarrow>
             if chain \<noteq> [] \<and> blk_Timestamp b < blk_Timestamp (last chain)
             then Err ''block timestamp %d is before previous block timestamp %d''
             else if blk_Previous b \<noteq> Frontier chain then Err ''previous mismatch: got %s, want %s''
             else if oldBal + ps_Amount pending < oldBal then Err ''receive would overflow uint64 balance''
             else if blk_Balance b \<noteq> oldBal + ps_Amount pending
             then Err ''receive balance mismatch: expected %d, got %d''
             else Inr (commit\<lparr>c_DeletePendingID := blk_Source b\<rparr>, prevBalance))"

definition validateAndAddReceive :: "block \<Rightarrow> ledger \<Rightarrow> unit result \<times> ledger" where
  "validateAndAddReceive b l = finish (receive_commit b l) l"

definition isMinter :: "env \<Rightarrow> string \<Rightarrow> bool" where
  "isMinter E account =
     (case cfg_MinterConfigFn E of
        Some (Some cfg) \<Rightarrow> list_ex (\<lambda>k. EqualFold k account) (mc_Keys cfg)
      | _ \<Rightarrow> False)"

definition mint_commit :: "env \<Rightarrow> block \<Rightarrow> ledger \<Rightarrow> (block_commit \<times> u64) result" where
  "mint_commit E b l =
     (if blk_Asset b \<noteq> ''XUSD'' then Err ''mint: restricted to XUSD''
      else if \<not> isMinter E (blk_Account b) then Err ''mint: account %s is not an authorized minter''
      else if blk_Destination b \<noteq> [] \<or> blk_Source b \<noteq> [] then Err ''mint: must not have source or destination''
      else if blk_Memo b \<noteq> [] then Err ''mint: memo not allowed''
      else if blk_Amount b = 0 then Err ''mint: amount must be > 0''
      else case getAccountChainOverlay l (blk_Account b) of
        None \<Rightarrow>
          if blk_Previous b \<noteq> ''0'' then Err ''mint: first block must have previous=0''
          else if blk_Balance b \<noteq> blk_Amount b then Err ''mint: balance mismatch: expected %d, got %d''
          else Inr (prepareBlockWrite l b)
      | Some chain \<Rightarrow>
          (case check_extends [] b (Some chain) of
             Inl e \<Rightarrow> Inl e
           | Inr _ \<Rightarrow>
               let oldBal = getAssetBalanceOverlay l (blk_Account b) (blk_Asset b)
               in if oldBal + blk_Amount b < oldBal then Err ''mint: balance would overflow uint64''
                  else if blk_Balance b \<noteq> oldBal + blk_Amount b then Err ''mint: balance mismatch: expected %d, got %d''
                  else Inr (prepareBlockWrite l b)))"

definition validateAndAddMint :: "env \<Rightarrow> block \<Rightarrow> ledger \<Rightarrow> unit result \<times> ledger" where
  "validateAndAddMint E b l = finish (mint_commit E b l) l"

section \<open>Genesis and multisig\<close>

definition addBlockLocked :: "block \<Rightarrow> ledger \<Rightarrow> unit result \<times> ledger" where
  "addBlockLocked b l = finish (Inr (prepareBlockWrite l b)) l"

definition validateAndAddGenesis :: "env \<Rightarrow> block \<Rightarrow> ledger \<Rightarrow> unit result \<times> ledger" where
  "validateAndAddGenesis E b l =
     (if \<not> store_IsEmpty (l_store l) then (Err ''genesis block rejected: ledger is not empty'', l)
      else case LoadGenesisBlock E l of
        (Inl e, l1) \<Rightarrow> (wrap ''load embedded genesis: '' e, l1)
      | (Inr expected, l1) \<Rightarrow>
          if blk_Hash b \<noteq> blk_Hash expected then (Err ''genesis hash mismatch: got %s, want %s'', l1)
          else case ValidateGenesisBlock E b of
                 Inl e \<Rightarrow> (Inl e, l1)
               | Inr _ \<Rightarrow> addBlockLocked b l1)"

definition multisig_open_commit :: "env \<Rightarrow> block \<Rightarrow> ledger \<Rightarrow> (block_commit \<times> u64) result" where
  "multisig_open_commit E b l =
     (if blk_MSKeyset b = None then Err ''multisig_open must include a keyset''
      else case ValidateKeyset (blk_MSKeyset b) of
        Inl e \<Rightarrow> wrap ''multisig_open keyset: '' e
      | Inr _ \<Rightarrow>
      case DeriveMultisigAddress E (blk_MSKeyset b) of
        Inl e \<Rightarrow> wrap ''derive address: '' e
      | Inr expected \<Rightarrow>
      if blk_Account b \<noteq> expected then Err ''multisig_open account mismatch: got %s, want %s''
      else if getAccountChainOverlay l (blk_Account b) \<noteq> None then Err ''multisig_open: account already exists''
      else if blk_Previous b \<noteq> ''0'' then Err ''multisig_open must have previous=0''
      else if blk_Balance b \<noteq> 0 then Err ''multisig_open balance must be 0, got %d''
      else let (commit, prevBalance) = prepareBlockWrite l b
           in Inr (commit\<lparr>c_PutKeyset := blk_MSKeyset b\<rparr>, prevBalance))"

definition put_keyset_of :: "block \<Rightarrow> ledger \<Rightarrow> ledger" where
  "put_keyset_of b l = (case blk_MSKeyset b of None \<Rightarrow> l | Some ks \<Rightarrow> setKeyset (blk_Account b) ks l)"

definition validateAndAddMultisigOpen :: "env \<Rightarrow> block \<Rightarrow> ledger \<Rightarrow> unit result \<times> ledger" where
  "validateAndAddMultisigOpen E b l = and_then (finish (multisig_open_commit E b l) l) (put_keyset_of b)"

definition multisig_update_commit :: "block \<Rightarrow> ledger \<Rightarrow> (block_commit \<times> u64) result" where
  "multisig_update_commit b l =
     (if blk_MSKeyset b = None then Err ''multisig_update must include a keyset''
      else case ValidateKeyset (blk_MSKeyset b) of
        Inl e \<Rightarrow> wrap ''multisig_update keyset: '' e
      | Inr _ \<Rightarrow>
      if getKeysetOverlay l (blk_Account b) = None then Err ''multisig_update: account is not multisig''
      else case check_extends ''multisig_update: account not found'' b (getAccountChainOverlay l (blk_Account b)) of
        Inl e \<Rightarrow> Inl e
      | Inr _ \<Rightarrow>
      if blk_Balance b \<noteq> getAssetBalanceOverlay l (blk_Account b) (blk_Asset b)
      then Err ''multisig_update balance mismatch: expected %d, got %d''
      else let (commit, prevBalance) = prepareBlockWrite l b
           in Inr (commit\<lparr>c_PutKeyset := blk_MSKeyset b\<rparr>, prevBalance))"

definition validateAndAddMultisigUpdate :: "block \<Rightarrow> ledger \<Rightarrow> unit result \<times> ledger" where
  "validateAndAddMultisigUpdate b l = and_then (finish (multisig_update_commit b l) l) (put_keyset_of b)"

section \<open>Leases: creation and acceptance\<close>

definition FinalHeight :: "ledger \<Rightarrow> string \<Rightarrow> u64" where
  "FinalHeight l account = store_GetFinalHeight (l_store l) account"

definition lease_commit :: "env \<Rightarrow> block \<Rightarrow> ledger \<Rightarrow> (block_commit \<times> u64) result" where
  "lease_commit E b l =
     (if blk_Asset b \<noteq> ''XUSD'' then Err ''lease block must have asset=XUSD''
      else if blk_Destination b = [] then Err ''lease block must have a destination (provider)''
      else if blk_Destination b = blk_Account b then Err ''cannot lease to self''
      else case ValidateLeaseDimensions (l_timing l) (blk_VCPUs b) (blk_MemoryMB b) (blk_DiskGB b) (blk_Duration b) of
        Inl e \<Rightarrow> Inl e
      | Inr _ \<Rightarrow>
      case (if blk_AccessPubKey b = [] then Inr ()
            else case hex_DecodeString (blk_AccessPubKey b) of
                   Inl e \<Rightarrow> wrap ''invalid access_pub_key hex: '' e
                 | Inr sshBytes \<Rightarrow> if length sshBytes \<noteq> 32 then Err ''access_pub_key must be 32 bytes, got %d'' else Inr ()) of
        Inl e \<Rightarrow> Inl e
      | Inr _ \<Rightarrow>
      if blk_CertificateHash b = [] then Err ''lease block must include certificate_hash''
      else case cfg_CertificateLookupFn E of
        None \<Rightarrow> Err ''lease block cannot be validated: certificate lookup not configured''
      | Some lookup \<Rightarrow>
      case lookup (blk_CertificateHash b) of
        None \<Rightarrow> Err ''certificate %s not found''
      | Some cert \<Rightarrow>
      if ci_Provider cert \<noteq> blk_Destination b then Err ''certificate %s belongs to %s, not lease destination %s''
      else if ci_ExpiresAt cert \<noteq> 0 \<and> blk_Timestamp b > ci_ExpiresAt cert
      then Err ''certificate %s expired at %d, lease timestamp %d''
      else case LeaseCost (l_timing l) (blk_VCPUs b) (blk_MemoryMB b) (blk_DiskGB b) (blk_Duration b) (ci_PriceMultiplierMilli cert) of
        Inl e \<Rightarrow> wrap ''lease cost '' e
      | Inr expectedCost \<Rightarrow>
      if blk_Amount b \<noteq> expectedCost then Err ''lease cost mismatch: expected %d (multiplier %d), got %d''
      else case check_extends ''lease from unopened account'' b (getAccountChainOverlay l (blk_Account b)) of
        Inl e \<Rightarrow> Inl e
      | Inr _ \<Rightarrow>
      let oldBal = getAssetBalanceOverlay l (blk_Account b) ''XUSD'';
          (commit, prevBalance) = prepareBlockWrite l b
      in if blk_Amount b > oldBal then Err ''insufficient XUSD balance: have %d, need %d''
         else if blk_Balance b \<noteq> oldBal - blk_Amount b then Err ''balance mismatch: expected %d, got %d''
         else Inr (commit\<lparr>c_AddPending := Some
                \<lparr>ps_SendHash = blk_Hash b, ps_Source = blk_Account b, ps_Destination = blk_Destination b,
                 ps_Amount = blk_Amount b, ps_Asset = ''XUSD''\<rparr>,
              c_PutLease := Some
                \<lparr>ls_LeaseHash = blk_Hash b, ls_State = LeaseCreated, ls_Consumer = blk_Account b,
                 ls_Provider = blk_Destination b, ls_VCPUs = blk_VCPUs b, ls_MemoryMB = blk_MemoryMB b,
                 ls_DiskGB = blk_DiskGB b, ls_Duration = blk_Duration b, ls_AccessPubKey = blk_AccessPubKey b,
                 ls_Cost = blk_Amount b, ls_Stake = 0, ls_StartTime = 0,
                 ls_CertificateHash = blk_CertificateHash b, ls_Settled = False, ls_LockedR = 0,
                 ls_LockedPayoutCap = 0, ls_LockedTWAP = 0, ls_Renewals = []\<rparr>\<rparr>, prevBalance))"

definition validateAndAddLease :: "env \<Rightarrow> block \<Rightarrow> ledger \<Rightarrow> unit result \<times> ledger" where
  "validateAndAddLease E b l = finish (lease_commit E b l) l"

definition validateLockedEmissionAt :: "env \<Rightarrow> int \<Rightarrow> u64 \<Rightarrow> u64 \<Rightarrow> u64 \<Rightarrow> bool \<Rightarrow> string \<Rightarrow> unit result" where
  "validateLockedEmissionAt E atTime lockedR lockedCap lockedTWAP skipSkew opName =
     (case cfg_EpochAtFn E of
        None \<Rightarrow> Inr ()
      | Some epochAt \<Rightarrow>
          let candidates = epochAt atTime
          in if candidates = [] then Err (opName @ '' epoch not yet available for time %d: retry after statechain syncs'')
             else if list_ex (\<lambda>e. lockedR = ep_R e \<and> lockedCap = ep_PayoutCap e \<and> lockedTWAP = ep_TWAP e) candidates
             then Inr ()
             else if skipSkew
             then Err (opName @ '' locked emission mismatch on sync: block (R=%d cap=%d twap=%d) != epoch@time (R=%d cap=%d twap=%d): retry after statechain syncs'')
             else Err (opName @ '' locked emission mismatch: block (R=%d cap=%d twap=%d) != epoch@time (R=%d cap=%d twap=%d)''))"

definition attested_time :: "env \<Rightarrow> ledger \<Rightarrow> block \<Rightarrow> bool \<Rightarrow> string \<Rightarrow> int result" where
  "attested_time E l b skipSkew opName =
     (case cfg_TimekeeperConfigFn E of
        Some (Some cfg) \<Rightarrow>
          (case ValidateAttestations E (l_timing l) (blk_Attestations b) (blk_Source b) (Some cfg) skipSkew of
             Inl e \<Rightarrow> wrap (opName @ '' attestation: '') e
           | Inr t \<Rightarrow> Inr t)
      | _ \<Rightarrow> Err (opName @ '': timekeepers not configured''))"

text \<open>The lease block a lease operation refers to.\<close>

definition source_lease_block :: "ledger \<Rightarrow> block \<Rightarrow> block result" where
  "source_lease_block l b =
     (case store_GetBlock (l_store l) (blk_Source b) of
        None \<Rightarrow> Err ''source lease block not found: %s''
      | Some lb \<Rightarrow> if blk_Type lb \<noteq> BlockLease then Err ''source block is not a lease block'' else Inr lb)"

definition accept_commit :: "env \<Rightarrow> block \<Rightarrow> bool \<Rightarrow> ledger \<Rightarrow> (block_commit \<times> u64 \<times> block \<times> int) result" where
  "accept_commit E b skipSkew l =
     (if blk_Asset b \<noteq> ''XUSD'' then Err ''lease_accept block must have asset=XUSD''
      else if blk_Source b = [] then Err ''lease_accept must reference a source lease block''
      else case source_lease_block l b of Inl e \<Rightarrow> Inl e | Inr leaseBlock \<Rightarrow>
      if blk_Destination leaseBlock \<noteq> blk_Account b then Err ''lease_accept: provider account mismatch''
      else if (case getLeaseOverlay l (blk_Source b) of None \<Rightarrow> False | Some ex \<Rightarrow> ls_State ex \<noteq> LeaseCreated)
      then Err ''lease already accepted''
      else if blk_Amount b \<noteq> LeaseStake (blk_Amount leaseBlock)
      then Err ''lease_accept stake mismatch: expected %d, got %d''
      else case check_extends ''lease_accept from unopened account'' b (getAccountChainOverlay l (blk_Account b)) of
        Inl e \<Rightarrow> Inl e
      | Inr _ \<Rightarrow>
      let oldBal = getAssetBalanceOverlay l (blk_Account b) ''XUSD''
      in if blk_Amount b > oldBal then Err ''insufficient XUSD balance for stake: have %d, need %d''
      else if blk_Balance b \<noteq> oldBal - blk_Amount b then Err ''balance mismatch: expected %d, got %d''
      else case attested_time E l b skipSkew ''lease_accept'' of Inl e \<Rightarrow> Inl e | Inr startTime \<Rightarrow>
      if blk_CertificateHash b = [] then Err ''lease_accept: performance certificate required''
      else if blk_CertificateHash leaseBlock \<noteq> blk_CertificateHash b
      then Err ''lease_accept: certificate hash %s does not match lease referenced cert %s''
      else case cfg_CertificateLookupFn E of None \<Rightarrow> Err ''lease_accept: certificate lookup not configured'' | Some lookup \<Rightarrow>
      case lookup (blk_CertificateHash b) of
        None \<Rightarrow> short12 (blk_CertificateHash b) (Err ''lease_accept: certificate not found: %s'')
      | Some certInfo \<Rightarrow>
      if ci_Provider certInfo \<noteq> blk_Account b then Err ''lease_accept: certificate belongs to different provider''
      else if startTime > ci_ExpiresAt certInfo then Err ''lease_accept: certificate expired''
      else if blk_LockedR b = 0
      then Err ''lease_accept missing locked emission params: locked_r must be set (the accept must carry locked_r/locked_payout_cap/locked_twap)''
      else case validateLockedEmissionAt E startTime (blk_LockedR b) (blk_LockedPayoutCap b) (blk_LockedTWAP b) skipSkew ''lease_accept'' of
        Inl e \<Rightarrow> Inl e
      | Inr _ \<Rightarrow>
      let (commit, prevBalance) = prepareBlockWrite l b
      in Inr (commit\<lparr>c_ExpectLeaseHash := blk_Source b, c_ExpectLeaseState := LeaseCreated,
                c_PutLease := Some
                  \<lparr>ls_LeaseHash = blk_Source b, ls_State = LeaseAccepted, ls_Consumer = blk_Account leaseBlock,
                   ls_Provider = blk_Account b, ls_VCPUs = blk_VCPUs leaseBlock,
                   ls_MemoryMB = blk_MemoryMB leaseBlock, ls_DiskGB = blk_DiskGB leaseBlock,
                   ls_Duration = blk_Duration leaseBlock, ls_AccessPubKey = blk_AccessPubKey leaseBlock,
                   ls_Cost = blk_Amount leaseBlock, ls_Stake = blk_Amount b, ls_StartTime = startTime,
                   ls_CertificateHash = blk_CertificateHash b, ls_Settled = False,
                   ls_LockedR = blk_LockedR b, ls_LockedPayoutCap = blk_LockedPayoutCap b,
                   ls_LockedTWAP = blk_LockedTWAP b, ls_Renewals = []\<rparr>\<rparr>,
              prevBalance, leaseBlock, startTime))"

definition validateAndAddLeaseAccept :: "env \<Rightarrow> block \<Rightarrow> bool \<Rightarrow> ledger \<Rightarrow> unit result \<times> ledger" where
  "validateAndAddLeaseAccept E b skipSkew l =
     (case accept_commit E b skipSkew l of
        Inl e \<Rightarrow> (Inl e, l)
      | Inr (commit, prevBalance, leaseBlock, startTime) \<Rightarrow>
          and_then (commitBlockWrite commit prevBalance l)
            (reputation_Apply \<lparr>ev_Kind = EventLeaseAccepted, ev_Provider = blk_Account b,
               ev_Consumer = blk_Account leaseBlock, ev_Timestamp = startTime, ev_DurationSecs = 0\<rparr>))"

section \<open>Leases: cancellation\<close>

definition resolveCancelWinsOverAccept :: "env \<Rightarrow> string \<Rightarrow> string \<Rightarrow> ledger \<Rightarrow> unit result \<times> ledger" where
  "resolveCancelWinsOverAccept E leaseHash provider l =
     (case store_GetAccountChain (l_store l) provider of
        None \<Rightarrow> (Err ''cancel-wins: provider accept not found locally: retry after sync'', l)
      | Some pchain \<Rightarrow>
      (case first_index (\<lambda>blk. blk_Type blk = BlockLeaseAccept \<and> blk_Source blk = leaseHash) pchain of
        None \<Rightarrow> (Err ''cancel-wins: provider accept not found locally: retry after sync'', l)
      | Some acceptIdx \<Rightarrow>
      if acceptIdx \<noteq> length pchain - 1
      then (Err ''cancel-wins: provider built on the accept: retry after sync'', l)
      else if of_nat (acceptIdx + 1) \<le> FinalHeight l provider
      then (Err ''cannot cancel lease in accepted state: accept is finalized'', l)
      else if held_elsewhere E provider
      then (Err ''cancel-wins: provider chain busy: retry after sync'', l)
      else case undoBlockApply provider (pchain ! acceptIdx) l of
             (Inl e, l1) \<Rightarrow> (wrap ''cancel-wins: unwind provider accept: '' e, l1)
           | (Inr _, l1) \<Rightarrow> (Inr (), l1)))"

definition cancel_resolve :: "env \<Rightarrow> block \<Rightarrow> ledger \<Rightarrow> unit result \<times> ledger" where
  "cancel_resolve E b l =
     (case getLeaseOverlay l (blk_Source b) of
        None \<Rightarrow> (Inr (), l)
      | Some existing \<Rightarrow>
          if ls_State existing = LeaseAccepted \<and> ls_Provider existing \<noteq> blk_Account b
          then resolveCancelWinsOverAccept E (blk_Source b) (ls_Provider existing) l
          else if ls_State existing \<noteq> LeaseCreated then (Err ''cannot cancel lease in %s state'', l)
          else (Inr (), l))"

definition cancel_commit :: "block \<Rightarrow> block \<Rightarrow> ledger \<Rightarrow> (block_commit \<times> u64) result" where
  "cancel_commit b leaseBlock l =
     (if getPendingSendOverlay l (blk_Source b) = None then Err ''no pending send for lease: %s''
      else case check_extends ''lease_cancel from unopened account'' b (getAccountChainOverlay l (blk_Account b)) of
        Inl e \<Rightarrow> Inl e
      | Inr _ \<Rightarrow>
      let oldBal = getAssetBalanceOverlay l (blk_Account b) ''XUSD'';
          (commit, prevBalance) = prepareBlockWrite l b
      in if blk_Balance b \<noteq> oldBal + blk_Amount leaseBlock then Err ''balance mismatch: expected %d, got %d''
         else Inr (commit\<lparr>c_DeletePendingID := blk_Source b, c_CancelLeaseHash := blk_Source b,
                     c_ExpectLeaseHash := blk_Source b, c_ExpectLeaseState := LeaseCreated\<rparr>, prevBalance))"

definition validateAndAddLeaseCancel :: "env \<Rightarrow> block \<Rightarrow> ledger \<Rightarrow> unit result \<times> ledger" where
  "validateAndAddLeaseCancel E b l =
     (if blk_Asset b \<noteq> ''XUSD'' then (Err ''lease_cancel block must have asset=XUSD'', l)
      else if blk_Source b = [] then (Err ''lease_cancel must reference a source lease block'', l)
      else case source_lease_block l b of Inl e \<Rightarrow> (Inl e, l) | Inr leaseBlock \<Rightarrow>
      if blk_Account leaseBlock \<noteq> blk_Account b
      then (Err ''lease_cancel: only the consumer can cancel a lease'', l)
      else case cancel_resolve E b l of
        (Inl e, l1) \<Rightarrow> (Inl e, l1)
      | (Inr _, l1) \<Rightarrow>
          and_then (finish (cancel_commit b leaseBlock l1) l1)
            (reputation_Apply \<lparr>ev_Kind = EventLeaseCancelled, ev_Provider = blk_Destination leaseBlock,
               ev_Consumer = blk_Account b, ev_Timestamp = blk_Timestamp b, ev_DurationSecs = 0\<rparr>))"

section \<open>Leases: settlement and renewal\<close>

fun renewal_emission :: "u64 \<Rightarrow> lease_segment list \<Rightarrow> u64 result" where
  "renewal_emission tot [] = Inr tot"
| "renewal_emission tot (seg # segs) =
     (case LeaseEmissionChecked (seg_Cost seg) (CapR (seg_LockedR seg) (seg_LockedPayoutCap seg) (seg_LockedTWAP seg)) of
        Inl e \<Rightarrow> wrap ''renewal %d: '' e
      | Inr segXE \<Rightarrow>
          let (sum, ok) = safeAdd tot segXE
          in if \<not> ok then Err ''lease emission overflow summing renewal %d'' else renewal_emission sum segs)"

definition LeaseTotalEmission :: "lease \<Rightarrow> u64 result" where
  "LeaseTotalEmission ls =
     (case LeaseEmissionChecked (ls_Cost ls) (CapR (ls_LockedR ls) (ls_LockedPayoutCap ls) (ls_LockedTWAP ls)) of
        Inl e \<Rightarrow> wrap ''base segment: '' e
      | Inr base \<Rightarrow> renewal_emission base (ls_Renewals ls))"

definition renewalMayBeMissing :: "lease \<Rightarrow> bool" where
  "renewalMayBeMissing ls \<longleftrightarrow> EffectiveDurationSecs ls < LeaseMaxDuration"

definition force_settle_commit :: "env \<Rightarrow> block \<Rightarrow> bool \<Rightarrow> ledger \<Rightarrow> (block_commit \<times> u64 \<times> lease) result" where
  "force_settle_commit E b skipSkew l =
     (if blk_Asset b \<noteq> ''XUSD'' then Err ''lease_force_settle block must have asset=XUSD''
      else if blk_Source b = [] then Err ''lease_force_settle must reference a source lease block''
      else case source_lease_block l b of Inl e \<Rightarrow> Inl e | Inr leaseBlock \<Rightarrow>
      if blk_Account leaseBlock \<noteq> blk_Account b
      then Err ''lease_force_settle: only the consumer can force-settle a lease''
      else case getLeaseOverlay l (blk_Source b) of None \<Rightarrow> Err ''lease not found: %s'' | Some ls \<Rightarrow>
      if ls_Settled ls then Err ''lease already settled''
      else if ls_State ls \<noteq> LeaseAccepted
      then if ls_State ls = LeaseCreated
           then Err ''lease not yet accepted for force-settle (state %s): retry after accept''
           else Err ''cannot force-settle lease in %s state''
      else case attested_time E l b skipSkew ''lease_force_settle'' of Inl e \<Rightarrow> Inl e | Inr forceTime \<Rightarrow>
      let T = l_timing l; expiry = EffectiveExpiry ls;
          eligibleAt = i64 (i64 (expiry + LeaseSettleGrace T) + LeaseForceSettleGap T)
      in if forceTime < eligibleAt then Err ''lease not yet force-settleable: need timestamp >= %d, got %d''
      else if forceTime \<ge> i64 (expiry + LeaseEscrowExpiry T)
      then Err ''lease escrow expired: refund window closed at %d, got %d''
      else case getPendingSendOverlay l (blk_Source b) of None \<Rightarrow> Err ''no pending escrow for lease: %s'' | Some pending \<Rightarrow>
      case check_extends ''lease_force_settle from unopened account'' b (getAccountChainOverlay l (blk_Account b)) of
        Inl e \<Rightarrow> Inl e
      | Inr _ \<Rightarrow>
      let oldBal = getAssetBalanceOverlay l (blk_Account b) ''XUSD'';
          (commit, prevBalance) = prepareBlockWrite l b
      in if oldBal + ps_Amount pending < oldBal then Err ''lease_force_settle would overflow uint64 balance''
         else if blk_Balance b \<noteq> oldBal + ps_Amount pending then Err ''balance mismatch: expected %d, got %d''
         else Inr (commit\<lparr>c_DeletePendingID := blk_Source b, c_UnfulfillLeaseHash := blk_Source b,
                     c_ExpectLeaseHash := blk_Source b, c_ExpectLeaseState := LeaseAccepted,
                     c_ExpectLeaseEffectiveDurationSecs := EffectiveDurationSecs ls\<rparr>, prevBalance, ls))"

definition validateAndAddLeaseForceSettle :: "env \<Rightarrow> block \<Rightarrow> bool \<Rightarrow> ledger \<Rightarrow> unit result \<times> ledger" where
  "validateAndAddLeaseForceSettle E b skipSkew l =
     (case force_settle_commit E b skipSkew l of
        Inl e \<Rightarrow> (Inl e, l)
      | Inr (commit, prevBalance, ls) \<Rightarrow>
          and_then (commitBlockWrite commit prevBalance l)
            (reputation_Apply \<lparr>ev_Kind = EventLeaseUnfulfilled, ev_Provider = ls_Provider ls,
               ev_Consumer = blk_Account b, ev_Timestamp = blk_Timestamp b, ev_DurationSecs = 0\<rparr>))"

definition settle_commit :: "env \<Rightarrow> block \<Rightarrow> bool \<Rightarrow> ledger \<Rightarrow> (block_commit \<times> u64 \<times> lease) result" where
  "settle_commit E b skipSkew l =
     (if blk_Asset b \<noteq> ''XE'' then Err ''lease_settle block must have asset=XE''
      else if blk_Source b = [] then Err ''lease_settle must reference a source lease hash''
      else case getLeaseOverlay l (blk_Source b) of None \<Rightarrow> Err ''lease not found: %s'' | Some ls \<Rightarrow>
      if ls_Settled ls then Err ''lease already settled''
      else if ls_Provider ls \<noteq> blk_Account b then Err ''lease_settle: provider account mismatch''
      else if ls_State ls \<noteq> LeaseAccepted
      then if ls_State ls = LeaseCreated
           then Err ''lease not yet accepted for settle (state %s): retry after accept''
           else Err ''lease_settle: lease not settleable in %s state''
      else case attested_time E l b skipSkew ''lease_settle'' of Inl e \<Rightarrow> Inl e | Inr settleTime \<Rightarrow>
      let T = l_timing l; expiry = EffectiveExpiry ls
      in if settleTime < expiry then Err ''lease not yet expired: need timestamp >= %d, got %d''
      else if settleTime > i64 (expiry + LeaseSettleGrace T)
      then if skipSkew \<and> renewalMayBeMissing ls
           then Err ''lease settle past grace for the renewals applied here: timestamp %d exceeds expiry+grace %d: retry after sync''
           else Err ''lease settle past grace: timestamp %d exceeds expiry+grace %d''
      else case LeaseTotalEmission ls of Inl e \<Rightarrow> wrap ''lease_settle: '' e | Inr expectedXE \<Rightarrow>
      if blk_Amount b \<noteq> expectedXE
      then if skipSkew \<and> blk_Amount b > expectedXE \<and> renewalMayBeMissing ls
           then Err ''lease_settle XE exceeds the %d segment(s) applied here: expected %d, got %d: retry after sync''
           else Err ''lease_settle XE mismatch: expected %d (segments=%d, base cost=%d, R=%d), got %d''
      else if getPendingSendOverlay l (blk_Source b) = None then Err ''no escrow pending to burn for lease: %s''
      else case check_extends ''lease_settle from unopened account'' b (getAccountChainOverlay l (blk_Account b)) of
        Inl e \<Rightarrow> Inl e
      | Inr _ \<Rightarrow>
      let oldXEBal = getAssetBalanceOverlay l (blk_Account b) ''XE'';
          (commit, prevBalance) = prepareBlockWrite l b
      in if oldXEBal + blk_Amount b < oldXEBal then Err ''lease_settle would overflow uint64 balance''
         else if blk_Balance b \<noteq> oldXEBal + blk_Amount b then Err ''balance mismatch: expected %d, got %d''
         else Inr (commit\<lparr>c_SettleLeaseHash := blk_Source b, c_DeletePendingID := blk_Source b,
                     c_ExpectLeaseHash := blk_Source b, c_ExpectLeaseState := LeaseAccepted,
                     c_ExpectLeaseEffectiveDurationSecs := EffectiveDurationSecs ls,
                     c_AssetCredit := Some \<lparr>ad_Account = blk_Account b, ad_Asset = ''XUSD'', ad_Amount = ls_Stake ls\<rparr>\<rparr>,
                   prevBalance, ls))"

definition validateAndAddLeaseSettle :: "env \<Rightarrow> block \<Rightarrow> bool \<Rightarrow> ledger \<Rightarrow> unit result \<times> ledger" where
  "validateAndAddLeaseSettle E b skipSkew l =
     (case settle_commit E b skipSkew l of
        Inl e \<Rightarrow> (Inl e, l)
      | Inr (commit, prevBalance, ls) \<Rightarrow>
          and_then (commitBlockWrite commit prevBalance l)
            (reputation_Apply \<lparr>ev_Kind = EventLeaseSettled, ev_Provider = ls_Provider ls,
               ev_Consumer = ls_Consumer ls, ev_Timestamp = blk_Timestamp b, ev_DurationSecs = ls_Duration ls\<rparr>))"

definition renew_commit :: "env \<Rightarrow> block \<Rightarrow> bool \<Rightarrow> ledger \<Rightarrow> (block_commit \<times> u64) result" where
  "renew_commit E b skipSkew l =
     (if blk_Asset b \<noteq> ''XUSD'' then Err ''lease_renew block must have asset=XUSD''
      else if blk_Source b = [] then Err ''lease_renew must reference a source lease hash''
      else case getLeaseOverlay l (blk_Source b) of None \<Rightarrow> Err ''lease not found: %s'' | Some ls \<Rightarrow>
      if ls_Settled ls then Err ''lease already settled''
      else if ls_State ls \<noteq> LeaseAccepted
      then if ls_State ls = LeaseCreated
           then Err ''lease not yet accepted for renewal (state %s): retry after accept''
           else Err ''lease_renew: lease not renewable in %s state''
      else if ls_Consumer ls \<noteq> blk_Account b then Err ''lease_renew: only the consumer can renew a lease''
      else if blk_Duration b < LeaseMinDuration (l_timing l)
      then Err ''lease_renew duration must be >= %d seconds, got %d''
      else let (newEffective, ok) = safeAdd (EffectiveDurationSecs ls) (blk_Duration b)
      in if \<not> ok \<or> newEffective > LeaseMaxDuration
      then Err ''lease_renew: cumulative duration %d + %d exceeds max %d''
      else case attested_time E l b skipSkew ''lease_renew'' of Inl e \<Rightarrow> Inl e | Inr renewTime \<Rightarrow>
      if renewTime < ls_StartTime ls then Err ''lease_renew: renewal time %d before lease start %d''
      else if renewTime \<ge> EffectiveExpiry ls
      then Err ''lease_renew: lease no longer live (renewal time %d >= effective expiry %d)''
      else if blk_CertificateHash b = [] then Err ''lease_renew: performance certificate required''
      else case cfg_CertificateLookupFn E of None \<Rightarrow> Err ''lease_renew: certificate lookup not configured'' | Some lookup \<Rightarrow>
      case lookup (blk_CertificateHash b) of None \<Rightarrow> Err ''lease_renew: certificate %s not found'' | Some cert \<Rightarrow>
      if ci_Provider cert \<noteq> ls_Provider ls
      then Err ''lease_renew: certificate %s belongs to %s, not the lease provider %s''
      else if ci_ExpiresAt cert \<noteq> 0 \<and> renewTime > ci_ExpiresAt cert
      then Err ''lease_renew: certificate %s expired at %d, renewal time %d''
      else case LeaseCost (l_timing l) (ls_VCPUs ls) (ls_MemoryMB ls) (ls_DiskGB ls) (blk_Duration b) (ci_PriceMultiplierMilli cert) of
        Inl e \<Rightarrow> wrap ''lease_renew cost '' e
      | Inr expectedCost \<Rightarrow>
      if blk_Amount b \<noteq> expectedCost then Err ''lease_renew cost mismatch: expected %d (multiplier %d), got %d''
      else if blk_LockedR b = 0 then Err ''lease_renew missing locked emission params: locked_r must be set''
      else case validateLockedEmissionAt E renewTime (blk_LockedR b) (blk_LockedPayoutCap b) (blk_LockedTWAP b) skipSkew ''lease_renew'' of
        Inl e \<Rightarrow> Inl e
      | Inr _ \<Rightarrow>
      if getPendingSendOverlay l (blk_Source b) = None then Err ''lease_renew: no live escrow for lease %s''
      else case check_extends ''lease_renew from unopened account'' b (getAccountChainOverlay l (blk_Account b)) of
        Inl e \<Rightarrow> Inl e
      | Inr _ \<Rightarrow>
      let oldBal = getAssetBalanceOverlay l (blk_Account b) ''XUSD'';
          (commit, prevBalance) = prepareBlockWrite l b
      in if blk_Amount b > oldBal then Err ''insufficient XUSD balance for renewal: have %d, need %d''
         else if blk_Balance b \<noteq> oldBal - blk_Amount b then Err ''balance mismatch: expected %d, got %d''
         else Inr (commit\<lparr>c_TopUpPendingID := blk_Source b, c_TopUpPendingAmount := blk_Amount b,
                     c_PutLease := Some (ls\<lparr>ls_Renewals := ls_Renewals ls @
                       [\<lparr>seg_RenewHash = blk_Hash b, seg_Duration = blk_Duration b, seg_Cost = blk_Amount b,
                         seg_StartTime = renewTime, seg_CertificateHash = blk_CertificateHash b,
                         seg_LockedR = blk_LockedR b, seg_LockedPayoutCap = blk_LockedPayoutCap b,
                         seg_LockedTWAP = blk_LockedTWAP b\<rparr>]\<rparr>),
                     c_ExpectLeaseHash := blk_Source b, c_ExpectLeaseState := LeaseAccepted,
                     c_ExpectLeaseEffectiveDurationSecs := EffectiveDurationSecs ls\<rparr>, prevBalance))"

definition validateAndAddLeaseRenew :: "env \<Rightarrow> block \<Rightarrow> bool \<Rightarrow> ledger \<Rightarrow> unit result \<times> ledger" where
  "validateAndAddLeaseRenew E b skipSkew l = finish (renew_commit E b skipSkew l) l"

section \<open>Dispatch\<close>

text \<open>No feature registers a validator of its own, so every other type is unknown.\<close>

definition dispatchValidateAndAdd :: "env \<Rightarrow> block \<Rightarrow> bool \<Rightarrow> ledger \<Rightarrow> unit result \<times> ledger" where
  "dispatchValidateAndAdd E b skipTimestamp l =
     (case verifyBlockCredential E b l of
        (Inl e, l1) \<Rightarrow> (Inl e, l1)
      | (Inr _, l1) \<Rightarrow>
          (case blk_Type b of
             BlockSend \<Rightarrow> validateAndAddSend b l1
           | BlockReceive \<Rightarrow> validateAndAddReceive b l1
           | BlockGenesis \<Rightarrow> validateAndAddGenesis E b l1
           | BlockLease \<Rightarrow> validateAndAddLease E b l1
           | BlockLeaseAccept \<Rightarrow> validateAndAddLeaseAccept E b skipTimestamp l1
           | BlockLeaseSettle \<Rightarrow> validateAndAddLeaseSettle E b skipTimestamp l1
           | BlockLeaseCancel \<Rightarrow> validateAndAddLeaseCancel E b l1
           | BlockLeaseForceSettle \<Rightarrow> validateAndAddLeaseForceSettle E b skipTimestamp l1
           | BlockLeaseRenew \<Rightarrow> validateAndAddLeaseRenew E b skipTimestamp l1
           | BlockMultisigOpen \<Rightarrow> validateAndAddMultisigOpen E b l1
           | BlockMultisigUpdate \<Rightarrow> validateAndAddMultisigUpdate b l1
           | BlockBurn \<Rightarrow> validateAndAddBurn b l1
           | BlockMint \<Rightarrow> validateAndAddMint E b l1
           | BlockOther _ \<Rightarrow> (Err ''unknown block type'', l1)))"

end
