(* ===== verification/XE_Weights.thy ===== *)
theory XE_Weights
  imports XE_Ledger
begin

text \<open>
  Vote weights as consensus reads them: the representative policy of
  \<open>core/repeligibility.go\<close> and the weight queries of \<open>core/ledger.go\<close>. A published
  allowlist counts only while it covers some delegated weight; otherwise every
  representative counts. The warning flag and log lines are not part of the state.
\<close>

section \<open>Definitions\<close>

definition allowlist :: "representative_config option \<Rightarrow> string list option" where
  "allowlist co =
     (case co of
        None \<Rightarrow> None
      | Some c \<Rightarrow>
          if rc_Mode c \<noteq> ''allowlist'' \<or> rc_Addresses c = [] then None
          else let s = remdups (filter (\<lambda>a. a \<noteq> []) (rc_Addresses c))
               in if s = [] then None else Some s)"

definition configuredAllowlist :: "env \<Rightarrow> string list option" where
  "configuredAllowlist E = (case cfg_RepresentativeConfigFn E of None \<Rightarrow> None | Some cfg \<Rightarrow> allowlist cfg)"

definition weight_of :: "ledger \<Rightarrow> string \<Rightarrow> int" where
  "weight_of l rep = mdef 0 (l_weights l) rep"

definition eligibleAllowlistLocked :: "env \<Rightarrow> ledger \<Rightarrow> string list option" where
  "eligibleAllowlistLocked E l =
     (case configuredAllowlist E of
        None \<Rightarrow> None
      | Some s \<Rightarrow> if list_ex (\<lambda>rep. weight_of l rep > 0) s then Some s else None)"

definition RepEligibilityFailedOpen :: "env \<Rightarrow> ledger \<Rightarrow> bool" where
  "RepEligibilityFailedOpen E l \<longleftrightarrow>
     (case configuredAllowlist E of
        None \<Rightarrow> False
      | Some s \<Rightarrow> \<not> list_ex (\<lambda>rep. weight_of l rep > 0) s \<and> list_ex (\<lambda>(rep, w). w > 0) (l_weights l))"

definition repEligibleLocked :: "string list option \<Rightarrow> string \<Rightarrow> bool" where
  "repEligibleLocked so rep = (case so of None \<Rightarrow> True | Some s \<Rightarrow> rep \<in> set s)"

definition sumEligibleLocked :: "ledger \<Rightarrow> string list option \<Rightarrow> int" where
  "sumEligibleLocked l so =
     (case so of
        Some s \<Rightarrow> sum_list (map (\<lambda>rep. if weight_of l rep > 0 then weight_of l rep else 0) s)
      | None \<Rightarrow> msum (\<lambda>rep w. if w > 0 then w else 0) (l_weights l))"

definition clamp_u64 :: "int \<Rightarrow> u64" where
  "clamp_u64 w = (if w < 2 ^ 64 then word_of_int w else - 1)"

definition snapshotWeights :: "env \<Rightarrow> ledger \<Rightarrow> (string, u64) gomap" where
  "snapshotWeights E l =
     map (\<lambda>(rep, w). (rep, clamp_u64 w))
       (filter (\<lambda>(rep, w). w > 0 \<and> repEligibleLocked (eligibleAllowlistLocked E l) rep) (l_weights l))"

definition GetVoteWeight :: "env \<Rightarrow> ledger \<Rightarrow> string \<Rightarrow> int" where
  "GetVoteWeight E l rep =
     (if \<not> repEligibleLocked (eligibleAllowlistLocked E l) rep then 0 else weight_of l rep)"

definition GetTotalDelegatedWeight :: "env \<Rightarrow> ledger \<Rightarrow> int" where
  "GetTotalDelegatedWeight E l = sumEligibleLocked l (eligibleAllowlistLocked E l)"

definition GetAllVoteWeights :: "ledger \<Rightarrow> (string, u64) gomap" where
  "GetAllVoteWeights l = map (\<lambda>(rep, w). (rep, clamp_u64 w)) (filter (\<lambda>(rep, w). w > 0) (l_weights l))"

definition GetIneligibleWeight :: "env \<Rightarrow> ledger \<Rightarrow> int" where
  "GetIneligibleWeight E l =
     (case eligibleAllowlistLocked E l of
        None \<Rightarrow> 0
      | Some s \<Rightarrow> msum (\<lambda>rep w. if w > 0 \<and> rep \<notin> set s then w else 0) (l_weights l))"

section \<open>The policy never empties the electorate\<close>

lemma sum_list_nonneg_pos:
  assumes "x \<in> set xs" "0 < (f x :: int)" "\<And>y. 0 \<le> f y"
  shows "0 < sum_list (map f xs)"
  using assms(1)
proof (induction xs)
  case (Cons y ys)
  have "0 \<le> sum_list (map f ys)" using assms(3) by (intro sum_list_nonneg) auto
  with Cons assms(2) assms(3) [of y] show ?case by (cases "x = y") (auto simp: add_pos_nonneg add_nonneg_pos)
qed simp

lemma allowlist_distinct: "allowlist c = Some s \<Longrightarrow> distinct s \<and> s \<noteq> []"
  by (auto simp: allowlist_def Let_def split: option.splits if_splits)

lemma eligible_SomeD:
  "eligibleAllowlistLocked E l = Some s \<Longrightarrow>
   configuredAllowlist E = Some s \<and> distinct s \<and> (\<exists>rep\<in>set s. 0 < weight_of l rep)"
  by (auto simp: eligibleAllowlistLocked_def configuredAllowlist_def list_ex_iff
      dest: allowlist_distinct split: option.splits if_splits)

lemma weight_positive_entry:
  "0 < weight_of l rep \<Longrightarrow> \<exists>w. mget (l_weights l) rep = Some w \<and> 0 < w"
  by (auto simp: weight_of_def mdef_def split: option.splits)

lemma total_weight_positive:
  assumes "0 < weight_of l rep"
  shows "0 < GetTotalDelegatedWeight E l"
proof (cases "eligibleAllowlistLocked E l")
  case None
  obtain w where w: "mget (l_weights l) rep = Some w" "0 < w"
    using weight_positive_entry [OF assms] by blast
  then have "(rep, w) \<in> set (l_weights l)" by (simp add: map_of_SomeD)
  then have "0 < sum_list (map (\<lambda>(k, v). if 0 < v then v else 0) (l_weights l))"
    by (rule sum_list_nonneg_pos) (use w in auto)
  with None show ?thesis
    by (simp add: GetTotalDelegatedWeight_def sumEligibleLocked_def msum_def)
next
  case (Some s)
  from eligible_SomeD [OF this] obtain r where r: "r \<in> set s" "0 < weight_of l r" by blast
  have "0 < sum_list (map (\<lambda>rep. if weight_of l rep > 0 then weight_of l rep else 0) s)"
    by (rule sum_list_nonneg_pos [OF r(1)]) (use r in auto)
  with Some show ?thesis by (simp add: GetTotalDelegatedWeight_def sumEligibleLocked_def)
qed

end
