(* ===== verification/XE_Admission.thy ===== *)
theory XE_Admission
  imports XE_Handlers XE_Weights
begin

text \<open>
  The entry points of the ledger: \<open>AddBlock\<close> and \<open>AddSyncedBlock\<close> (\<open>core/ledger.go\<close>) with
  the detection and recording of conflicts (\<open>core/conflict.go\<close>), and the checks on a block
  that is staged as one side of a conflict. The callbacks that announce a new block or a
  conflict run in goroutines of their own and do not touch the ledger; they are left out.
\<close>

section \<open>Finality queries\<close>

definition GetBlockHeight :: "ledger \<Rightarrow> string \<Rightarrow> string \<Rightarrow> u64 result" where
  "GetBlockHeight l account blockHash =
     (case store_GetAccountChain (l_store l) account of
        None \<Rightarrow> Err ''GetBlockHeight: account %s not found''
      | Some chain \<Rightarrow>
          (case first_index (\<lambda>b. blk_Hash b = blockHash) chain of
             None \<Rightarrow> Err ''GetBlockHeight: block %s not found in account %s''
           | Some i \<Rightarrow> Inr (of_nat (i + 1))))"

definition IsFinalized :: "ledger \<Rightarrow> string \<Rightarrow> string \<Rightarrow> bool" where
  "IsFinalized l account blockHash =
     (case GetBlockHeight l account blockHash of
        Inl _ \<Rightarrow> False
      | Inr h \<Rightarrow> if h = 0 then False else h \<le> FinalHeight l account)"

definition FinalizedChildHash :: "ledger \<Rightarrow> string \<Rightarrow> string \<Rightarrow> string" where
  "FinalizedChildHash l account prev =
     (case store_GetAccountChain (l_store l) account of
        None \<Rightarrow> []
      | Some chain \<Rightarrow>
          let isOpen = (prev = [] \<or> prev = ''0'')
          in case first_index (\<lambda>(i, b). blk_Previous b = prev \<or> (isOpen \<and> i = 0)) (enumerate 0 chain) of
               None \<Rightarrow> []
             | Some i \<Rightarrow> if of_nat (i + 1) \<le> FinalHeight l account then blk_Hash (chain ! i) else [])"

section \<open>Conflicts\<close>

definition detectConflictSibling :: "account_chain option \<Rightarrow> block \<Rightarrow> string" where
  "detectConflictSibling chainOpt b =
     (case chainOpt of
        None \<Rightarrow> []
      | Some chain \<Rightarrow>
          (case find (\<lambda>existing. blk_Previous existing = blk_Previous b) chain of
             None \<Rightarrow> []
           | Some existing \<Rightarrow> blk_Hash existing))"

definition NewConflict :: "env \<Rightarrow> string \<Rightarrow> string \<Rightarrow> string \<Rightarrow> string \<Rightarrow> conflict" where
  "NewConflict E account previousHash hashA hashB =
     \<lparr>cf_AccountAddress = account, cf_PreviousHash = previousHash, cf_BlockHashes = [hashA, hashB],
      cf_DetectedAt = now_ns E, cf_WeightSnapshot = None, cf_TotalWeight = 0\<rparr>"

definition maxConflictHashes :: nat where "maxConflictHashes = 10"

definition recordConflict :: "env \<Rightarrow> string \<Rightarrow> string \<Rightarrow> string \<Rightarrow> string \<Rightarrow> mem_store \<Rightarrow> bool \<times> mem_store" where
  "recordConflict E account previous existingHash newHash m =
     (case store_GetConflict m account previous of
        None \<Rightarrow> (True, store_SaveConflict (NewConflict E account previous existingHash newHash) m)
      | Some record \<Rightarrow>
          if newHash \<in> set (cf_BlockHashes record) then (False, m)
          else if length (cf_BlockHashes record) \<ge> maxConflictHashes then (False, m)
          else (False, store_SaveConflict (record\<lparr>cf_BlockHashes := cf_BlockHashes record @ [newHash]\<rparr>) m))"

section \<open>Staged blocks\<close>

definition staged_spend :: "string \<Rightarrow> string \<Rightarrow> block \<Rightarrow> u64 \<Rightarrow> unit result" where
  "staged_spend verb short b parentBalance =
     (if blk_Amount b > parentBalance then Err (verb @ '': insufficient balance: have '' @ short)
      else if blk_Balance b \<noteq> parentBalance - blk_Amount b
      then Err (verb @ '': balance mismatch: expected %d, got %d'')
      else Inr ())"

definition staged_credit :: "string \<Rightarrow> bool \<Rightarrow> block \<Rightarrow> u64 \<Rightarrow> u64 \<Rightarrow> unit result" where
  "staged_credit verb checked b parentBalance amount =
     (if checked \<and> parentBalance + amount < parentBalance then Err (verb @ '': balance would overflow uint64'')
      else if blk_Balance b \<noteq> parentBalance + amount then Err (verb @ '': balance mismatch: expected %d, got %d'')
      else Inr ())"

definition staged_checks :: "env \<Rightarrow> block \<Rightarrow> u64 \<Rightarrow> ledger \<Rightarrow> unit result" where
  "staged_checks E b parentBalance l =
     (case blk_Type b of
        BlockSend \<Rightarrow>
          if blk_Amount b = 0 then Err ''staged send: amount must be > 0''
          else (case staged_spend ''staged send'' ''%d, sending %d'' b parentBalance of Inl e \<Rightarrow> Inl e | Inr _ \<Rightarrow>
            if blk_Destination b = [] then Err ''staged send: must have a destination''
            else if blk_Destination b = blk_Account b then Err ''staged send: cannot send to self''
            else Inr ())
      | BlockReceive \<Rightarrow>
          if blk_Source b = [] then Err ''staged receive: must reference a source send''
          else (case store_GetPendingSend (l_store l) (blk_Source b) of
            None \<Rightarrow> Err ''staged receive: source send not pending: %s''
          | Some pending \<Rightarrow>
            if ps_Destination pending \<noteq> blk_Account b then Err ''staged receive: send not addressed to this account''
            else if isLiveLeaseEscrow l (blk_Source b) then Err ''staged receive: cannot receive a live lease escrow: %s''
            else staged_credit ''staged receive'' True b parentBalance (ps_Amount pending))
      | BlockLease \<Rightarrow> staged_spend ''staged lease'' ''%d, need %d'' b parentBalance
      | BlockLeaseAccept \<Rightarrow> staged_spend ''staged lease_accept'' ''%d, need %d'' b parentBalance
      | BlockLeaseSettle \<Rightarrow>
          (case store_GetPendingSend (l_store l) (blk_Source b) of
            None \<Rightarrow> Err ''staged lease_settle: no pending escrow for lease''
          | Some _ \<Rightarrow> staged_credit ''staged lease_settle'' True b parentBalance (blk_Amount b))
      | BlockLeaseCancel \<Rightarrow>
          (case store_GetPendingSend (l_store l) (blk_Source b) of
            None \<Rightarrow> Err ''staged lease_cancel: no pending send for lease''
          | Some pending \<Rightarrow> staged_credit ''staged lease_cancel'' False b parentBalance (ps_Amount pending))
      | BlockLeaseForceSettle \<Rightarrow>
          (case store_GetPendingSend (l_store l) (blk_Source b) of
            None \<Rightarrow> Err ''staged lease_force_settle: no pending escrow for lease''
          | Some pending \<Rightarrow> staged_credit ''staged lease_force_settle'' False b parentBalance (ps_Amount pending))
      | BlockMultisigOpen \<Rightarrow> Err ''staged multisig_open: conflicting account opens are invalid''
      | BlockMultisigUpdate \<Rightarrow>
          if blk_Balance b \<noteq> parentBalance then Err ''staged multisig_update: balance mismatch: expected %d, got %d'' else Inr ()
      | BlockBurn \<Rightarrow>
          if blk_Asset b \<noteq> ''XE'' then Err ''staged burn: restricted to XE''
          else if blk_Amount b = 0 then Err ''staged burn: amount must be > 0''
          else staged_spend ''staged burn'' ''%d XE, burning %d'' b parentBalance
      | BlockMint \<Rightarrow>
          if blk_Asset b \<noteq> ''XUSD'' then Err ''staged mint: restricted to XUSD''
          else if \<not> isMinter E (blk_Account b) then Err ''staged mint: account %s is not an authorized minter''
          else if blk_Amount b = 0 then Err ''staged mint: amount must be > 0''
          else staged_credit ''staged mint'' True b parentBalance (blk_Amount b)
      | _ \<Rightarrow> Err ''staged block: unknown type: %s'')"

definition ValidateStagedBlock :: "env \<Rightarrow> block \<Rightarrow> u64 \<Rightarrow> ledger \<Rightarrow> unit result \<times> ledger" where
  "ValidateStagedBlock E b parentBalance l =
     (case verifyBlockCredential E b l of
        (Inl e, l1) \<Rightarrow> (Inl e, l1)
      | (Inr _, l1) \<Rightarrow> (staged_checks E b parentBalance l1, l1))"

text \<open>
  The balance of an asset at the parent of a conflicting block: the loop stops behind the
  block with hash \<open>prev\<close>.
\<close>

fun balance_up_to :: "string \<Rightarrow> string \<Rightarrow> u64 \<Rightarrow> block list \<Rightarrow> u64" where
  "balance_up_to asset prev bal [] = bal"
| "balance_up_to asset prev bal (cb # cbs) =
     (let bal1 = (if blk_Asset cb = asset then blk_Balance cb else bal)
      in if blk_Hash cb = prev then bal1 else balance_up_to asset prev bal1 cbs)"

section \<open>Adding a block\<close>

definition normalizeBlockHex :: "block \<Rightarrow> block" where
  "normalizeBlockHex b =
     b\<lparr>blk_Account := ToLower (blk_Account b), blk_Previous := ToLower (blk_Previous b),
       blk_Hash := ToLower (blk_Hash b), blk_Signature := ToLower (blk_Signature b),
       blk_Destination := ToLower (blk_Destination b), blk_Source := ToLower (blk_Source b),
       blk_Representative := ToLower (blk_Representative b), blk_PubKey := ToLower (blk_PubKey b),
       blk_Signatures := map (\<lambda>s. s\<lparr>sg_PublicKey := ToLower (sg_PublicKey s), sg_Sig := ToLower (sg_Sig s)\<rparr>) (blk_Signatures b),
       blk_MSKeyset := map_option (\<lambda>ks. ks\<lparr>ks_Keys := map ToLower (ks_Keys ks)\<rparr>) (blk_MSKeyset b)\<rparr>"

definition carries_attestations :: "block_type \<Rightarrow> bool" where
  "carries_attestations t \<longleftrightarrow> t \<in> {BlockLeaseAccept, BlockLeaseSettle, BlockLeaseForceSettle, BlockLeaseRenew}"

definition strip_attestations :: "block \<Rightarrow> block" where
  "strip_attestations b = (if carries_attestations (blk_Type b) then b else b\<lparr>blk_Attestations := []\<rparr>)"

text \<open>The checks that do not need the ledger state: hash, proof of work, clock.\<close>

definition timestamp_delta :: "int \<Rightarrow> int \<Rightarrow> int" where
  "timestamp_delta ts now = (if ts > now then i64 (ts - now) else i64 (now - ts))"

definition admission_checks :: "env \<Rightarrow> block \<Rightarrow> bool \<Rightarrow> unit result" where
  "admission_checks E b skipTimestamp =
     (if length (blk_Attestations b) > MaxAttestationsPerBlock then Err ''too many attestations: %d exceeds max %d''
      else case VerifyBlock E b of
        Inl e \<Rightarrow> wrap ''verify: '' e
      | Inr _ \<Rightarrow>
      case (if cfg_Difficulty E > 0
            then case hex_DecodeString (blk_Hash b) of
                   Inl e \<Rightarrow> wrap ''decode hash: '' e
                 | Inr hashBytes \<Rightarrow>
                     if \<not> ValidatePoW E hashBytes (blk_PoWNonce b) (cfg_Difficulty E)
                     then Err ''invalid proof of work'' else Inr ()
            else Inr ()) of
        Inl e \<Rightarrow> Inl e
      | Inr _ \<Rightarrow>
      if \<not> skipTimestamp \<and> cfg_TimestampWindow E > 0
      then if blk_Timestamp b < 0 then Err ''block timestamp must not be negative''
           else if timestamp_delta (blk_Timestamp b) (now_ns E) > cfg_TimestampWindow E
           then Err ''block timestamp out of range: delta=%v'' else Inr ()
      else Inr ())"

text \<open>The conflict record after a new block was recorded, with the weights of the moment.\<close>

definition snapshot_conflict :: "env \<Rightarrow> ledger \<Rightarrow> conflict \<Rightarrow> conflict" where
  "snapshot_conflict E l record =
     (let snap = snapshotWeights E l
      in record\<lparr>cf_WeightSnapshot := Some snap, cf_TotalWeight := msum (\<lambda>rep w. w) snap\<rparr>)"

definition stage_conflict :: "env \<Rightarrow> block \<Rightarrow> string \<Rightarrow> ledger \<Rightarrow> ledger" where
  "stage_conflict E b siblingHash l =
     (let (isNew, m1) = recordConflict E (blk_Account b) (blk_Previous b) siblingHash (blk_Hash b) (l_store l);
          record = store_GetConflict m1 (blk_Account b) (blk_Previous b);
          m2 = (case record of
                  None \<Rightarrow> m1
                | Some r \<Rightarrow> if blk_Hash b \<in> set (cf_BlockHashes r) then store_SaveStagedBlock b m1 else m1);
          m3 = (if isNew
                then case store_GetConflict m2 (blk_Account b) (blk_Previous b) of
                       None \<Rightarrow> m2
                     | Some r \<Rightarrow> store_SaveConflict (snapshot_conflict E l r) m2
                else m2)
      in l\<lparr>l_store := m3\<rparr>)"

definition add_conflicting :: "env \<Rightarrow> block \<Rightarrow> string \<Rightarrow> account_chain option \<Rightarrow> ledger \<Rightarrow> unit result \<times> ledger" where
  "add_conflicting E b siblingHash chainOpt l =
     (if IsFinalized l (blk_Account b) siblingHash
      then (Err ''block conflicts with finalized block %s - rejected'', l)
      else if blk_Asset b = [] then (Err ''conflict block must have an asset'', l)
      else if \<not> IsValidAsset (blk_Asset b) then (Err ''conflict block: unsupported asset: %q'', l)
      else
      let parentBalance = (case chainOpt of
                             None \<Rightarrow> 0
                           | Some chain \<Rightarrow> if blk_Previous b \<noteq> ''0''
                                           then balance_up_to (blk_Asset b) (blk_Previous b) 0 chain else 0)
      in case ValidateStagedBlock E b parentBalance l of
           (Inl e, l1) \<Rightarrow> (wrap ''conflict block: '' e, l1)
         | (Inr _, l1) \<Rightarrow> (Inr (), stage_conflict E b siblingHash l1))"

definition addBlock :: "env \<Rightarrow> block \<Rightarrow> bool \<Rightarrow> ledger \<Rightarrow> unit result \<times> ledger" where
  "addBlock E b0 skipTimestamp l =
     (let b = strip_attestations (normalizeBlockHex b0)
      in case admission_checks E b skipTimestamp of
        Inl e \<Rightarrow> (Inl e, l)
      | Inr _ \<Rightarrow>
      if store_GetBlock (l_store l) (blk_Hash b) \<noteq> None then (Inr (), l)
      else case verifyBlockCredential E b l of
        (Inl e, l1) \<Rightarrow> (Inl e, l1)
      | (Inr _, l1) \<Rightarrow>
      let chain = store_GetAccountChain (l_store l1) (blk_Account b);
          siblingHash = detectConflictSibling chain b
      in if siblingHash \<noteq> [] then add_conflicting E b siblingHash chain l1
         else if store_GetConflictsForAccount (l_store l1) (blk_Account b) \<noteq> []
         then (Err ''account has unresolved conflict - block rejected pending resolution'', l1)
         else if blk_Asset b = [] then (Err ''block must have an asset'', l1)
         else if \<not> IsValidAsset (blk_Asset b) then (Err ''unsupported asset: %q'', l1)
         else case dispatchValidateAndAdd E b skipTimestamp l1 of
                (Inl e, l2) \<Rightarrow>
                  (if e = Error ''unknown block type'' then Err ''unknown block type: %s'' else Inl e, l2)
              | (Inr _, l2) \<Rightarrow> (Inr (), l2))"

definition AddBlock :: "env \<Rightarrow> block \<Rightarrow> ledger \<Rightarrow> unit result \<times> ledger" where
  "AddBlock E b l = addBlock E b False l"

definition AddSyncedBlock :: "env \<Rightarrow> block \<Rightarrow> ledger \<Rightarrow> unit result \<times> ledger" where
  "AddSyncedBlock E b l = addBlock E b True l"

end
