(* ===== verification/XE_Contracts.thy ===== *)
theory XE_Contracts
  imports XE_Undo XE_Admission
begin

text \<open>
  The contract of a block handler: on a ledger in its invariant it either leaves the
  ledger as it was, up to an undone lease acceptance, or writes exactly the block it was
  given. The contract is the locale \<open>block_handler\<close>; every handler of the ledger is an
  interpretation of it, and the dispatch and \<open>addBlock\<close> inherit it.
\<close>

section \<open>The steps of the ledger\<close>

text \<open>
  \<open>settled l l'\<close>: no block was written. The cores agree, or the acceptance of a live lease,
  the tip of its provider's chain and above the final height, was taken back.
\<close>

inductive settled :: "ledger \<Rightarrow> ledger \<Rightarrow> bool" for l where
  same: "core l' = core l \<Longrightarrow> settled l l'"
| unaccept: "\<lbrakk>core l0 = core l; mget (m_chains (l_store l0)) a = Some c;
    buildBlockUndo l0 a (last c) (Some c) = Inr (u, ap);
    blk_Type (last c) = BlockLeaseAccept; mget (m_leases (l_store l0)) (blk_Source (last c)) = Some ls;
    ls_State ls = LeaseAccepted; \<not> of_nat (length c) \<le> FinalHeight l0 a;
    core l' = core (undone u ap l0)\<rbrakk> \<Longrightarrow> settled l l'"

inductive advances :: "block option \<Rightarrow> ledger \<Rightarrow> ledger \<Rightarrow> bool" where
  stay: "settled l l' \<Longrightarrow> advances None l l'"
| writes: "\<lbrakk>settled l l1; commit_ok l1 b c p; commitBlockWrite c p l1 = (Inr (), l2); core l' = core l2\<rbrakk>
    \<Longrightarrow> advances (Some b) l l'"

lemma settled_ok:
  assumes "settled l l'" "ledger_ok l"
  shows "ledger_ok l'"
  using assms(1)
proof cases
  case same
  with assms(2) show ?thesis using ledger_ok_core by blast
next
  case (unaccept l0 a c u ap ls)
  then have "ledger_ok (undone u ap l0)"
    using assms(2) ledger_ok_core [OF unaccept(1)]
    by (intro undone_accept_ok [OF _ unaccept(2) refl unaccept(3-5)]) (auto simp: live_def)
  with ledger_ok_core [OF unaccept(8)] show ?thesis by simp
qed

lemma advances_ok:
  assumes "advances bo l l'" "ledger_ok l"
  shows "ledger_ok l'"
  using assms(1)
proof cases
  case stay
  with assms(2) show ?thesis by (simp add: settled_ok)
next
  case (writes l1 b c p l2)
  then show ?thesis
    using write_ledger_ok [OF settled_ok [OF writes(2) assms(2)] writes(4,3)] ledger_ok_core [OF writes(5)] by simp
qed

lemma settled_blocks:
  assumes "settled l l'" "ledger_ok l"
  shows "m_blocks (l_store l') = m_blocks (l_store l)"
  using assms(1)
proof cases
  case same
  then show ?thesis by (rule core_eqD)
next
  case (unaccept l0 a c u ap ls)
  have "ledger_ok l0" using ledger_ok_core [OF unaccept(1)] assms(2) by simp
  from undone_facts(1) [OF this unaccept(2) refl unaccept(3)] show ?thesis
    using core_eqD(1) [OF unaccept(8)] core_eqD(1) [OF unaccept(1)] by simp
qed

lemma settled_core_trans:
  assumes "settled l l1" "core l' = core l1"
  shows "settled l l'"
  using assms(1)
proof cases
  case same
  with assms(2) show ?thesis by (simp add: settled.same)
next
  case (unaccept l0 a c u ap ls)
  show ?thesis by (rule settled.unaccept [OF unaccept(1-7)]) (simp add: assms(2) unaccept(8))
qed

lemma settled_core_left:
  assumes "core l1 = core l" "settled l1 l'"
  shows "settled l l'"
  using assms(2)
proof cases
  case same
  with assms(1) show ?thesis by (simp add: settled.same)
next
  case (unaccept l0 a c u ap ls)
  show ?thesis by (rule settled.unaccept [OF _ unaccept(2-8)]) (simp add: assms(1) unaccept(1))
qed

lemma advances_core_left:
  assumes "core l1 = core l" "advances bo l1 l'"
  shows "advances bo l l'"
  using assms(2) by (auto elim!: advances.cases intro!: advances.intros settled_core_left [OF assms(1)])

section \<open>The contract\<close>

locale block_handler =
  fixes t :: block_type and handle :: "block \<Rightarrow> ledger \<Rightarrow> unit result \<times> ledger"
  assumes contract: "\<lbrakk>ledger_ok l; fresh b l; blk_Type b = t\<rbrakk> \<Longrightarrow>
    advances (if isl (fst (handle b l)) then None else Some b) l (snd (handle b l))"
begin

lemma handler_ok:
  assumes "ledger_ok l" "fresh b l" "blk_Type b = t"
  shows "ledger_ok (snd (handle b l))"
  using advances_ok [OF contract [OF assms] assms(1)] .

end

section \<open>From a validated commit to the contract\<close>

lemma commit_reject:
  assumes "l_activeCascade l = None" "commitBlockWrite c p l = (Inl e, l')"
  shows "l' = l"
  using assms by (auto simp: commitBlockWrite_def Let_def wrap_def split: sum.splits)

lemma commit_contract:
  assumes ok: "ledger_ok l"
    and c: "\<And>l'. commitBlockWrite c p l = (Inr (), l') \<Longrightarrow> commit_ok l b c p"
  shows "advances (if isl (fst (commitBlockWrite c p l)) then None else Some b) l (snd (commitBlockWrite c p l))"
proof -
  obtain r l' where w: "commitBlockWrite c p l = (r, l')" by (cases "commitBlockWrite c p l")
  have n: "l_activeCascade l = None" using ok by (simp add: ledger_ok_def)
  show ?thesis
  proof (cases r)
    case (Inl e)
    then have "l' = l" using commit_reject [OF n] w by simp
    then show ?thesis using w Inl by (simp add: advances.stay settled.same)
  next
    case (Inr x)
    then have w': "commitBlockWrite c p l = (Inr (), l')" using w by simp
    show ?thesis
      unfolding w' by (simp, rule advances.writes [OF settled.same [OF refl] c [OF w'] w' refl])
  qed
qed

lemma finish_contract:
  assumes "ledger_ok l" "\<And>c p. r = Inr (c, p) \<Longrightarrow> commit_ok l b c p"
  shows "advances (if isl (fst (finish r l)) then None else Some b) l (snd (finish r l))"
proof (cases r)
  case (Inl e)
  then show ?thesis by (simp add: finish_def advances.stay settled.same)
next
  case (Inr x)
  then show ?thesis
    using commit_contract [OF assms(1), of "fst x" "snd x" b] assms(2) [of "fst x" "snd x"]
    by (simp add: finish_def split_def)
qed

lemma advances_core: "advances bo l l1 \<Longrightarrow> core l' = core l1 \<Longrightarrow> advances bo l l'"
  by (auto elim!: advances.cases intro: advances.intros settled_core_trans)

lemma and_then_contract:
  assumes "advances (if isl (fst r) then None else Some b) l (snd r)" "\<And>l. core (f l) = core l"
  shows "advances (if isl (fst (and_then r f)) then None else Some b) l (snd (and_then r f))"
proof (cases "fst r")
  case (Inl e)
  with assms(1) show ?thesis by (simp add: and_then_def)
next
  case (Inr x)
  with assms(1) have "advances (Some b) l (snd r)" by simp
  from advances_core [OF this assms(2)] Inr show ?thesis by (simp add: and_then_def)
qed

section \<open>Outside a promotion the overlay is the store\<close>

lemma overlay_simps:
  assumes "l_activeCascade l = None"
  shows "getAccountChainOverlay l a = mget (m_chains (l_store l)) a"
    "getPendingSendOverlay l h = mget (m_pending (l_store l)) h"
    "getLeaseOverlay l h = mget (m_leases (l_store l)) h"
    "getKeysetOverlay l a = GetKeyset l a"
    "getAssetBalanceOverlay l a s = getAssetBalance l a s"
  using assms by (simp_all add: getAccountChainOverlay_def overlayChain_def getPendingSendOverlay_def
      getLeaseOverlay_def getKeysetOverlay_def getAssetBalanceOverlay_def store_GetAccountChain_def
      store_GetPendingSend_def store_GetLease_def)

definition base_commit :: "ledger \<Rightarrow> block \<Rightarrow> block_commit" where
  "base_commit l b = fst (prepareBlockWrite l b)"

lemma prepare_eq:
  assumes "l_activeCascade l = None"
  shows "prepareBlockWrite l b = (base_commit l b, getAssetBalance l (blk_Account b) ''XE'')"
  using assms by (simp add: base_commit_def prepareBlockWrite_def Let_def overlay_simps)

lemma base_commit_simps:
  assumes "l_activeCascade l = None"
  shows "c_Block (base_commit l b) = b" "c_Account (base_commit l b) = blk_Account b"
    "c_Chain (base_commit l b) = chain_of l (blk_Account b) @ [b]" "c_FrontierHash (base_commit l b) = blk_Hash b"
    "c_AddPending (base_commit l b) = None" "c_DeletePendingID (base_commit l b) = []"
    "c_PutLease (base_commit l b) = None" "c_SettleLeaseHash (base_commit l b) = []"
    "c_CancelLeaseHash (base_commit l b) = []" "c_UnfulfillLeaseHash (base_commit l b) = []"
    "c_DelegationRep (base_commit l b) = []" "c_DeleteDelegation (base_commit l b) = False"
    "c_ExpectLeaseHash (base_commit l b) = []" "c_AssetCredit (base_commit l b) = None"
    "c_TopUpPendingID (base_commit l b) = []"
  using assms by (simp_all add: base_commit_def prepareBlockWrite_def Let_def overlay_simps chain_of_def mdef_def)

text \<open>A block that passes \<open>check_extends\<close>, or opens its account, extends the chain.\<close>

definition extends_chain :: "ledger \<Rightarrow> block \<Rightarrow> bool" where
  "extends_chain l b \<longleftrightarrow>
     blk_Previous b = Frontier (chain_of l (blk_Account b)) \<and>
     (chain_of l (blk_Account b) = [] \<longrightarrow> opens (blk_Type b)) \<and>
     (chain_of l (blk_Account b) \<noteq> [] \<longrightarrow> blk_Timestamp (last (chain_of l (blk_Account b))) \<le> blk_Timestamp b)"

lemma check_extends_sound:
  assumes "chains_ok l" "check_extends s b (mget (m_chains (l_store l)) (blk_Account b)) = Inr x"
  shows "extends_chain l b"
  using assms chain_of_None [OF assms(1), of "blk_Account b"]
  by (auto simp: check_extends_def extends_chain_def chain_of_Some split: option.splits if_splits)

lemma opening_extends:
  assumes "chains_ok l" "mget (m_chains (l_store l)) (blk_Account b) = None" "blk_Previous b = ''0''" "opens (blk_Type b)"
  shows "extends_chain l b"
  using assms chain_of_None [OF assms(1), of "blk_Account b"] by (simp add: extends_chain_def)

lemma extends_base:
  assumes "l_activeCascade l = None" "extends_chain l b"
  shows "extends l b (base_commit l b)"
  using assms by (simp add: extends_def extends_chain_def base_commit_simps credits_nothing_def)

lemma extends_update [simp]:
  "extends l b (c\<lparr>c_AddPending := ps\<rparr>) = extends l b c" "extends l b (c\<lparr>c_DeletePendingID := h\<rparr>) = extends l b c"
  "extends l b (c\<lparr>c_PutLease := ls\<rparr>) = extends l b c" "extends l b (c\<lparr>c_SettleLeaseHash := h\<rparr>) = extends l b c"
  "extends l b (c\<lparr>c_CancelLeaseHash := h\<rparr>) = extends l b c" "extends l b (c\<lparr>c_UnfulfillLeaseHash := h\<rparr>) = extends l b c"
  "extends l b (c\<lparr>c_PutKeyset := ks\<rparr>) = extends l b c" "extends l b (c\<lparr>c_ExpectLeaseHash := h\<rparr>) = extends l b c"
  "extends l b (c\<lparr>c_ExpectLeaseState := st\<rparr>) = extends l b c" "extends l b (c\<lparr>c_TopUpPendingID := h\<rparr>) = extends l b c"
  "extends l b (c\<lparr>c_TopUpPendingAmount := v\<rparr>) = extends l b c"
  "extends l b (c\<lparr>c_ExpectLeaseEffectiveDurationSecs := v\<rparr>) = extends l b c"
  by (simp_all add: extends_def credits_nothing_def split: option.splits)

lemma extends_credit_0:
  "extends l b c \<Longrightarrow> extends l b (c\<lparr>c_AssetCredit := Some \<lparr>ad_Account = blk_Account b, ad_Asset = s, ad_Amount = 0\<rparr>\<rparr>)"
  by (simp add: extends_def credits_nothing_def)

lemmas parts_simps = pend_part_def lease_part_def

lemma base_parts:
  assumes "l_activeCascade l = None"
  shows "pend_part (base_commit l b) = (None, [], [])" "lease_part (base_commit l b) = (None, [], [], [])"
  using assms by (simp_all add: parts_simps base_commit_simps)

lemma unopened_balance:
  assumes "ledger_ok l" "mget (m_chains (l_store l)) a = None" "IsValidAsset s"
  shows "getAssetBalance l a s = 0"
  using assms chain_of_None [of l a] by (simp add: ledger_ok_def balances_ok_def)

lemma pending_asset:
  assumes "ledger_ok l" "mget (m_pending (l_store l)) h = Some ps"
  shows "IsValidAsset (ps_Asset ps)"
proof -
  obtain b where b: "mget (m_blocks (l_store l)) h = Some b" "ps_Asset ps = blk_Asset b"
    using assms unfolding ledger_ok_def pending_ok_def by (force simp: send_pending_def)
  moreover from b(1) have "IsValidAsset (blk_Asset b)" using assms(1) unfolding ledger_ok_def blocks_ok_def by blast
  ultimately show ?thesis by simp
qed

lemma ok_cascade: "ledger_ok l \<Longrightarrow> l_activeCascade l = None"
  and ok_chains: "ledger_ok l \<Longrightarrow> chains_ok l"
  by (simp_all add: ledger_ok_def)

section \<open>The handlers\<close>

lemma check_if_if [result_simps]:
  "(if P then if Q then Inl e else Inl e' else r) = Inr x \<longleftrightarrow> \<not> P \<and> r = Inr x"
  by simp

lemma add_checked:
  assumes "\<not> (a :: u64) + b < a" "r = a + b"
  shows "unat r = unat a + unat b"
  using assms unat_add_checked by blast

lemma send_commit_ok:
  assumes ok: "ledger_ok l" and f: "fresh b l" and t: "blk_Type b = BlockSend" and co: "send_commit b l = Inr (c, p)"
  shows "commit_ok l b c p"
proof -
  note n = ok_cascade [OF ok] and ch = ok_chains [OF ok]
  from co have x: "extends_chain l b"
    and a: "blk_Amount b \<le> old_balance l b" "blk_Balance b = old_balance l b - blk_Amount b"
    and c: "c = (base_commit l b)\<lparr>c_AddPending := Some (send_pending b)\<rparr>"
    and p: "p = getAssetBalance l (blk_Account b) ''XE''"
    unfolding send_commit_def Let_def overlay_simps [OF n] prepare_eq [OF n] prod.case result_simps
    by (auto simp: send_pending_def intro: check_extends_sound [OF ch])
  have "effect l b c"
    using t a by (intro effect.send) (simp_all add: c base_commit_simps [OF n] parts_simps)
  then show ?thesis using f p extends_base [OF n x] by (simp add: commit_ok_def c)
qed

interpretation send_handler: block_handler BlockSend validateAndAddSend
proof
  fix l b assume "ledger_ok l" "fresh b l" "blk_Type b = BlockSend"
  then show "advances (if isl (fst (validateAndAddSend b l)) then None else Some b) l (snd (validateAndAddSend b l))"
    unfolding validateAndAddSend_def by (blast intro: finish_contract send_commit_ok)
qed

lemma burn_commit_ok:
  assumes ok: "ledger_ok l" and f: "fresh b l" and t: "blk_Type b = BlockBurn" and co: "burn_commit b l = Inr (c, p)"
  shows "commit_ok l b c p"
proof -
  note n = ok_cascade [OF ok] and ch = ok_chains [OF ok]
  from co have x: "extends_chain l b" and a: "blk_Asset b = ''XE''" "blk_Amount b \<le> old_balance l b"
      "blk_Balance b = old_balance l b - blk_Amount b"
    and c: "c = base_commit l b" and p: "p = getAssetBalance l (blk_Account b) ''XE''"
    unfolding burn_commit_def Let_def overlay_simps [OF n] prepare_eq [OF n] prod.case result_simps
    by (auto intro: check_extends_sound [OF ch])
  have "effect l b c" using t a by (intro effect.burn) (simp_all add: c base_parts [OF n])
  then show ?thesis using f p extends_base [OF n x] by (simp add: commit_ok_def c)
qed

interpretation burn_handler: block_handler BlockBurn validateAndAddBurn
proof
  fix l b assume "ledger_ok l" "fresh b l" "blk_Type b = BlockBurn"
  then show "advances (if isl (fst (validateAndAddBurn b l)) then None else Some b) l (snd (validateAndAddBurn b l))"
    unfolding validateAndAddBurn_def by (blast intro: finish_contract burn_commit_ok)
qed

lemma receive_commit_ok:
  assumes ok: "ledger_ok l" and f: "fresh b l" and t: "blk_Type b = BlockReceive" and co: "receive_commit b l = Inr (c, p)"
  shows "commit_ok l b c p"
proof -
  note n = ok_cascade [OF ok] and ch = ok_chains [OF ok]
  have v: "IsValidAsset (blk_Asset b)" using f by (simp add: fresh_def)
  note e = co [unfolded receive_commit_def Let_def overlay_simps [OF n] prepare_eq [OF n] prod.case result_simps]
  from e obtain ps where s: "blk_Source b \<noteq> []" and ps: "mget (m_pending (l_store l)) (blk_Source b) = Some ps"
    and g: "ps_Destination ps = blk_Account b" "\<not> isLiveLeaseEscrow l (blk_Source b)"
      "blk_Asset b = (if ps_Asset ps = [] then ''XE'' else ps_Asset ps)"
    and k: "(case mget (m_chains (l_store l)) (blk_Account b) of
       None \<Rightarrow> if blk_Previous b \<noteq> ''0'' then Err ''first block on account must have previous=0''
               else if blk_Balance b \<noteq> ps_Amount ps then Err ''open-receive balance mismatch: expected %d, got %d''
               else Inr ((base_commit l b)\<lparr>c_DeletePendingID := blk_Source b\<rparr>, getAssetBalance l (blk_Account b) ''XE'')
     | Some chain \<Rightarrow> if chain \<noteq> [] \<and> blk_Timestamp b < blk_Timestamp (last chain)
           then Err ''block timestamp %d is before previous block timestamp %d''
           else if blk_Previous b \<noteq> Frontier chain then Err ''previous mismatch: got %s, want %s''
           else if old_balance l b + ps_Amount ps < old_balance l b then Err ''receive would overflow uint64 balance''
           else if blk_Balance b \<noteq> old_balance l b + ps_Amount ps
           then Err ''receive balance mismatch: expected %d, got %d''
           else Inr ((base_commit l b)\<lparr>c_DeletePendingID := blk_Source b\<rparr>, getAssetBalance l (blk_Account b) ''XE'')) = Inr (c, p)"
    by blast
  have x: "extends_chain l b \<and> unat (blk_Balance b) = unat (old_balance l b) + unat (ps_Amount ps)"
    and c: "c = (base_commit l b)\<lparr>c_DeletePendingID := blk_Source b\<rparr>" and p: "p = getAssetBalance l (blk_Account b) ''XE''"
    using k t chain_of_None [OF ch, of "blk_Account b"] unopened_balance [OF ok _ v]
    by (auto simp: extends_chain_def opens_def chain_of_Some intro: add_checked split: option.splits if_splits)
  have "ps_Asset ps = blk_Asset b" using g(3) pending_asset [OF ok ps] by (auto simp: IsValidAsset_def)
  moreover have "\<not> live ls" if "mget (m_leases (l_store l)) (blk_Source b) = Some ls" for ls
    using g(2) that by (simp add: isLiveLeaseEscrow_def overlay_simps [OF n] live_def)
  ultimately have "effect l b c"
    using t s ps g(1) x by (intro effect.receive) (auto simp: c base_commit_simps [OF n] parts_simps)
  then show ?thesis using f p x extends_base [OF n] by (simp add: commit_ok_def c)
qed

interpretation receive_handler: block_handler BlockReceive validateAndAddReceive
proof
  fix l b assume "ledger_ok l" "fresh b l" "blk_Type b = BlockReceive"
  then show "advances (if isl (fst (validateAndAddReceive b l)) then None else Some b) l (snd (validateAndAddReceive b l))"
    unfolding validateAndAddReceive_def by (blast intro: finish_contract receive_commit_ok)
qed

lemma mint_commit_ok:
  assumes ok: "ledger_ok l" and f: "fresh b l" and t: "blk_Type b = BlockMint" and co: "mint_commit E b l = Inr (c, p)"
  shows "commit_ok l b c p"
proof -
  note n = ok_cascade [OF ok] and ch = ok_chains [OF ok]
  have v: "IsValidAsset (blk_Asset b)" using f by (simp add: fresh_def)
  note e = co [unfolded mint_commit_def Let_def overlay_simps [OF n] prepare_eq [OF n]]
  have x: "extends_chain l b \<and> unat (blk_Balance b) = unat (old_balance l b) + unat (blk_Amount b) \<and> blk_Asset b = ''XUSD''"
    and c: "c = base_commit l b" and p: "p = getAssetBalance l (blk_Account b) ''XE''"
    using e t chain_of_None [OF ch, of "blk_Account b"] unopened_balance [OF ok _ v]
    by (auto simp: extends_chain_def opens_def chain_of_Some check_extends_def intro: add_checked
        split: option.splits if_splits sum.splits)
  then have "effect l b c" using t by (intro effect.mint) (simp_all add: base_parts [OF n])
  then show ?thesis using f p x extends_base [OF n] by (simp add: commit_ok_def c)
qed

interpretation mint_handler: block_handler BlockMint "validateAndAddMint E" for E
proof
  fix l b assume "ledger_ok l" "fresh b l" "blk_Type b = BlockMint"
  then show "advances (if isl (fst (validateAndAddMint E b l)) then None else Some b) l (snd (validateAndAddMint E b l))"
    unfolding validateAndAddMint_def by (blast intro: finish_contract mint_commit_ok)
qed

lemma empty_chains:
  assumes "ledger_ok l" "m_blocks (l_store l) = []"
  shows "chain_of l a = []"
proof (rule ccontr)
  assume "chain_of l a \<noteq> []"
  then have "mget (m_blocks (l_store l)) (blk_Hash (hd (chain_of l a))) = Some (hd (chain_of l a))"
    using chain_of_ok [OF ok_chains [OF assms(1)]] by (auto simp: chain_ok_def list_all_iff)
  then show False by (simp add: assms(2))
qed

interpretation genesis_handler: block_handler BlockGenesis "validateAndAddGenesis E" for E
proof
  fix l b assume ok: "ledger_ok l" and f: "fresh b l" and t: "blk_Type b = BlockGenesis"
  obtain r l1 where L: "LoadGenesisBlock E l = (r, l1)" by (cases "LoadGenesisBlock E l")
  have c1: "core l1 = core l" using L by (auto simp: LoadGenesisBlock_def core_def Let_def split: sum.splits)
  have ok1: "ledger_ok l1" using ledger_ok_core [OF c1] ok by simp
  have f1: "fresh b l1" using f core_eqD(1) [OF c1] by (simp add: fresh_def)
  note n = ok_cascade [OF ok1]
  have s1: "settled l l1" using c1 by (rule settled.same)
  show "advances (if isl (fst (validateAndAddGenesis E b l)) then None else Some b) l (snd (validateAndAddGenesis E b l))"
  proof (cases "store_IsEmpty (l_store l) \<and> (\<exists>expected. r = Inr expected \<and> blk_Hash b = blk_Hash expected) \<and> ValidateGenesisBlock E b = Inr ()")
    case False
    then show ?thesis
      using L s1 by (auto simp: validateAndAddGenesis_def wrap_def intro: advances.stay settled.same split: sum.splits)
  next
    case True
    then have g: "blk_Previous b = ''0''" "blk_Asset b = ''XE''" and em: "m_blocks (l_store l1) = []"
      using core_eqD(1) [OF c1] by (auto simp: ValidateGenesisBlock_def store_IsEmpty_def split: if_splits)
    have x: "extends_chain l1 b"
      using g t empty_chains [OF ok1 em] by (simp add: extends_chain_def opens_def)
    have "effect l1 b (base_commit l1 b)"
      using t g em by (intro effect.genesis) (simp_all add: base_parts [OF n])
    then have "commit_ok l1 b (base_commit l1 b) (getAssetBalance l1 (blk_Account b) ''XE'')"
      using f1 extends_base [OF n x] by (simp add: commit_ok_def)
    then have a: "advances (if isl (fst (addBlockLocked b l1)) then None else Some b) l1 (snd (addBlockLocked b l1))"
      unfolding addBlockLocked_def prepare_eq [OF n] by (intro finish_contract [OF ok1]) simp
    have v: "validateAndAddGenesis E b l = addBlockLocked b l1"
      using True L by (auto simp: validateAndAddGenesis_def)
    show ?thesis unfolding v by (rule advances_core_left [OF c1 a])
  qed
qed

lemma put_keyset_core: "core (put_keyset_of b l) = core l"
  by (simp add: put_keyset_of_def setKeyset_def core_def Let_def split: option.splits)

interpretation multisig_open_handler: block_handler BlockMultisigOpen "validateAndAddMultisigOpen E" for E
proof
  fix l b assume ok: "ledger_ok l" and f: "fresh b l" and t: "blk_Type b = BlockMultisigOpen"
  note n = ok_cascade [OF ok] and ch = ok_chains [OF ok]
  have v: "IsValidAsset (blk_Asset b)" using f by (simp add: fresh_def)
  have "commit_ok l b c p" if "multisig_open_commit E b l = Inr (c, p)" for c p
  proof -
    from that have x: "mget (m_chains (l_store l)) (blk_Account b) = None" "blk_Previous b = ''0''" "blk_Balance b = 0"
      and c: "c = (base_commit l b)\<lparr>c_PutKeyset := blk_MSKeyset b\<rparr>" and p: "p = getAssetBalance l (blk_Account b) ''XE''"
      unfolding multisig_open_commit_def Let_def overlay_simps [OF n] prepare_eq [OF n] prod.case result_simps by auto
    have e: "extends_chain l b" by (rule opening_extends [OF ch x(1,2)]) (simp add: t opens_def)
    have "effect l b c"
      using t x unopened_balance [OF ok x(1) v]
      by (intro effect.keys) (simp_all add: c base_commit_simps [OF n] parts_simps)
    then show ?thesis using f p extends_base [OF n e] by (simp add: commit_ok_def c)
  qed
  then show "advances (if isl (fst (validateAndAddMultisigOpen E b l)) then None else Some b) l
      (snd (validateAndAddMultisigOpen E b l))"
    unfolding validateAndAddMultisigOpen_def
    by (intro and_then_contract finish_contract [OF ok] put_keyset_core)
qed

interpretation multisig_update_handler: block_handler BlockMultisigUpdate validateAndAddMultisigUpdate
proof
  fix l b assume ok: "ledger_ok l" and f: "fresh b l" and t: "blk_Type b = BlockMultisigUpdate"
  note n = ok_cascade [OF ok] and ch = ok_chains [OF ok]
  have "commit_ok l b c p" if "multisig_update_commit b l = Inr (c, p)" for c p
  proof -
    from that have x: "extends_chain l b" "blk_Balance b = old_balance l b"
      and c: "c = (base_commit l b)\<lparr>c_PutKeyset := blk_MSKeyset b\<rparr>" and p: "p = getAssetBalance l (blk_Account b) ''XE''"
      unfolding multisig_update_commit_def Let_def overlay_simps [OF n] prepare_eq [OF n] prod.case result_simps
      by (auto intro: check_extends_sound [OF ch])
    have "effect l b c"
      using t x by (intro effect.keys) (simp_all add: c base_commit_simps [OF n] parts_simps)
    then show ?thesis using f p extends_base [OF n x(1)] by (simp add: commit_ok_def c)
  qed
  then show "advances (if isl (fst (validateAndAddMultisigUpdate b l)) then None else Some b) l
      (snd (validateAndAddMultisigUpdate b l))"
    unfolding validateAndAddMultisigUpdate_def
    by (intro and_then_contract finish_contract [OF ok] put_keyset_core)
qed

definition new_lease :: "block \<Rightarrow> lease" where
  "new_lease b =
     \<lparr>ls_LeaseHash = blk_Hash b, ls_State = LeaseCreated, ls_Consumer = blk_Account b,
      ls_Provider = blk_Destination b, ls_VCPUs = blk_VCPUs b, ls_MemoryMB = blk_MemoryMB b,
      ls_DiskGB = blk_DiskGB b, ls_Duration = blk_Duration b, ls_AccessPubKey = blk_AccessPubKey b,
      ls_Cost = blk_Amount b, ls_Stake = 0, ls_StartTime = 0,
      ls_CertificateHash = blk_CertificateHash b, ls_Settled = False, ls_LockedR = 0,
      ls_LockedPayoutCap = 0, ls_LockedTWAP = 0, ls_Renewals = []\<rparr>"

interpretation lease_handler: block_handler BlockLease "validateAndAddLease E" for E
proof
  fix l b assume ok: "ledger_ok l" and f: "fresh b l" and t: "blk_Type b = BlockLease"
  note n = ok_cascade [OF ok] and ch = ok_chains [OF ok]
  have "commit_ok l b c p" if "lease_commit E b l = Inr (c, p)" for c p
  proof -
    from that have as: "blk_Asset b = ''XUSD''" and x: "extends_chain l b"
      and a: "blk_Amount b \<le> getAssetBalance l (blk_Account b) ''XUSD''"
        "blk_Balance b = getAssetBalance l (blk_Account b) ''XUSD'' - blk_Amount b"
      and c: "c = (base_commit l b)\<lparr>c_AddPending := Some ((send_pending b)\<lparr>ps_Asset := ''XUSD''\<rparr>), c_PutLease := Some (new_lease b)\<rparr>"
      and p: "p = getAssetBalance l (blk_Account b) ''XE''"
      unfolding lease_commit_def Let_def overlay_simps [OF n] prepare_eq [OF n] prod.case result_simps
      by (elim exE conjE; simp add: send_pending_def new_lease_def check_extends_sound [OF ch])+
    have "effect l b c"
      using t a as
      by (intro effect.lease [where ls = "new_lease b"]) (simp_all add: c base_commit_simps [OF n] parts_simps lease_of_def new_lease_def send_pending_def)
    then show ?thesis using f p extends_base [OF n x] by (simp add: commit_ok_def c)
  qed
  then show "advances (if isl (fst (validateAndAddLease E b l)) then None else Some b) l (snd (validateAndAddLease E b l))"
    unfolding validateAndAddLease_def by (rule finish_contract [OF ok])
qed

definition accepted_lease :: "block \<Rightarrow> block \<Rightarrow> int \<Rightarrow> lease" where
  "accepted_lease b leaseBlock startTime =
     \<lparr>ls_LeaseHash = blk_Source b, ls_State = LeaseAccepted, ls_Consumer = blk_Account leaseBlock,
      ls_Provider = blk_Account b, ls_VCPUs = blk_VCPUs leaseBlock,
      ls_MemoryMB = blk_MemoryMB leaseBlock, ls_DiskGB = blk_DiskGB leaseBlock,
      ls_Duration = blk_Duration leaseBlock, ls_AccessPubKey = blk_AccessPubKey leaseBlock,
      ls_Cost = blk_Amount leaseBlock, ls_Stake = blk_Amount b, ls_StartTime = startTime,
      ls_CertificateHash = blk_CertificateHash b, ls_Settled = False,
      ls_LockedR = blk_LockedR b, ls_LockedPayoutCap = blk_LockedPayoutCap b,
      ls_LockedTWAP = blk_LockedTWAP b, ls_Renewals = []\<rparr>"

text \<open>What the store demands of the lease when it commits.\<close>

lemma commit_expects:
  assumes "l_activeCascade l = None" "commitBlockWrite c p l = (Inr (), l')" "c_ExpectLeaseHash c \<noteq> []"
  obtains ls where "mget (m_leases (l_store l)) (c_ExpectLeaseHash c) = Some ls" "ls_State ls = c_ExpectLeaseState c"
proof -
  obtain m where "applyCommitLocked (with_delegation l c) (l_store l) = Inr m"
    using commit_result [OF assms(1,2)] by blast
  then have "expect_lease ''CommitBlock'' (with_delegation l c) (mget (m_leases (l_store l)) (c_ExpectLeaseHash c)) = Inr ()"
    by (auto simp: applyCommitLocked_def split: sum.splits)
  then show ?thesis using assms(3) that
    by (auto simp: expect_lease_def split: option.splits if_splits)
qed

lemma source_lease_block_sound:
  assumes "source_lease_block l b = Inr lb" "ledger_ok l"
  shows "mget (m_blocks (l_store l)) (blk_Source b) = Some lb" "blk_Type lb = BlockLease" "blk_Hash lb = blk_Source b"
proof -
  show lb: "mget (m_blocks (l_store l)) (blk_Source b) = Some lb" and "blk_Type lb = BlockLease"
    using assms(1) by (auto simp: source_lease_block_def store_GetBlock_def split: option.splits if_splits)
  then show "blk_Hash lb = blk_Source b" using assms(2) by (simp add: ledger_ok_def blocks_ok_def)
qed

lemma stored_lease:
  assumes "ledger_ok l" "mget (m_leases (l_store l)) h = Some ls"
  obtains lb where "mget (m_blocks (l_store l)) h = Some lb" "lease_of ls lb"
  using assms unfolding ledger_ok_def leases_ok_def by blast

lemma LeaseStake_0 [simp]: "LeaseStake x = 0"
  by (simp add: LeaseStake_def LeaseStakeDivisor_def)

interpretation accept_handler: block_handler BlockLeaseAccept "\<lambda>b. validateAndAddLeaseAccept E b skipSkew" for E skipSkew
proof
  fix l b assume ok: "ledger_ok l" and f: "fresh b l" and t: "blk_Type b = BlockLeaseAccept"
  note n = ok_cascade [OF ok] and ch = ok_chains [OF ok]
  have w: "commit_ok l b c p" if cm: "accept_commit E b skipSkew l = Inr (c, p, lb, st)"
    and wr: "commitBlockWrite c p l = (Inr (), l')" for c p lb st l'
  proof -
    from cm have as: "blk_Asset b = ''XUSD''" "blk_Source b \<noteq> []" and sl: "source_lease_block l b = Inr lb"
      and x: "extends_chain l b" and d: "blk_Destination lb = blk_Account b" and am: "blk_Amount b = 0"
      and a: "blk_Balance b = getAssetBalance l (blk_Account b) ''XUSD'' - blk_Amount b"
      and c: "c = (base_commit l b)\<lparr>c_ExpectLeaseHash := blk_Source b, c_ExpectLeaseState := LeaseCreated,
          c_PutLease := Some (accepted_lease b lb st)\<rparr>"
      and p: "p = getAssetBalance l (blk_Account b) ''XE''"
      unfolding accept_commit_def Let_def overlay_simps [OF n] prepare_eq [OF n] prod.case result_simps
      by (elim exE conjE; simp add: accepted_lease_def check_extends_sound [OF ch])+
    note sb = source_lease_block_sound [OF sl ok]
    obtain ls where ls: "mget (m_leases (l_store l)) (blk_Source b) = Some ls" "ls_State ls = LeaseCreated"
      using commit_expects [OF n wr] as(2) by (auto simp: c)
    obtain lb' where "mget (m_blocks (l_store l)) (blk_Source b) = Some lb'" "lease_of ls lb'"
      by (rule stored_lease [OF ok ls(1)])
    then have "blk_Asset lb = ''XUSD''" using sb(1) by (simp add: lease_of_def)
    then have "lease_of (accepted_lease b lb st) lb"
      using sb d am by (simp add: lease_of_def accepted_lease_def)
    then have "effect l b c"
      using t as ls sb(1) am a
      by (intro effect.accept [where ls = ls and ls' = "accepted_lease b lb st" and lb = lb])
        (simp_all add: c base_commit_simps [OF n] parts_simps accepted_lease_def)
    then show ?thesis using f p extends_base [OF n x] by (simp add: commit_ok_def c)
  qed
  show "advances (if isl (fst (validateAndAddLeaseAccept E b skipSkew l)) then None else Some b) l
      (snd (validateAndAddLeaseAccept E b skipSkew l))"
  proof (cases "accept_commit E b skipSkew l")
    case (Inl e)
    then show ?thesis by (simp add: validateAndAddLeaseAccept_def advances.stay settled.same)
  next
    case (Inr r)
    obtain c p lb st where r: "r = (c, p, lb, st)" by (metis prod_cases4)
    show ?thesis
      unfolding validateAndAddLeaseAccept_def Inr r sum.case prod.case
      by (intro and_then_contract commit_contract [OF ok] w [OF Inr [unfolded r]]) simp_all
  qed
qed

definition renewed :: "block \<Rightarrow> int \<Rightarrow> lease \<Rightarrow> lease" where
  "renewed b renewTime ls = ls\<lparr>ls_Renewals := ls_Renewals ls @
     [\<lparr>seg_RenewHash = blk_Hash b, seg_Duration = blk_Duration b, seg_Cost = blk_Amount b,
       seg_StartTime = renewTime, seg_CertificateHash = blk_CertificateHash b,
       seg_LockedR = blk_LockedR b, seg_LockedPayoutCap = blk_LockedPayoutCap b,
       seg_LockedTWAP = blk_LockedTWAP b\<rparr>]\<rparr>"

interpretation renew_handler: block_handler BlockLeaseRenew "\<lambda>b. validateAndAddLeaseRenew E b skipSkew" for E skipSkew
proof
  fix l b assume ok: "ledger_ok l" and f: "fresh b l" and t: "blk_Type b = BlockLeaseRenew"
  note n = ok_cascade [OF ok] and ch = ok_chains [OF ok]
  have "commit_ok l b c p" if "renew_commit E b skipSkew l = Inr (c, p)" for c p
  proof -
    note e = that [unfolded renew_commit_def Let_def split_def overlay_simps [OF n] prepare_eq [OF n] fst_conv snd_conv result_simps]
    from e have as: "blk_Asset b = ''XUSD''" "blk_Source b \<noteq> []" and x: "extends_chain l b"
      and a: "blk_Amount b \<le> getAssetBalance l (blk_Account b) ''XUSD''"
        "blk_Balance b = getAssetBalance l (blk_Account b) ''XUSD'' - blk_Amount b"
      and p: "p = getAssetBalance l (blk_Account b) ''XE''"
      by (elim exE conjE; simp add: check_extends_sound [OF ch])+
    from e obtain ls rt where ls: "mget (m_leases (l_store l)) (blk_Source b) = Some ls"
      and rt: "attested_time E l b skipSkew ''lease_renew'' = Inr rt" by blast
    from e ls rt have st: "ls_State ls = LeaseAccepted"
      and c: "c = (base_commit l b)\<lparr>c_TopUpPendingID := blk_Source b, c_TopUpPendingAmount := blk_Amount b,
          c_PutLease := Some (renewed b rt ls), c_ExpectLeaseHash := blk_Source b,
          c_ExpectLeaseState := LeaseAccepted, c_ExpectLeaseEffectiveDurationSecs := EffectiveDurationSecs ls\<rparr>"
      by (elim exE conjE; simp add: renewed_def)+
    have "effect l b c"
      using t as a ls st
      by (intro effect.renew [where ls = ls and rs = "ls_Renewals (renewed b rt ls)"])
        (simp_all add: c base_commit_simps [OF n] parts_simps renewed_def)
    then show ?thesis using f p extends_base [OF n x] by (simp add: commit_ok_def c)
  qed
  then show "advances (if isl (fst (validateAndAddLeaseRenew E b skipSkew l)) then None else Some b) l
      (snd (validateAndAddLeaseRenew E b skipSkew l))"
    unfolding validateAndAddLeaseRenew_def by (rule finish_contract [OF ok])
qed

interpretation settle_handler: block_handler BlockLeaseSettle "\<lambda>b. validateAndAddLeaseSettle E b skipSkew" for E skipSkew
proof
  fix l b assume ok: "ledger_ok l" and f: "fresh b l" and t: "blk_Type b = BlockLeaseSettle"
  note n = ok_cascade [OF ok] and ch = ok_chains [OF ok]
  have w: "commit_ok l b c p" if "settle_commit E b skipSkew l = Inr (c, p, ls)" for c p ls
  proof -
    from that have as: "blk_Asset b = ''XE''" "blk_Source b \<noteq> []" and x: "extends_chain l b"
      and ls: "mget (m_leases (l_store l)) (blk_Source b) = Some ls" "ls_State ls = LeaseAccepted" "ls_Provider ls = blk_Account b"
      and a: "\<not> getAssetBalance l (blk_Account b) ''XE'' + blk_Amount b < getAssetBalance l (blk_Account b) ''XE''"
        "blk_Balance b = getAssetBalance l (blk_Account b) ''XE'' + blk_Amount b"
      and c: "c = (base_commit l b)\<lparr>c_SettleLeaseHash := blk_Source b, c_DeletePendingID := blk_Source b,
          c_ExpectLeaseHash := blk_Source b, c_ExpectLeaseState := LeaseAccepted,
          c_ExpectLeaseEffectiveDurationSecs := EffectiveDurationSecs ls,
          c_AssetCredit := Some \<lparr>ad_Account = blk_Account b, ad_Asset = ''XUSD'', ad_Amount = ls_Stake ls\<rparr>\<rparr>"
      and p: "p = getAssetBalance l (blk_Account b) ''XE''"
      unfolding settle_commit_def Let_def overlay_simps [OF n] prepare_eq [OF n] prod.case result_simps
      by (elim exE conjE; simp add: check_extends_sound [OF ch])+
    have "ls_Stake ls = 0" using stored_lease [OF ok ls(1)] by (auto simp: lease_of_def)
    then have e: "extends l b c" using extends_base [OF n x] by (simp add: c extends_credit_0)
    have "effect l b c"
      using t as ls add_checked [OF a]
      by (intro effect.settle [where ls = ls]) (simp_all add: c base_commit_simps [OF n] parts_simps)
    then show ?thesis using f p e by (simp add: commit_ok_def)
  qed
  show "advances (if isl (fst (validateAndAddLeaseSettle E b skipSkew l)) then None else Some b) l
      (snd (validateAndAddLeaseSettle E b skipSkew l))"
  proof (cases "settle_commit E b skipSkew l")
    case (Inl e)
    then show ?thesis by (simp add: validateAndAddLeaseSettle_def advances.stay settled.same)
  next
    case (Inr r)
    obtain c p ls where r: "r = (c, p, ls)" by (metis prod_cases3)
    show ?thesis
      unfolding validateAndAddLeaseSettle_def Inr r sum.case prod.case
      by (intro and_then_contract commit_contract [OF ok] w [OF Inr [unfolded r]]) simp_all
  qed
qed

interpretation force_settle_handler:
  block_handler BlockLeaseForceSettle "\<lambda>b. validateAndAddLeaseForceSettle E b skipSkew" for E skipSkew
proof
  fix l b assume ok: "ledger_ok l" and f: "fresh b l" and t: "blk_Type b = BlockLeaseForceSettle"
  note n = ok_cascade [OF ok] and ch = ok_chains [OF ok]
  have w: "commit_ok l b c p" if "force_settle_commit E b skipSkew l = Inr (c, p, ls)" for c p ls
  proof -
    from that have as: "blk_Asset b = ''XUSD''" "blk_Source b \<noteq> []" and x: "extends_chain l b"
      and sl: "\<exists>lb. source_lease_block l b = Inr lb \<and> blk_Account lb = blk_Account b"
      and ls: "mget (m_leases (l_store l)) (blk_Source b) = Some ls" "ls_State ls = LeaseAccepted"
      and a: "\<exists>ps. mget (m_pending (l_store l)) (blk_Source b) = Some ps \<and>
        \<not> getAssetBalance l (blk_Account b) ''XUSD'' + ps_Amount ps < getAssetBalance l (blk_Account b) ''XUSD'' \<and>
        blk_Balance b = getAssetBalance l (blk_Account b) ''XUSD'' + ps_Amount ps"
      and c: "c = (base_commit l b)\<lparr>c_DeletePendingID := blk_Source b, c_UnfulfillLeaseHash := blk_Source b,
          c_ExpectLeaseHash := blk_Source b, c_ExpectLeaseState := LeaseAccepted,
          c_ExpectLeaseEffectiveDurationSecs := EffectiveDurationSecs ls\<rparr>"
      and p: "p = getAssetBalance l (blk_Account b) ''XE''"
      unfolding force_settle_commit_def Let_def overlay_simps [OF n] prepare_eq [OF n] prod.case result_simps
      by (elim exE conjE; simp add: check_extends_sound [OF ch])+
    obtain ps where ps: "mget (m_pending (l_store l)) (blk_Source b) = Some ps"
      "unat (blk_Balance b) = unat (getAssetBalance l (blk_Account b) ''XUSD'') + unat (ps_Amount ps)"
      using a add_checked by blast
    obtain lb where "mget (m_blocks (l_store l)) (blk_Source b) = Some lb" "lease_of ls lb"
      by (rule stored_lease [OF ok ls(1)])
    then have "ls_Consumer ls = blk_Account b"
      using sl source_lease_block_sound(1) [OF _ ok] by (auto simp: lease_of_def)
    then have "effect l b c"
      using t as ls ps
      by (intro effect.unfulfil [where ls = ls and ps = ps]) (simp_all add: c base_commit_simps [OF n] parts_simps)
    then show ?thesis using f p extends_base [OF n x] by (simp add: commit_ok_def c)
  qed
  show "advances (if isl (fst (validateAndAddLeaseForceSettle E b skipSkew l)) then None else Some b) l
      (snd (validateAndAddLeaseForceSettle E b skipSkew l))"
  proof (cases "force_settle_commit E b skipSkew l")
    case (Inl e)
    then show ?thesis by (simp add: validateAndAddLeaseForceSettle_def advances.stay settled.same)
  next
    case (Inr r)
    obtain c p ls where r: "r = (c, p, ls)" by (metis prod_cases3)
    show ?thesis
      unfolding validateAndAddLeaseForceSettle_def Inr r sum.case prod.case
      by (intro and_then_contract commit_contract [OF ok] w [OF Inr [unfolded r]]) simp_all
  qed
qed

lemma undoBlockApply_result:
  assumes "undoBlockApply a b l = (r, l')"
  obtains e where "r = Inl e" "l' = l"
  | u ap where "r = Inr ()" "buildBlockUndo l a b (store_GetAccountChain (l_store l) a) = Inr (u, ap)" "l' = undone u ap l"
  using assms by (auto simp: undoBlockApply_def undone_def split: sum.splits)

lemma cancel_resolve_settled:
  assumes ok: "ledger_ok l"
  shows "settled l (snd (cancel_resolve E b l))"
proof -
  note n = ok_cascade [OF ok]
  have s: "settled l l" by (simp add: settled.same)
  show ?thesis
  proof (cases "\<exists>existing. mget (m_leases (l_store l)) (blk_Source b) = Some existing \<and>
      ls_State existing = LeaseAccepted \<and> ls_Provider existing \<noteq> blk_Account b")
    case False
    then show ?thesis using s by (auto simp: cancel_resolve_def overlay_simps [OF n] split: option.splits)
  next
    case True
    then obtain ls where ls: "mget (m_leases (l_store l)) (blk_Source b) = Some ls"
      "ls_State ls = LeaseAccepted" "ls_Provider ls \<noteq> blk_Account b" by blast
    have e: "cancel_resolve E b l = resolveCancelWinsOverAccept E (blk_Source b) (ls_Provider ls) l"
      using ls by (simp add: cancel_resolve_def overlay_simps [OF n])
    show ?thesis
    proof (cases "\<exists>c. mget (m_chains (l_store l)) (ls_Provider ls) = Some c \<and>
        first_index (\<lambda>blk. blk_Type blk = BlockLeaseAccept \<and> blk_Source blk = blk_Source b) c = Some (length c - 1) \<and>
        \<not> of_nat (length c - 1 + 1) \<le> FinalHeight l (ls_Provider ls) \<and> \<not> held_elsewhere E (ls_Provider ls)")
      case False
      then show ?thesis
        unfolding e resolveCancelWinsOverAccept_def store_GetAccountChain_def
        using s by (auto split: option.splits)
    next
      case True
      then obtain c where c: "mget (m_chains (l_store l)) (ls_Provider ls) = Some c"
        and i: "first_index (\<lambda>blk. blk_Type blk = BlockLeaseAccept \<and> blk_Source blk = blk_Source b) c = Some (length c - 1)"
        and h: "\<not> of_nat (length c - 1 + 1) \<le> FinalHeight l (ls_Provider ls)" "\<not> held_elsewhere E (ls_Provider ls)" by blast
      note fi = first_index_SomeD [OF i]
      then have ne: "c \<noteq> []" by auto
      then have la: "c ! (length c - 1) = last c" by (simp add: last_conv_nth)
      have t: "blk_Type (last c) = BlockLeaseAccept" "blk_Source (last c) = blk_Source b"
        using fi unfolding la by simp_all
      have len: "length c - 1 + 1 = length c" using ne by (cases c) simp_all
      obtain r l1 where u: "undoBlockApply (ls_Provider ls) (last c) l = (r, l1)"
        by (cases "undoBlockApply (ls_Provider ls) (last c) l")
      have "snd (cancel_resolve E b l) = l1"
        using c i h u unfolding e resolveCancelWinsOverAccept_def store_GetAccountChain_def
        by (auto simp: la [unfolded One_nat_def] split: sum.splits)
      moreover have "settled l l1"
        using u
      proof (cases rule: undoBlockApply_result)
        case (2 u' ap)
        show ?thesis
          by (rule settled.unaccept [OF refl c])
            (use 2 c t ls h len in \<open>auto simp: store_GetAccountChain_def\<close>)
      qed (simp add: s)
      ultimately show ?thesis by simp
    qed
  qed
qed

lemma settled_fresh: "settled l l' \<Longrightarrow> ledger_ok l \<Longrightarrow> fresh b l \<Longrightarrow> fresh b l'"
  by (simp add: fresh_def settled_blocks)

interpretation cancel_handler: block_handler BlockLeaseCancel "validateAndAddLeaseCancel E" for E
proof
  fix l b assume ok: "ledger_ok l" and f: "fresh b l" and t: "blk_Type b = BlockLeaseCancel"
  let ?r = "validateAndAddLeaseCancel E b l"
  obtain r1 l1 where R: "cancel_resolve E b l = (r1, l1)" by (cases "cancel_resolve E b l")
  have s1: "settled l l1" using cancel_resolve_settled [OF ok, of E b] R by simp
  have ok1: "ledger_ok l1" and f1: "fresh b l1" using settled_ok settled_fresh s1 ok f by blast+
  note n = ok_cascade [OF ok1] and ch = ok_chains [OF ok1]
  show "advances (if isl (fst ?r) then None else Some b) l (snd ?r)"
  proof (cases "blk_Asset b = ''XUSD'' \<and> blk_Source b \<noteq> [] \<and> r1 = Inr () \<and>
      (\<exists>lb. source_lease_block l b = Inr lb \<and> blk_Account lb = blk_Account b)")
    case False
    then have "isl (fst ?r) \<and> (snd ?r = l \<or> snd ?r = l1)"
      using R by (auto simp: validateAndAddLeaseCancel_def split: sum.splits)
    then show ?thesis using s1 by (auto intro!: advances.stay settled.same [of l l])
  next
    case True
    then obtain lb where as: "blk_Asset b = ''XUSD''" "blk_Source b \<noteq> []"
      and lb: "source_lease_block l b = Inr lb" "blk_Account lb = blk_Account b" and r1: "r1 = Inr ()" by blast
    note sb = source_lease_block_sound [OF lb(1) ok]
    let ?f = "reputation_Apply \<lparr>ev_Kind = EventLeaseCancelled, ev_Provider = blk_Destination lb,
       ev_Consumer = blk_Account b, ev_Timestamp = blk_Timestamp b, ev_DurationSecs = 0\<rparr>"
    have v: "?r = and_then (finish (cancel_commit b lb l1) l1) ?f"
      using as lb R r1 by (simp add: validateAndAddLeaseCancel_def)
    show ?thesis
    proof (cases "cancel_commit b lb l1")
      case (Inl e)
      then show ?thesis using s1 by (simp add: v finish_def and_then_def advances.stay)
    next
      case (Inr cp)
      obtain c p where cp: "cp = (c, p)" by (cases cp)
      from Inr have x: "extends_chain l1 b"
        and a: "blk_Balance b = getAssetBalance l1 (blk_Account b) ''XUSD'' + blk_Amount lb"
        and c: "c = (base_commit l1 b)\<lparr>c_DeletePendingID := blk_Source b, c_CancelLeaseHash := blk_Source b,
                     c_ExpectLeaseHash := blk_Source b, c_ExpectLeaseState := LeaseCreated\<rparr>"
        and p: "p = getAssetBalance l1 (blk_Account b) ''XE''"
        unfolding cp cancel_commit_def Let_def overlay_simps [OF n] prepare_eq [OF n] prod.case result_simps
        by (elim exE conjE; simp add: check_extends_sound [OF ch])+
      have "commit_ok l1 b c p" if wr: "commitBlockWrite c p l1 = (Inr (), l')" for l'
      proof -
        obtain ls where ls: "mget (m_leases (l_store l1)) (blk_Source b) = Some ls" "ls_State ls = LeaseCreated"
          using commit_expects [OF n wr] as(2) by (auto simp: c)
        obtain lb' where "mget (m_blocks (l_store l1)) (blk_Source b) = Some lb'" "lease_of ls lb'"
          by (rule stored_lease [OF ok1 ls(1)])
        then have "lease_of ls lb" using sb(1) settled_blocks [OF s1 ok] by simp
        then have "effect l1 b c"
          using t as ls a lb(2)
          by (intro effect.cancel [where ls = ls])
            (simp_all add: c base_commit_simps [OF n] parts_simps lease_of_def)
        then show ?thesis using f1 p extends_base [OF n x] by (simp add: commit_ok_def c)
      qed
      note cc = this
      show ?thesis
        unfolding v Inr cp finish_def sum.case prod.case
      proof (rule and_then_contract)
        show "advances (if isl (fst (commitBlockWrite c p l1)) then None else Some b) l (snd (commitBlockWrite c p l1))"
        proof (cases "fst (commitBlockWrite c p l1)")
          case (Inl e)
          then have "snd (commitBlockWrite c p l1) = l1"
            using commit_reject [OF n] by (metis prod.collapse)
          then show ?thesis using Inl s1 by (simp add: advances.stay)
        next
          case (Inr u)
          then have wr: "commitBlockWrite c p l1 = (Inr (), snd (commitBlockWrite c p l1))"
            by (metis old.unit.exhaust prod.collapse)
          then show ?thesis using Inr advances.writes [OF s1 cc [OF wr] wr refl] by simp
        qed
      qed simp
    qed
  qed
qed

section \<open>Dispatch and admission\<close>

lemma credential_core: "core (snd (verifyBlockCredential E b l)) = core l"
proof -
  have k: "core (snd (GetAccountKey a l)) = core l" for a
    by (auto simp: GetAccountKey_def setAccountKey_def core_def Let_def split: option.splits)
  have r: "core (snd (resolveMissingKeyset a l)) = core l" for a
    by (auto simp: resolveMissingKeyset_def setKeyset_def core_def Let_def split: option.splits)
  show ?thesis
    using k [of "blk_Account b"] r [of "blk_Account b"]
    by (auto simp: verifyBlockCredential_def Let_def split_def split: sum.splits option.splits prod.splits)
qed

lemma VerifyMultisig_hash:
  "VerifyMultisig E h sigs ks = Inr x \<Longrightarrow> \<exists>bs. DecodeHash h = Inr bs"
  "VerifyMultisigAny E h sigs ks = Inr x \<Longrightarrow> \<exists>bs. DecodeHash h = Inr bs"
  by (auto simp: VerifyMultisig_def VerifyMultisigAny_def wrap_def split: if_splits sum.splits)

lemma verify_signatures_hash: "verify_signatures E b ks = Inr x \<Longrightarrow> \<exists>bs. DecodeHash (blk_Hash b) = Inr bs"
  by (auto simp: verify_signatures_def wrap_def dest: VerifyMultisig_hash split: if_splits sum.splits)

lemma credential_hash:
  assumes "fst (verifyBlockCredential E b l) = Inr x"
  shows "\<exists>bs. DecodeHash (blk_Hash b) = Inr bs"
  using assms
  by (auto simp: verifyBlockCredential_def Let_def split_def VerifyBlockSignatureWith_def wrap_def
      dest: verify_signatures_hash split: sum.splits option.splits prod.splits if_splits)

lemma DecodeHash_nonempty: "DecodeHash h = Inr bs \<Longrightarrow> h \<noteq> [] \<and> h \<noteq> ''0''"
  by (auto simp: DecodeHash_def hex_val_def wrap_def split: sum.splits if_splits)

lemma dispatch_advances:
  assumes ok: "ledger_ok l" and f: "fresh b l"
  shows "advances (if isl (fst (dispatchValidateAndAdd E b s l)) then None else Some b) l
    (snd (dispatchValidateAndAdd E b s l))"
proof -
  obtain r l1 where V: "verifyBlockCredential E b l = (r, l1)" by (cases "verifyBlockCredential E b l")
  have c1: "core l1 = core l" using credential_core [of E b l] V by simp
  have ok1: "ledger_ok l1" using ledger_ok_core [OF c1] ok by simp
  have f1: "fresh b l1" using f core_eqD(1) [OF c1] by (simp add: fresh_def)
  show ?thesis
  proof (cases r)
    case (Inl e)
    then show ?thesis using V c1 by (simp add: dispatchValidateAndAdd_def advances.stay settled.same)
  next
    case (Inr x)
    show ?thesis
      by (rule advances_core_left [OF c1])
        (use V Inr ok1 f1 send_handler.contract burn_handler.contract receive_handler.contract mint_handler.contract
          genesis_handler.contract multisig_open_handler.contract multisig_update_handler.contract
          lease_handler.contract accept_handler.contract renew_handler.contract settle_handler.contract
          force_settle_handler.contract cancel_handler.contract
          in \<open>cases "blk_Type b"; simp add: dispatchValidateAndAdd_def advances.stay settled.same\<close>)
  qed
qed

definition admitted :: "block \<Rightarrow> block" where
  "admitted b = strip_attestations (normalizeBlockHex b)"

lemma stage_conflict_core: "core (stage_conflict E b h l) = core l"
  by (auto simp: stage_conflict_def recordConflict_def core_def Let_def store_SaveConflict_def
      store_SaveStagedBlock_def split: option.splits if_splits)

lemma add_conflicting_core: "core (snd (add_conflicting E b h c l)) = core l"
proof -
  have v: "core l' = core l" if "ValidateStagedBlock E b p l = (r, l')" for p r l'
    using that credential_core [of E b l] by (auto simp: ValidateStagedBlock_def split: prod.splits sum.splits)
  show ?thesis
    by (auto simp: add_conflicting_def Let_def stage_conflict_core dest: v split: prod.splits sum.splits option.splits)
qed

lemma addBlock_advances:
  assumes ok: "ledger_ok l"
  shows "\<exists>bo. (bo = None \<or> bo = Some (admitted b)) \<and> advances bo l (snd (addBlock E b s l))"
proof -
  define b' where "b' = admitted b"
  obtain r l1 where V: "verifyBlockCredential E b' l = (r, l1)" by (cases "verifyBlockCredential E b' l")
  have c1: "core l1 = core l" using credential_core [of E b' l] V by simp
  have ok1: "ledger_ok l1" using ledger_ok_core [OF c1] ok by simp
  have stay: "\<exists>bo. (bo = None \<or> bo = Some b') \<and> advances bo l l'" if "core l' = core l" for l'
    using that by (auto intro: advances.stay settled.same)
  let ?d = "dispatchValidateAndAdd E b' s l1"
  have disp: "\<exists>bo. (bo = None \<or> bo = Some b') \<and> advances bo l (snd ?d)"
    if "r = Inr ()" "mget (m_blocks (l_store l)) (blk_Hash b') = None" "IsValidAsset (blk_Asset b')"
  proof -
    have "blk_Hash b' \<noteq> [] \<and> blk_Hash b' \<noteq> ''0''"
      using credential_hash [of E b' l] V that(1) DecodeHash_nonempty by fastforce
    then have "fresh b' l1" using that core_eqD(1) [OF c1] by (simp add: fresh_def)
    from advances_core_left [OF c1 dispatch_advances [OF ok1 this, of E s]]
    show ?thesis by (auto split: if_splits)
  qed
  have "\<exists>bo. (bo = None \<or> bo = Some b') \<and> advances bo l (snd (addBlock E b s l))"
    unfolding addBlock_def admitted_def [symmetric] b'_def [symmetric] Let_def V
    using stay [OF refl] stay [OF c1] disp stay [of "snd (add_conflicting E b' h c l1)" for h c]
    by (auto simp: store_GetBlock_def add_conflicting_core c1 split: sum.splits prod.splits)
  then show ?thesis by (simp add: b'_def)
qed

end
