(* ===== verification/XE_Codec.thy ===== *)
theory XE_Codec
  imports XE_Encoding
begin

text \<open>
  The byte formats of \<open>core/encoding.go\<close> are lossless: hexadecimal and big-endian
  integers decode to what was encoded, and so do votes and the canonical block encoding.
  Where the decoders do not accept what the encoders emit, the theorems say so.
\<close>

section \<open>Hexadecimal\<close>

lemma hex_val_digit: "n < 16 \<Longrightarrow> hex_val (hex_digit n) = Some n"
  by (auto simp: hex_val_def hex_digit_def Let_def)

lemma hex_byte_val:
  "hex_val (hex_digit (unat (b :: 8 word) div 16)) = Some (unat b div 16)"
  "hex_val (hex_digit (unat b mod 16)) = Some (unat b mod 16)"
proof -
  have "unat b < 256" using unsigned_less [of b] by simp
  then show "hex_val (hex_digit (unat b div 16)) = Some (unat b div 16)" by (intro hex_val_digit) simp
  show "hex_val (hex_digit (unat b mod 16)) = Some (unat b mod 16)" by (intro hex_val_digit) simp
qed

lemma hex_decode_encode [simp]: "hex_DecodeString (hex_EncodeToString bs) = Inr bs"
proof (induction bs)
  case (Cons b bs)
  have "of_nat (unat b div 16 * 16 + unat b mod 16) = b" by simp
  with Cons show ?case by (simp add: hex_EncodeToString_def hex_byte_def hex_byte_val)
qed (simp add: hex_EncodeToString_def)

lemma hex_encode_inject [simp]: "hex_EncodeToString a = hex_EncodeToString b \<longleftrightarrow> a = b"
  by (metis hex_decode_encode sum.inject(2))

lemma length_hex [simp]: "length (hex_EncodeToString bs) = 2 * length bs"
  by (induction bs) (simp_all add: hex_EncodeToString_def hex_byte_def)

lemma hex_val_lower: "hex_val c = Some n \<Longrightarrow> n < 16 \<and> ToLower [c] = [hex_digit n]"
  by (auto simp: hex_val_def hex_digit_def Let_def ToLower_def lower_char_def less_eq_char_def add.commute split: if_splits)

lemma hex_encode_decode: "hex_DecodeString s = Inr bs \<Longrightarrow> hex_EncodeToString bs = ToLower s"
proof (induction s arbitrary: bs rule: hex_DecodeString.induct)
  case (3 p q s)
  then obtain a b cs where ab: "hex_val p = Some a" "hex_val q = Some b" "hex_DecodeString s = Inr cs"
    "bs = of_nat (a * 16 + b) # cs"
    by (auto split: option.splits sum.splits)
  note l = hex_val_lower [OF ab(1)] hex_val_lower [OF ab(2)]
  have "unat (of_nat (a * 16 + b) :: 8 word) = a * 16 + b"
    using l unat_of_nat [of "a * 16 + b", where 'a = 8] by simp
  then show ?case using ab l "3.IH" [OF ab(1,2,3)]
    by (simp add: hex_EncodeToString_def hex_byte_def ToLower_def)
qed (auto simp: hex_EncodeToString_def ToLower_def split: option.splits)

section \<open>Big-endian integers\<close>

lemma length_be_put [simp]: "length (be_put n x) = n"
  by (induction n arbitrary: x) simp_all

lemma be_get_snoc: "be_get (bs @ [b]) = be_get bs * 256 + unat b"
  by (simp add: be_get_def)

lemma be_get_put: "be_get (be_put n x) = x mod 256 ^ n"
proof (induction n arbitrary: x)
  case (Suc n)
  have "unat (of_nat (x mod 256) :: 8 word) = x mod 256" by (simp add: unat_of_nat)
  then show ?case
    by (simp add: be_get_snoc Suc mod_mult2_eq [of x 256 "256 ^ n"] mult.commute)
qed (simp add: be_get_def)

lemma length_Put [simp]:
  "length (PutUint64 w) = 8" "length (PutInt64 x) = 8" "length (PutUint32 x) = 4" "length (PutUint16 n) = 2"
  by (simp_all add: PutUint64_def PutInt64_def PutUint32_def PutUint16_def)

lemma Uint64_Put [simp]: "Uint64 (PutUint64 w) = w"
proof -
  have "unat w mod 256 ^ 8 = unat w" using unat_u64_lt [of w] by simp
  then show ?thesis by (simp add: Uint64_def PutUint64_def be_get_put)
qed

lemma Int64_Put [simp]: "is_i64 x \<Longrightarrow> Int64 (PutInt64 x) = x"
  by (simp add: Int64_def PutInt64_def is_i64_def signed_of_int signed_take_bit_int_eq_self)

section \<open>Fields of 32 bytes\<close>

text \<open>
  A field decodes to itself when it is in lower case, and, where all zeros stand for an
  absent value, is not all zeros.
\<close>

definition zero_hex :: string where
  "zero_hex = hex_EncodeToString (replicate 32 0)"

definition canonical :: "string \<Rightarrow> bool" where
  "canonical s \<longleftrightarrow> ToLower s = s \<and> s \<noteq> zero_hex"

lemma hex32_decode:
  assumes "hex32 op field s = Inr bs"
  shows "length bs = 32" "ToLower s = s \<Longrightarrow> hex_EncodeToString bs = s"
  using assms hex_encode_decode [of s bs] by (auto simp: hex32_def split: sum.splits if_splits)

lemma hex32_nonzero:
  assumes "hex32 op field s = Inr bs" "canonical s"
  shows "\<not> allZero bs"
proof
  assume "allZero bs"
  then have "bs = replicate 32 0"
    using hex32_decode(1) [OF assms(1)] by (intro replicate_eqI) (auto simp: allZero_def list_all_iff)
  then show False using hex32_decode(2) [OF assms(1)] assms(2) by (simp add: canonical_def zero_hex_def)
qed

lemma hex32_or_zero_decode:
  assumes "hex32_or_zero (s = z) op field s = Inr bs" "canonical s"
  shows "length bs = 32" "(if allZero bs then z else hex_EncodeToString bs) = s"
  using assms hex32_decode [of op field s bs] hex32_nonzero [of op field s bs]
  by (auto simp: hex32_or_zero_def allZero_def list_all_iff canonical_def split: if_splits)

section \<open>Votes\<close>

definition canonical_vote :: "vote \<Rightarrow> bool" where
  "canonical_vote v \<longleftrightarrow>
     canonical (vt_RepPubKey v) \<and> canonical (vt_BlockHash v) \<and> canonical (vt_ConflictAccount v) \<and>
     canonical (vt_ConflictPrev v) \<and> is_i64 (vt_Timestamp v) \<and> length (vt_Signature v) < 65396 \<and> vt_Weight v = 0"

lemma be_get_PutUint16 [simp]: "n < 2 ^ 16 \<Longrightarrow> be_get (PutUint16 n) = n"
  by (simp add: PutUint16_def be_get_put)


section \<open>Blocks\<close>

text \<open>
  The part of a block its canonical encoding carries. The declared key, the signatures, the
  hash, the attestations and the certificate hash travel outside it.
\<close>

definition wire_head :: "block \<Rightarrow> block" where
  "wire_head b =
     zero_block\<lparr>blk_Type := blk_Type b, blk_Account := blk_Account b, blk_Previous := blk_Previous b,
       blk_Balance := blk_Balance b, blk_Timestamp := blk_Timestamp b, blk_Asset := blk_Asset b\<rparr>"

definition wire_fields :: "block \<Rightarrow> block" where
  "wire_fields b =
     (case blk_Type b of
        BlockSend \<Rightarrow> (wire_head b)\<lparr>blk_Destination := blk_Destination b, blk_Amount := blk_Amount b\<rparr>
      | BlockReceive \<Rightarrow> (wire_head b)\<lparr>blk_Source := blk_Source b\<rparr>
      | BlockLease \<Rightarrow>
          (wire_head b)\<lparr>blk_Destination := blk_Destination b, blk_Amount := blk_Amount b, blk_VCPUs := blk_VCPUs b,
            blk_MemoryMB := blk_MemoryMB b, blk_DiskGB := blk_DiskGB b, blk_Duration := blk_Duration b,
            blk_AccessPubKey := blk_AccessPubKey b\<rparr>
      | BlockLeaseAccept \<Rightarrow>
          (wire_head b)\<lparr>blk_Source := blk_Source b, blk_Amount := blk_Amount b, blk_LockedR := blk_LockedR b,
            blk_LockedPayoutCap := blk_LockedPayoutCap b, blk_LockedTWAP := blk_LockedTWAP b\<rparr>
      | BlockLeaseSettle \<Rightarrow> (wire_head b)\<lparr>blk_Source := blk_Source b, blk_Amount := blk_Amount b\<rparr>
      | BlockLeaseCancel \<Rightarrow> (wire_head b)\<lparr>blk_Source := blk_Source b\<rparr>
      | BlockLeaseForceSettle \<Rightarrow> (wire_head b)\<lparr>blk_Source := blk_Source b\<rparr>
      | BlockBurn \<Rightarrow> (wire_head b)\<lparr>blk_Amount := blk_Amount b\<rparr>
      | BlockMint \<Rightarrow> (wire_head b)\<lparr>blk_Amount := blk_Amount b\<rparr>
      | BlockMultisigOpen \<Rightarrow> (wire_head b)\<lparr>blk_MSKeyset := blk_MSKeyset b\<rparr>
      | BlockMultisigUpdate \<Rightarrow> (wire_head b)\<lparr>blk_MSKeyset := blk_MSKeyset b\<rparr>
      | _ \<Rightarrow> wire_head b)"

text \<open>Memos and lease timings are zero on the types that do not carry them.\<close>

definition wire_timing :: "block \<Rightarrow> block \<Rightarrow> block" where
  "wire_timing b b' =
     b'\<lparr>blk_LeaseMinDurationSecs := blk_LeaseMinDurationSecs b, blk_LeaseSettleGraceNs := blk_LeaseSettleGraceNs b,
        blk_LeaseForceSettleGapNs := blk_LeaseForceSettleGapNs b, blk_LeaseEscrowExpiryNs := blk_LeaseEscrowExpiryNs b,
        blk_LeaseArchiveGapNs := blk_LeaseArchiveGapNs b, blk_MaxAttestationSkewNs := blk_MaxAttestationSkewNs b\<rparr>"

definition carries_keyset :: "block_type \<Rightarrow> bool" where
  "carries_keyset t \<longleftrightarrow> t = BlockMultisigOpen \<or> t = BlockMultisigUpdate"

definition carries_memo :: "block_type \<Rightarrow> bool" where
  "carries_memo t \<longleftrightarrow> t = BlockSend \<or> t = BlockBurn"

text \<open>
  The decoder looks for the nonce behind the least length of the type, which for a block
  with a keyset is not where the encoder puts it: the nonce of those blocks is lost.
\<close>

definition wire_part :: "block \<Rightarrow> block" where
  "wire_part b =
     (wire_timing b ((wire_fields b)\<lparr>blk_Representative := blk_Representative b\<rparr>))\<lparr>blk_Memo := blk_Memo b,
        blk_PoWNonce := (if carries_keyset (blk_Type b) then 0 else blk_PoWNonce b)\<rparr>"

definition canonical_keyset :: "keyset \<Rightarrow> bool" where
  "canonical_keyset ks \<longleftrightarrow>
     sorted (ks_Keys ks) \<and> list_all (\<lambda>k. ToLower k = k) (ks_Keys ks) \<and> 1 \<le> length (ks_Keys ks) \<and>
     length (ks_Keys ks) \<le> 256 \<and> 0 \<le> ks_Threshold ks \<and> ks_Threshold ks < 2 ^ 32"

definition canonical_block :: "block \<Rightarrow> bool" where
  "canonical_block b \<longleftrightarrow>
     ToLower (blk_Account b) = blk_Account b \<and> canonical (blk_Previous b) \<and>
     ToLower (blk_Destination b) = blk_Destination b \<and> ToLower (blk_Source b) = blk_Source b \<and>
     canonical (blk_Representative b) \<and> canonical (blk_AccessPubKey b) \<and>
     IsValidAsset (blk_Asset b) \<and> is_i64 (blk_Timestamp b) \<and>
     is_i64 (blk_LeaseSettleGraceNs b) \<and> is_i64 (blk_LeaseForceSettleGapNs b) \<and>
     is_i64 (blk_LeaseEscrowExpiryNs b) \<and> is_i64 (blk_LeaseArchiveGapNs b) \<and> is_i64 (blk_MaxAttestationSkewNs b) \<and>
     (case blk_MSKeyset b of None \<Rightarrow> True | Some ks \<Rightarrow> canonical_keyset ks)"

lemma bytes_string_bytes [simp]: "bytes_string (string_bytes s) = s"
proof -
  have "of_char c mod 256 = (of_char c :: nat)" for c by (simp add: of_char_mod_256)
  then show ?thesis by (simp add: bytes_string_def string_bytes_def unat_of_nat o_def map_idI)
qed

lemma length_string_bytes [simp]: "length (string_bytes s) = length s"
  by (simp add: string_bytes_def)

definition asset_bytes :: "string \<Rightarrow> bytes" where
  "asset_bytes s = string_bytes s @ replicate (8 - length s) 0"

lemma strip_padding:
  assumes "xs \<noteq> []" "last xs \<noteq> 0"
  shows "rev (dropWhile (\<lambda>x. x = 0) (rev (xs @ replicate n (0 :: 8 word)))) = xs"
proof -
  have "dropWhile (\<lambda>x. x = 0) (replicate n 0 @ rev xs) = dropWhile (\<lambda>x. x = 0) (rev xs)"
    by (induction n) simp_all
  also have "\<dots> = rev xs" using assms by (cases xs rule: rev_cases) auto
  finally show ?thesis by simp
qed

lemma asset_bytes_decode:
  assumes "IsValidAsset s"
  shows "length (asset_bytes s) = 8" "bytes_string (rev (dropWhile (\<lambda>x. x = 0) (rev (asset_bytes s)))) = s"
proof -
  show "length (asset_bytes s) = 8" using assms by (auto simp: IsValidAsset_def asset_bytes_def)
  have "string_bytes s \<noteq> []" "last (string_bytes s) \<noteq> 0" using assms by (auto simp: IsValidAsset_def string_bytes_def)
  from strip_padding [OF this] show "bytes_string (rev (dropWhile (\<lambda>x. x = 0) (rev (asset_bytes s)))) = s"
    by (simp only: asset_bytes_def bytes_string_bytes)
qed

text \<open>The frame of an encoded block: the parts in front of and behind the fields of its type.\<close>

definition head_bytes :: "8 word \<Rightarrow> bytes \<Rightarrow> bytes \<Rightarrow> block \<Rightarrow> bytes" where
  "head_bytes tb account previous b =
     versionByte # tb # asset_bytes (blk_Asset b) @ account @ previous @ PutUint64 (blk_Balance b) @ PutInt64 (blk_Timestamp b)"

lemma MarshalBlock_parts:
  assumes "MarshalBlock b = Inr data" "canonical_block b"
  obtains tb account previous tail rep where "typeByte (blk_Type b) = Some tb"
    "data = head_bytes tb account previous b @ tail @ rep @ marshal_timing b @ marshal_memo b @ rev (PutUint64 (blk_PoWNonce b))"
    "length (head_bytes tb account previous b) = 90" "marshal_tail b = Inr tail"
    "length rep = 32" "hex_or_empty rep = blk_Representative b" "ValidateMemo (blk_Memo b) = Inr ()"
    "blk_Memo b \<noteq> [] \<Longrightarrow> blk_Type b = BlockSend \<or> blk_Type b = BlockBurn"
    "hasGenesisLeaseTiming b \<Longrightarrow> blk_Type b = BlockGenesis"
    "\<And>rest. unmarshal_header (blk_Type b) (head_bytes tb account previous b @ rest) = wire_head b"
proof -
  from assms(1) obtain tb account previous tail rep where
    p: "typeByte (blk_Type b) = Some tb" "hex32 ''MarshalBlock'' ''account'' (blk_Account b) = Inr account"
      "hex32_or_zero (blk_Previous b = ''0'') ''MarshalBlock'' ''previous'' (blk_Previous b) = Inr previous"
      "marshal_tail b = Inr tail"
      "hex32_or_zero (blk_Representative b = []) ''MarshalBlock'' ''representative'' (blk_Representative b) = Inr rep"
      "data = head_bytes tb account previous b @ tail @ rep @ marshal_timing b @ marshal_memo b @ rev (PutUint64 (blk_PoWNonce b))"
      "ValidateMemo (blk_Memo b) = Inr ()" "blk_Memo b \<noteq> [] \<Longrightarrow> blk_Type b = BlockSend \<or> blk_Type b = BlockBurn"
      "hasGenesisLeaseTiming b \<Longrightarrow> blk_Type b = BlockGenesis"
    by (auto simp: MarshalBlock_def MarshalBlockCanonical_def wrap_def head_bytes_def asset_bytes_def
        split: if_splits sum.splits option.splits)
  note c = assms(2) [unfolded canonical_block_def]
  have v: "IsValidAsset (blk_Asset b)" and i: "is_i64 (blk_Timestamp b)" using c by auto
  note a = asset_bytes_decode [OF v]
  have l: "length account = 32" "hex_EncodeToString account = blk_Account b" "length previous = 32"
    "(if allZero previous then ''0'' else hex_EncodeToString previous) = blk_Previous b"
    "length rep = 32" "hex_or_empty rep = blk_Representative b"
    using hex32_decode [OF p(2)] hex32_or_zero_decode [OF p(3)] hex32_or_zero_decode [OF p(5)] c
    by (auto simp: hex_or_empty_def)
  have "unmarshal_header (blk_Type b) (head_bytes tb account previous b @ rest) = wire_head b" for rest
  proof -
    let ?d = "head_bytes tb account previous b @ rest"
    have g: "slice 2 10 ?d = asset_bytes (blk_Asset b)" "slice 10 42 ?d = account" "slice 42 74 ?d = previous"
      "slice 74 82 ?d = PutUint64 (blk_Balance b)" "slice 82 90 ?d = PutInt64 (blk_Timestamp b)"
      by (simp_all add: head_bytes_def slice_def a l numeral_eq_Suc)
    show ?thesis unfolding unmarshal_header_def g l a using i by (simp add: wire_head_def)
  qed
  then show ?thesis
    using that p l a by (simp add: head_bytes_def)
qed

lemma slice_drop: "slice (n + i) (n + j) xs = slice i j (drop n xs)"
  by (simp add: slice_def add.commute)

lemma unmarshal_keyset:
  assumes "marshalKeysetCanonical ko = Inr k" "case ko of None \<Rightarrow> True | Some ks \<Rightarrow> canonical_keyset ks"
  shows "\<exists>ks. ko = Some ks \<and> unmarshalKeysetCanonical (k @ rest) = Inr (ks, length k)" "8 \<le> length k" "32 \<le> length k - 8"
proof -
  obtain ks body where ks: "ko = Some ks" "decode_keys (sort (ks_Keys ks)) = Inr body"
    and k: "k = PutUint32 (ks_Threshold ks) @ PutUint32 (int (length (sort (ks_Keys ks)))) @ body"
    using assms(1) by (auto simp: marshalKeysetCanonical_def Let_def split: option.splits sum.splits)
  have c: "canonical_keyset ks" using assms(2) ks by simp
  then have so: "sort (ks_Keys ks) = ks_Keys ks" by (simp add: canonical_keyset_def sorted_sort_id)
  have d: "length bs = 32 * length xs \<and> (list_all (\<lambda>k. ToLower k = k) xs \<longrightarrow>
      map (\<lambda>i. hex_EncodeToString (slice (i * 32) ((i + 1) * 32) (bs @ r))) [0..<length xs] = xs)"
    if "decode_keys xs = Inr bs" for xs bs r
    using that
  proof (induction xs arbitrary: bs)
    case (Cons x xs)
    then obtain kb r' where x: "hex_DecodeString x = Inr kb" "length kb = 32" "decode_keys xs = Inr r'" "bs = kb @ r'"
      by (auto split: sum.splits if_splits)
    have u: "[0..<length (x # xs)] = 0 # map Suc [0..<length xs]" by (simp add: upt_conv_Cons map_Suc_upt del: upt_Suc)
    have s: "slice (Suc i * 32) ((Suc i + 1) * 32) (bs @ r) = slice (i * 32) ((i + 1) * 32) (r' @ r)" for i
      by (simp add: slice_def x)
    have z: "slice (0 * 32) ((0 + 1) * 32) (bs @ r) = kb" by (simp add: slice_def x)
    show ?case
      unfolding u list.map map_map o_def s z using Cons.IH [OF x(3)] hex_encode_decode [OF x(1)] x by simp
  qed simp
  note d = d [OF ks(2) [unfolded so]]
  have n: "be_get (slice 4 8 (k @ rest)) = length (ks_Keys ks)" "int (be_get (slice 0 4 (k @ rest))) = ks_Threshold ks"
    using c by (auto simp: k so slice_def PutUint32_def be_get_put canonical_keyset_def)
  have l: "length k = 8 + 32 * length (ks_Keys ks)" using d by (simp add: k)
  show "\<exists>ks. ko = Some ks \<and> unmarshalKeysetCanonical (k @ rest) = Inr (ks, length k)"
  proof (intro exI conjI)
    show "ko = Some ks" by (rule ks)
    have "slice (8 + i * 32) (8 + (i + 1) * 32) (k @ rest) = slice (i * 32) ((i + 1) * 32) (body @ rest)" for i
      unfolding slice_drop by (simp add: k)
    then have "map (\<lambda>i. hex_EncodeToString (slice (8 + i * 32) (8 + (i + 1) * 32) (k @ rest))) [0..<length (ks_Keys ks)] = ks_Keys ks"
      using d c by (simp add: canonical_keyset_def)
    then show "unmarshalKeysetCanonical (k @ rest) = Inr (ks, length k)"
      unfolding unmarshalKeysetCanonical_def Let_def n using c l by (auto simp: canonical_keyset_def)
  qed
  show "8 \<le> length k" "32 \<le> length k - 8" using l c by (simp_all add: canonical_keyset_def)
qed

text \<open>What the fields of each type look like on the wire.\<close>

lemma marshal_tail_shape:
  assumes "marshal_tail b = Inr tail" "canonical_block b"
  obtains
    (dest) d where "blk_Type b = BlockSend" "tail = d @ PutUint64 (blk_Amount b)" "length d = 32" "hex_EncodeToString d = blk_Destination b"
  | (source) x where "blk_Type b \<in> {BlockReceive, BlockLeaseCancel, BlockLeaseForceSettle}" "tail = x" "length x = 32" "hex_EncodeToString x = blk_Source b"
  | (lease) d k where "blk_Type b = BlockLease" "tail = d @ PutUint64 (blk_Amount b) @ PutUint64 (blk_VCPUs b) @
      PutUint64 (blk_MemoryMB b) @ PutUint64 (blk_DiskGB b) @ PutUint64 (blk_Duration b) @ k" "length d = 32"
      "hex_EncodeToString d = blk_Destination b" "length k = 32" "hex_or_empty k = blk_AccessPubKey b"
  | (accept) x where "blk_Type b = BlockLeaseAccept" "tail = x @ PutUint64 (blk_Amount b) @ PutUint64 (blk_LockedR b) @
      PutUint64 (blk_LockedPayoutCap b) @ PutUint64 (blk_LockedTWAP b)" "length x = 32" "hex_EncodeToString x = blk_Source b"
  | (settle) x where "blk_Type b = BlockLeaseSettle" "tail = x @ PutUint64 (blk_Amount b)" "length x = 32" "hex_EncodeToString x = blk_Source b"
  | (amount) "blk_Type b \<in> {BlockBurn, BlockMint}" "tail = PutUint64 (blk_Amount b)"
  | (keyset) "carries_keyset (blk_Type b)" "marshalKeysetCanonical (blk_MSKeyset b) = Inr tail"
  | (bare) "blk_Type b = BlockGenesis" "tail = []"
  | (renew) "blk_Type b = BlockLeaseRenew"
  | (other) x where "blk_Type b = BlockOther x"
proof -
  note c = assms(2) [unfolded canonical_block_def]
  have d: "length d = 32 \<and> hex_EncodeToString d = blk_Destination b" if "hex32 p f (blk_Destination b) = Inr d" for p f d
    using hex32_decode [OF that] c by simp
  have x: "length x = 32 \<and> hex_EncodeToString x = blk_Source b" if "hex32 p f (blk_Source b) = Inr x" for p f x
    using hex32_decode [OF that] c by simp
  have k: "length k = 32 \<and> hex_or_empty k = blk_AccessPubKey b"
    if "hex32_or_zero (blk_AccessPubKey b = []) p f (blk_AccessPubKey b) = Inr k" for p f k
    using hex32_or_zero_decode [OF that] c by (simp add: hex_or_empty_def)
  show ?thesis
    using assms(1) that
    by (cases "blk_Type b") (auto simp: marshal_tail_def carries_keyset_def wrap_def dest!: d x k split: sum.splits)
qed

lemma tail_slices:
  assumes "length (hb :: bytes) = 90"
  shows "slice 90 122 (hb @ xs) = slice 0 32 xs" "slice 90 98 (hb @ xs) = slice 0 8 xs"
    "slice 122 130 (hb @ xs) = slice 32 40 xs" "slice 130 138 (hb @ xs) = slice 40 48 xs"
    "slice 138 146 (hb @ xs) = slice 48 56 xs" "slice 146 154 (hb @ xs) = slice 56 64 xs"
    "slice 154 162 (hb @ xs) = slice 64 72 xs" "slice 162 194 (hb @ xs) = slice 72 104 xs"
    "drop 90 (hb @ xs) = xs"
  using assms by (simp_all add: slice_def)

lemma unmarshal_tail_bytes:
  assumes t: "marshal_tail b = Inr tail" and cb: "canonical_block b" and hb: "length hb = 90"
    and tb: "blk_Type b \<noteq> BlockLeaseRenew" "typeByte (blk_Type b) = Some tb" and r: "32 \<le> length rest"
  shows "unmarshal_tail (wire_head b) (hb @ tail @ rest) = Inr (wire_fields b, 90 + length tail)"
    "decode_type tb = Some (blk_Type b,
       if carries_keyset (blk_Type b) then 130 else 122 + length tail + (if carries_memo (blk_Type b) then 1 else 0))"
    "carries_keyset (blk_Type b) \<Longrightarrow> 40 \<le> length tail"
proof -
  have w: "blk_Type (wire_head b) = blk_Type b" by (simp add: wire_head_def)
  have "unmarshal_tail (wire_head b) (hb @ tail @ rest) = Inr (wire_fields b, 90 + length tail) \<and>
    decode_type tb = Some (blk_Type b,
       if carries_keyset (blk_Type b) then 130 else 122 + length tail + (if carries_memo (blk_Type b) then 1 else 0)) \<and>
    (carries_keyset (blk_Type b) \<longrightarrow> 40 \<le> length tail)"
    using t cb
  proof (cases rule: marshal_tail_shape)
    case keyset
    have "case blk_MSKeyset b of None \<Rightarrow> True | Some ks \<Rightarrow> canonical_keyset ks" using cb by (simp add: canonical_block_def)
    note k = unmarshal_keyset(1) [OF keyset(2) this, of rest] unmarshal_keyset(2-3) [OF keyset(2) this]
    show ?thesis
      unfolding unmarshal_tail_def w tail_slices [OF hb]
      using keyset(1) tb k r hb by (auto simp: carries_keyset_def decode_type_def wire_fields_def)
  qed (use tb hb in \<open>auto simp: unmarshal_tail_def w tail_slices decode_type_def wire_fields_def slice_def
      carries_keyset_def carries_memo_def\<close>)
  then show "unmarshal_tail (wire_head b) (hb @ tail @ rest) = Inr (wire_fields b, 90 + length tail)"
    "decode_type tb = Some (blk_Type b,
       if carries_keyset (blk_Type b) then 130 else 122 + length tail + (if carries_memo (blk_Type b) then 1 else 0))"
    "carries_keyset (blk_Type b) \<Longrightarrow> 40 \<le> length tail"
    by blast+
qed

lemma wire_fields_unset:
  "blk_LeaseMinDurationSecs (wire_fields b) = 0" "blk_LeaseSettleGraceNs (wire_fields b) = 0"
  "blk_LeaseForceSettleGapNs (wire_fields b) = 0" "blk_LeaseEscrowExpiryNs (wire_fields b) = 0"
  "blk_LeaseArchiveGapNs (wire_fields b) = 0" "blk_MaxAttestationSkewNs (wire_fields b) = 0"
  "blk_Memo (wire_fields b) = []" "blk_PoWNonce (wire_fields b) = 0"
  by (cases "blk_Type b"; simp add: wire_fields_def wire_head_def zero_block_def)+

lemma wire_timing_absent:
  "\<not> hasGenesisLeaseTiming b \<Longrightarrow>
   wire_timing b ((wire_fields b)\<lparr>blk_Representative := r\<rparr>) = (wire_fields b)\<lparr>blk_Representative := r\<rparr>"
  by (intro block.equality) (simp_all add: wire_timing_def hasGenesisLeaseTiming_def wire_fields_unset)

lemma unmarshal_timing_bytes:
  assumes "canonical_block b" "hasGenesisLeaseTiming b"
  shows "length (marshal_timing b) = 48" "unmarshal_timing (marshal_timing b) b' = wire_timing b b'"
  using assms by (simp_all add: marshal_timing_def unmarshal_timing_def wire_timing_def slice_def canonical_block_def)

lemma unmarshal_memo_bytes:
  assumes "ValidateMemo (blk_Memo b) = Inr ()" "carries_memo (blk_Type b)" "length pre = off + 32" "blk_Memo b' = []"
  shows "unmarshal_memo (pre @ marshal_memo b @ rest) (off + 33) off b' =
    Inr (b'\<lparr>blk_Memo := blk_Memo b\<rparr>, off + 33 + length (blk_Memo b))"
proof -
  have m: "length (blk_Memo b) \<le> 64" using assms(1) by (auto simp: ValidateMemo_def MaxMemoBytes_def split: if_splits)
  then have u: "unat (of_nat (length (blk_Memo b)) :: 8 word) = length (blk_Memo b)" by (simp add: unat_of_nat)
  have mm: "marshal_memo b = of_nat (length (blk_Memo b)) # string_bytes (blk_Memo b)"
    using assms(2) by (simp add: marshal_memo_def carries_memo_def)
  have n: "(pre @ marshal_memo b @ rest) ! (off + 32) = of_nat (length (blk_Memo b))"
    using assms(3) by (simp add: mm nth_append)
  have s: "slice (off + 33) (off + 33 + length (blk_Memo b)) (pre @ marshal_memo b @ rest) = string_bytes (blk_Memo b)"
    using assms(3) by (simp add: mm slice_def)
  have e: "b'\<lparr>blk_Memo := []\<rparr> = b'" using assms(4) by (intro block.equality) simp_all
  show ?thesis
    unfolding unmarshal_memo_def Let_def n u s using m assms(1,3) e by (simp add: mm MaxMemoBytes_def)
qed


lemma ToLower_hex [simp]: "ToLower (hex_EncodeToString bs) = hex_EncodeToString bs"
  using hex_encode_decode [OF hex_decode_encode] by simp

lemma ToLower_Nil [simp]: "ToLower [] = []"
  by (simp add: ToLower_def)

lemma canonical_hex: "canonical (hex_EncodeToString bs) \<longleftrightarrow> bs \<noteq> replicate 32 0"
  by (simp add: canonical_def zero_hex_def)

lemma canonical_Nil [simp]: "canonical []" "canonical ''0''"
proof -
  have "x \<noteq> zero_hex" if "length x < 64" for x using that by (auto simp: zero_hex_def)
  from this [of "[]"] this [of "''0''"] show "canonical []" "canonical ''0''" by (auto simp: canonical_def ToLower_def lower_char_def less_eq_char_def)
qed

lemma replicate_differ: "0 < n \<Longrightarrow> a \<noteq> b \<Longrightarrow> replicate n a \<noteq> replicate n b"
  by (cases n) auto

definition sample_hex :: "8 word \<Rightarrow> string" where
  "sample_hex x = hex_EncodeToString (replicate 32 x)"

lemma sample_hex [simp]:
  "hex32 op f (sample_hex x) = Inr (replicate 32 x)" "ToLower (sample_hex x) = sample_hex x"
  "canonical (sample_hex x) \<longleftrightarrow> x \<noteq> 0" "sample_hex x \<noteq> []" "sample_hex x \<noteq> ''0''" "sample_hex x = sample_hex y \<longleftrightarrow> x = y"
proof -
  have l: "length (sample_hex x) = 64" by (simp add: sample_hex_def)
  show "hex32 op f (sample_hex x) = Inr (replicate 32 x)" "ToLower (sample_hex x) = sample_hex x"
    "canonical (sample_hex x) \<longleftrightarrow> x \<noteq> 0" "sample_hex x = sample_hex y \<longleftrightarrow> x = y"
    using replicate_differ [of 32 x 0] replicate_differ [of 32 x y] by (auto simp: sample_hex_def hex32_def canonical_hex)
  show "sample_hex x \<noteq> []" "sample_hex x \<noteq> ''0''" using l by auto
qed

definition sample_send :: block where
  "sample_send =
     zero_block\<lparr>blk_Type := BlockSend, blk_Account := sample_hex 1, blk_Previous := sample_hex 2, blk_Balance := 5,
       blk_Timestamp := 7, blk_Asset := ''XE'', blk_Destination := sample_hex 3, blk_Amount := 10, blk_Memo := ''rent'',
       blk_PoWNonce := 9\<rparr>"


text \<open>
  The decoder has no case for the type byte of a lease renewal: the encoding of every
  renewal is refused.
\<close>

theorem UnmarshalBlock_renewal_refused:
  assumes "blk_Type b = BlockLeaseRenew" "MarshalBlock b = Inr data"
  shows "UnmarshalBlock data = Err ''UnmarshalBlock: unknown type byte 0x%02x''"
proof -
  from assms obtain tl where "data = versionByte # 14 # tl"
    by (auto simp: MarshalBlock_def MarshalBlockCanonical_def split: if_splits sum.splits)
  then show ?thesis by (simp add: UnmarshalBlock_def unmarshalBlock_def decode_type_def)
qed

definition sample_renew :: block where
  "sample_renew =
     zero_block\<lparr>blk_Type := BlockLeaseRenew, blk_Account := sample_hex 1, blk_Previous := sample_hex 2, blk_Asset := ''XUSD'',
       blk_Source := sample_hex 3, blk_Amount := 10, blk_Duration := 3600\<rparr>"

theorem UnmarshalBlock_renewal_refused_witness:
  "\<exists>data. MarshalBlock sample_renew = Inr data \<and> UnmarshalBlock data = Err ''UnmarshalBlock: unknown type byte 0x%02x''"
proof -
  have m: "\<exists>data. MarshalBlock sample_renew = Inr data"
    by (simp add: sample_renew_def zero_block_def MarshalBlock_def MarshalBlockCanonical_def ValidateMemo_def MaxMemoBytes_def
        marshal_tail_def hex32_or_zero_def hasGenesisLeaseTiming_def)
  then obtain data where "MarshalBlock sample_renew = Inr data" by blast
  with UnmarshalBlock_renewal_refused [OF _ this] show ?thesis by (auto simp: sample_renew_def)
qed

definition sample_vote :: vote where
  "sample_vote =
     \<lparr>vt_RepPubKey = sample_hex 1, vt_BlockHash = sample_hex 2, vt_ConflictAccount = sample_hex 3, vt_ConflictPrev = ''0'',
      vt_Timestamp = 7, vt_Final = True, vt_Signature = replicate 64 5, vt_Weight = 0\<rparr>"




end
