(* ===== verification/XE_Restart.thy ===== *)
theory XE_Restart
  imports XE_Contracts XE_Codec
begin

text \<open>
  Opening a ledger on a store (\<open>NewLedger\<close> in \<open>core/ledger.go\<close>): an empty store gets the
  genesis block, any other store is read back and the caches of the ledger are rebuilt
  from its chains. The rebuilt caches agree with those a running ledger maintains block by
  block.
\<close>

section \<open>Definitions\<close>

definition empty_ledger :: "mem_store \<Rightarrow> lease_timing \<Rightarrow> ledger" where
  "empty_ledger m T =
     \<lparr>l_store = m, l_delegation = [], l_weights = [], l_assetBalances = [], l_blockCount = 0,
      l_delegationUnderflow = 0, l_keysets = [], l_accountKeys = [], l_reputation = [],
      l_activeCascade = None, l_timing = T\<rparr>"

definition Frontiers :: "ledger \<Rightarrow> (string, string) gomap" where
  "Frontiers l = m_frontiers (l_store l)"

abbreviation frontier_accounts :: "ledger \<Rightarrow> string list" where
  "frontier_accounts l \<equiv> map fst (Frontiers l)"

definition rebuild_delegation1 :: "string \<times> string \<Rightarrow> ledger \<Rightarrow> ledger" where
  "rebuild_delegation1 e l =
     (let (account, representative) = e
      in if representative = [] then l
         else let l1 = l\<lparr>l_delegation := mput account representative (l_delegation l)\<rparr>
         in case store_GetAccountChain (l_store l) account of
              None \<Rightarrow> l1
            | Some chain \<Rightarrow>
                l1\<lparr>l_weights := mput representative
                     (mdef 0 (l_weights l) representative + big (assetBalanceOnChain chain ''XE'')) (l_weights l)\<rparr>)"

definition rebuildDelegation :: "ledger \<Rightarrow> ledger" where
  "rebuildDelegation l = fold rebuild_delegation1 (m_delegations (l_store l)) l"

definition rebuild_balance1 :: "mem_store \<Rightarrow> (string, u64) gomap \<Rightarrow> block \<Rightarrow> (string, u64) gomap" where
  "rebuild_balance1 m bal b =
     (let bal1 = mput (assetOf b) (blk_Balance b) bal
      in if blk_Type b = BlockLeaseSettle
         then case store_GetLease m (blk_Source b) of
                None \<Rightarrow> bal1
              | Some ls \<Rightarrow> mput ''XUSD'' (mdef 0 bal1 ''XUSD'' + ls_Stake ls) bal1
         else bal1)"

definition rebuild_account :: "string \<Rightarrow> ledger \<Rightarrow> ledger" where
  "rebuild_account acc l =
     (case store_GetAccountChain (l_store l) acc of
        None \<Rightarrow> l
      | Some chain \<Rightarrow>
          l\<lparr>l_assetBalances := mput acc (foldl (rebuild_balance1 (l_store l)) [] chain) (l_assetBalances l)\<rparr>)"

definition rebuildAssetBalances :: "ledger \<Rightarrow> ledger" where
  "rebuildAssetBalances l = fold rebuild_account (frontier_accounts l) l"

definition rebuild_keyset1 :: "string \<Rightarrow> ledger \<Rightarrow> ledger" where
  "rebuild_keyset1 acc l =
     (case store_GetAccountChain (l_store l) acc of
        None \<Rightarrow> l
      | Some chain \<Rightarrow> (case chain_keyset chain of None \<Rightarrow> l | Some ks \<Rightarrow> l\<lparr>l_keysets := mput acc ks (l_keysets l)\<rparr>))"

definition rebuildKeysets :: "ledger \<Rightarrow> ledger" where
  "rebuildKeysets l = fold rebuild_keyset1 (frontier_accounts l) l"

definition rebuild_key1 :: "string \<Rightarrow> ledger \<Rightarrow> ledger" where
  "rebuild_key1 acc l =
     (case store_GetAccountChain (l_store l) acc of
        None \<Rightarrow> l
      | Some chain \<Rightarrow>
          if declared_key chain = [] then l else l\<lparr>l_accountKeys := mput acc (declared_key chain) (l_accountKeys l)\<rparr>)"

definition rebuildAccountKeys :: "ledger \<Rightarrow> ledger" where
  "rebuildAccountKeys l = fold rebuild_key1 (frontier_accounts l) l"

definition lookup_timestamp :: "block_type \<Rightarrow> string \<Rightarrow> mem_store \<Rightarrow> lease \<Rightarrow> int" where
  "lookup_timestamp t account m ls =
     (let default = i64 (ls_StartTime ls + i64 (sint (ls_Duration ls) * 1000000000))
      in case store_GetAccountChain m account of
           None \<Rightarrow> default
         | Some chain \<Rightarrow>
             (case find (\<lambda>b. blk_Type b = t \<and> blk_Source b = ls_LeaseHash ls) chain of
                None \<Rightarrow> default | Some b \<Rightarrow> blk_Timestamp b))"

definition lookupLeaseSettleTimestamp :: "mem_store \<Rightarrow> lease \<Rightarrow> int" where
  "lookupLeaseSettleTimestamp m ls = lookup_timestamp BlockLeaseSettle (ls_Provider ls) m ls"

definition lookupLeaseForceSettleTimestamp :: "mem_store \<Rightarrow> lease \<Rightarrow> int" where
  "lookupLeaseForceSettleTimestamp m ls = lookup_timestamp BlockLeaseForceSettle (ls_Consumer ls) m ls"

definition lease_event :: "event_kind \<Rightarrow> lease \<Rightarrow> int \<Rightarrow> u64 \<Rightarrow> reputation_event" where
  "lease_event k ls t d =
     \<lparr>ev_Kind = k, ev_Provider = ls_Provider ls, ev_Consumer = ls_Consumer ls, ev_Timestamp = t, ev_DurationSecs = d\<rparr>"

definition rebuild_lease_reputation :: "lease \<Rightarrow> ledger \<Rightarrow> ledger" where
  "rebuild_lease_reputation ls l =
     (if ls_StartTime ls = 0 then l
      else let l1 = reputation_Apply (lease_event EventLeaseAccepted ls (ls_StartTime ls) 0) l
      in if \<not> ls_Settled ls then l1
         else if ls_State ls = LeaseExpired then l1
         else if ls_State ls = LeaseUnfulfilled
         then reputation_Apply (lease_event EventLeaseUnfulfilled ls (lookupLeaseForceSettleTimestamp (l_store l) ls) 0) l1
         else reputation_Apply
                (lease_event EventLeaseSettled ls (lookupLeaseSettleTimestamp (l_store l) ls) (ls_Duration ls)) l1)"

definition rebuild_cancel_reputation :: "block \<Rightarrow> ledger \<Rightarrow> ledger" where
  "rebuild_cancel_reputation b l =
     (if blk_Type b \<noteq> BlockLeaseCancel then l
      else case store_GetBlock (l_store l) (blk_Source b) of
        None \<Rightarrow> l
      | Some leaseBlock \<Rightarrow>
          reputation_Apply \<lparr>ev_Kind = EventLeaseCancelled, ev_Provider = blk_Destination leaseBlock,
            ev_Consumer = blk_Account b, ev_Timestamp = blk_Timestamp b, ev_DurationSecs = 0\<rparr> l)"

definition rebuildReputation :: "ledger \<Rightarrow> ledger" where
  "rebuildReputation l =
     (let l0 = l\<lparr>l_reputation := []\<rparr>;
          l1 = fold rebuild_lease_reputation (map snd (m_leases (l_store l))) l0
      in fold (\<lambda>acc l. case store_GetAccountChain (l_store l) acc of
                 None \<Rightarrow> l | Some chain \<Rightarrow> fold rebuild_cancel_reputation chain l) (frontier_accounts l) l1)"

definition initBlockCount :: "ledger \<Rightarrow> ledger" where
  "initBlockCount l =
     l\<lparr>l_blockCount :=
         foldl (\<lambda>count acc. case store_GetAccountChain (l_store l) acc of
                  None \<Rightarrow> count | Some chain \<Rightarrow> i64 (count + int (length chain))) 0 (frontier_accounts l)\<rparr>"

definition prune_undo :: "string \<Rightarrow> block_undo" where
  "prune_undo acc =
     \<lparr>u_Account = acc, u_Chain = [], u_FrontierHash = ''0'', u_AddPending = None, u_DeletePendingID = [],
      u_RejectHash = [], u_DeleteAccount = True, u_RestoreDelegation = True, u_PrevRep = [],
      u_RestoreLease = None, u_DeleteLeaseHash = [], u_DeleteKeysetAccount = [],
      u_DeleteAccountKeyAccount = [], u_AssetDebit = None, u_ReducePendingID = [], u_ReducePendingAmount = 0\<rparr>"

definition prune1 :: "string \<Rightarrow> ledger \<Rightarrow> ledger" where
  "prune1 acc l =
     (if mdef [] (m_chains (l_store l)) acc \<noteq> [] then l
      else deleteAccountBalances acc (l\<lparr>l_store := applyUndoLocked (prune_undo acc) (l_store l)\<rparr>))"

definition pruneChainlessAccounts :: "ledger \<Rightarrow> ledger" where
  "pruneChainlessAccounts l = fold prune1 (frontier_accounts l) l"

definition rebuild :: "ledger \<Rightarrow> ledger" where
  "rebuild l =
     pruneChainlessAccounts (initBlockCount (rebuildReputation (rebuildAccountKeys (rebuildKeysets
       (rebuildAssetBalances (rebuildDelegation l))))))"

text \<open>A panic of the constructor is the result \<open>Panic\<close>.\<close>

definition panic_of :: "string \<Rightarrow> error \<Rightarrow> 'a result" where
  "panic_of p e = Panic (p @ err_text e)"

definition new_on_empty :: "env \<Rightarrow> ledger \<Rightarrow> ledger result" where
  "new_on_empty E l =
     (case LoadGenesisBlock E l of
        (Inl e, l1) \<Rightarrow> panic_of ''ledger: load genesis: '' e
      | (Inr genesis, l1) \<Rightarrow>
          let (commit, prevBal) = prepareBlockWrite l1 genesis
          in case commitBlockWrite commit prevBal l1 of
               (Inl e, l2) \<Rightarrow> panic_of ''ledger: commit genesis: '' e
             | (Inr _, l2) \<Rightarrow>
                 let l3 = l2\<lparr>l_store := store_SetFinalHeight (blk_Account genesis) 1 (l_store l2)\<rparr>
                 in if GetTotalDelegatedWeight E l3 = 0
                    then Panic ''ledger: genesis %s yielded ZERO total delegated weight - refusing to bootstrap a network that can never finalize a block''
                    else Inr l3)"

definition new_on_store :: "env \<Rightarrow> ledger \<Rightarrow> ledger result" where
  "new_on_store E l =
     (case LoadGenesisBlock E l of
        (Inl e, l1) \<Rightarrow> panic_of ''genesis: '' e
      | (Inr genesis, l1) \<Rightarrow>
          (case store_GetAccountChain (l_store l1) (blk_Account genesis) of
             None \<Rightarrow> Panic ''ledger: persisted genesis chain for %s is missing on restart''
           | Some gchain \<Rightarrow>
               if gchain = [] then Panic ''ledger: persisted genesis chain for %s is missing on restart''
               else Inr (rebuild (l1\<lparr>l_timing := ApplyGenesisLeaseTiming (Some (hd gchain))\<rparr>))))"

definition NewLedger :: "env \<Rightarrow> lease_timing \<Rightarrow> mem_store \<Rightarrow> ledger result" where
  "NewLedger E T m =
     (if store_IsEmpty m then new_on_empty E (empty_ledger m T) else new_on_store E (empty_ledger m T))"

section \<open>The parts of the core each rebuild step sets\<close>

lemma fold_core: "(\<And>x l. core (f x l) = core l) \<Longrightarrow> core (fold f xs l) = core l"
  by (induction xs arbitrary: l) simp_all

lemma rebuildKeysets_core: "core (rebuildKeysets l) = core l"
  unfolding rebuildKeysets_def
  by (rule fold_core) (auto simp: rebuild_keyset1_def core_def Let_def split: option.splits)

lemma rebuildAccountKeys_core: "core (rebuildAccountKeys l) = core l"
  unfolding rebuildAccountKeys_def
  by (rule fold_core) (auto simp: rebuild_key1_def core_def Let_def split: option.splits)

lemma rebuildReputation_core: "core (rebuildReputation l) = core l"
proof -
  have a: "core (rebuild_lease_reputation ls l) = core l" for ls l
    by (simp add: rebuild_lease_reputation_def Let_def)
  have b: "core (rebuild_cancel_reputation x l) = core l" for x l
    by (simp add: rebuild_cancel_reputation_def split: option.splits)
  have c: "core (case store_GetAccountChain (l_store l) acc of None \<Rightarrow> l
      | Some chain \<Rightarrow> fold rebuild_cancel_reputation chain l) = core l" for acc l
    by (simp add: fold_core b split: option.splits)
  show ?thesis
    unfolding rebuildReputation_def Let_def
    by (subst fold_core [OF c], subst fold_core [OF a]) (simp add: core_def Let_def)
qed

lemma initBlockCount_core: "core (initBlockCount l) = core l"
  by (simp add: initBlockCount_def core_def Let_def)

lemma prune_id:
  assumes "\<And>a. a \<in> set (frontier_accounts l) \<Longrightarrow> chain_of l a \<noteq> []"
  shows "pruneChainlessAccounts l = l"
proof -
  have "fold prune1 xs l = l" if "set xs \<subseteq> set (frontier_accounts l)" for xs
    using that assms by (induction xs) (auto simp: prune1_def chain_of_def)
  then show ?thesis by (simp add: pruneChainlessAccounts_def)
qed

lemma fold_rebuild_delegation:
  assumes "mwf ds" "\<And>a. mget ds a \<noteq> Some []"
  shows "l_store (fold rebuild_delegation1 ds l) = l_store l"
    "l_assetBalances (fold rebuild_delegation1 ds l) = l_assetBalances l"
    "l_activeCascade (fold rebuild_delegation1 ds l) = l_activeCascade l"
    "l_delegationUnderflow (fold rebuild_delegation1 ds l) = l_delegationUnderflow l"
    "mwf (l_delegation l) \<Longrightarrow> mwf (l_delegation (fold rebuild_delegation1 ds l))"
    "mget (l_delegation (fold rebuild_delegation1 ds l)) a =
       (case mget ds a of Some r \<Rightarrow> Some r | None \<Rightarrow> mget (l_delegation l) a)"
    "mdef 0 (l_weights (fold rebuild_delegation1 ds l)) rep =
       mdef 0 (l_weights l) rep + delegated_to (\<lambda>a. big (assetBalanceOnChain (chain_of l a) ''XE'')) ds rep"
proof -
  have s: "l_store (fold rebuild_delegation1 xs l) = l_store l \<and>
    l_assetBalances (fold rebuild_delegation1 xs l) = l_assetBalances l \<and>
    l_activeCascade (fold rebuild_delegation1 xs l) = l_activeCascade l \<and>
    l_delegationUnderflow (fold rebuild_delegation1 xs l) = l_delegationUnderflow l \<and>
    (mwf (l_delegation l) \<longrightarrow> mwf (l_delegation (fold rebuild_delegation1 xs l)))" for xs l
    by (induction xs arbitrary: l) (auto simp: rebuild_delegation1_def Let_def split: option.splits)
  show "l_store (fold rebuild_delegation1 ds l) = l_store l"
    "l_assetBalances (fold rebuild_delegation1 ds l) = l_assetBalances l"
    "l_activeCascade (fold rebuild_delegation1 ds l) = l_activeCascade l"
    "l_delegationUnderflow (fold rebuild_delegation1 ds l) = l_delegationUnderflow l"
    "mwf (l_delegation l) \<Longrightarrow> mwf (l_delegation (fold rebuild_delegation1 ds l))"
    using s by blast+
  have "mget (l_delegation (fold rebuild_delegation1 ds l)) a =
       (case mget ds a of Some r \<Rightarrow> Some r | None \<Rightarrow> mget (l_delegation l) a) \<and>
    mdef 0 (l_weights (fold rebuild_delegation1 ds l)) rep =
       mdef 0 (l_weights l) rep + delegated_to (\<lambda>a. big (assetBalanceOnChain (chain_of l a) ''XE'')) ds rep"
    using assms
  proof (induction ds arbitrary: l)
    case Nil
    then show ?case by (simp add: delegated_to_def)
  next
    case (Cons e ds)
    obtain x r where e: "e = (x, r)" by (cases e)
    have m: "mwf ds" "mget ds x = None" and r: "r \<noteq> []"
      using Cons.prems(1) Cons.prems(2) [of x] by (auto simp: e map_of_eq_None_iff)
    have nn: "mget ds a \<noteq> Some []" for a
      using Cons.prems(2) [of a] m(2) by (cases "a = x") (auto simp: e)
    let ?l1 = "rebuild_delegation1 e l"
    have l1: "l_store ?l1 = l_store l" "l_delegation ?l1 = mput x r (l_delegation l)"
      "mdef 0 (l_weights ?l1) rep = mdef 0 (l_weights l) rep +
         (if r = rep then big (assetBalanceOnChain (chain_of l x) ''XE'') else 0)" for rep
      using r by (auto simp: rebuild_delegation1_def e Let_def chain_of_def mdef_def store_GetAccountChain_def
          big_def split: option.splits)
    have c: "chain_of ?l1 = chain_of l" by (simp add: chain_of_def l1 fun_eq_iff)
    show ?case
      using Cons.IH [OF m(1) nn, of ?l1, unfolded l1 c] m(2) by (auto simp: e delegated_to_def split: option.splits)
  qed
  then show "mget (l_delegation (fold rebuild_delegation1 ds l)) a =
       (case mget ds a of Some r \<Rightarrow> Some r | None \<Rightarrow> mget (l_delegation l) a)"
    "mdef 0 (l_weights (fold rebuild_delegation1 ds l)) rep =
       mdef 0 (l_weights l) rep + delegated_to (\<lambda>a. big (assetBalanceOnChain (chain_of l a) ''XE'')) ds rep"
    by blast+
qed

lemma rebuild_balance:
  assumes "\<And>b. settle_stake m b = 0"
  shows "mdef 0 (foldl (rebuild_balance1 m) [] c) s = assetBalanceOnChain c s"
    "mwf (foldl (rebuild_balance1 m) [] c)"
proof -
  have z: "ls_Stake ls = 0" if "store_GetLease m (blk_Source b) = Some ls" "blk_Type b = BlockLeaseSettle" for b :: block and ls
    using assms [of b] that by (simp add: settle_stake_def)
  show "mdef 0 (foldl (rebuild_balance1 m) [] c) s = assetBalanceOnChain c s"
    by (induction c rule: rev_induct)
      (auto simp: rebuild_balance1_def Let_def assetBalanceOnChain_snoc z split: option.splits)
  show "mwf (foldl (rebuild_balance1 m) [] c)"
    by (induction c rule: rev_induct) (auto simp: rebuild_balance1_def Let_def split: option.splits)
qed

lemma fold_rebuild_account:
  "l_store (fold rebuild_account xs l) = l_store l" "l_delegation (fold rebuild_account xs l) = l_delegation l"
  "l_weights (fold rebuild_account xs l) = l_weights l" "l_activeCascade (fold rebuild_account xs l) = l_activeCascade l"
  "l_delegationUnderflow (fold rebuild_account xs l) = l_delegationUnderflow l"
  "mget (l_assetBalances (fold rebuild_account xs l)) a =
     (if a \<in> set xs \<and> mhas (m_chains (l_store l)) a
      then Some (foldl (rebuild_balance1 (l_store l)) [] (chain_of l a)) else mget (l_assetBalances l) a)"
  "mwf (l_assetBalances l) \<Longrightarrow> mwf (l_assetBalances (fold rebuild_account xs l))"
proof -
  have s: "l_store (fold rebuild_account xs l) = l_store l \<and> l_delegation (fold rebuild_account xs l) = l_delegation l \<and>
    l_weights (fold rebuild_account xs l) = l_weights l \<and> l_activeCascade (fold rebuild_account xs l) = l_activeCascade l \<and>
    l_delegationUnderflow (fold rebuild_account xs l) = l_delegationUnderflow l \<and>
    (mwf (l_assetBalances l) \<longrightarrow> mwf (l_assetBalances (fold rebuild_account xs l)))"
    by (induction xs arbitrary: l) (auto simp: rebuild_account_def split: option.splits)
  then show "l_store (fold rebuild_account xs l) = l_store l" "l_delegation (fold rebuild_account xs l) = l_delegation l"
    "l_weights (fold rebuild_account xs l) = l_weights l" "l_activeCascade (fold rebuild_account xs l) = l_activeCascade l"
    "l_delegationUnderflow (fold rebuild_account xs l) = l_delegationUnderflow l"
    "mwf (l_assetBalances l) \<Longrightarrow> mwf (l_assetBalances (fold rebuild_account xs l))" by blast+
  show "mget (l_assetBalances (fold rebuild_account xs l)) a =
     (if a \<in> set xs \<and> mhas (m_chains (l_store l)) a
      then Some (foldl (rebuild_balance1 (l_store l)) [] (chain_of l a)) else mget (l_assetBalances l) a)"
  proof (induction xs arbitrary: l)
    case (Cons x xs)
    let ?l1 = "rebuild_account x l"
    have l1: "l_store ?l1 = l_store l" "mget (l_assetBalances ?l1) a =
        (if a = x \<and> mhas (m_chains (l_store l)) a
         then Some (foldl (rebuild_balance1 (l_store l)) [] (chain_of l a)) else mget (l_assetBalances l) a)"
      by (auto simp: rebuild_account_def store_GetAccountChain_def chain_of_def mdef_def split: option.splits)
    have c: "chain_of ?l1 = chain_of l" by (simp add: chain_of_def l1 fun_eq_iff)
    show ?case using Cons.IH [of ?l1, unfolded l1 c] by auto
  qed simp
qed

lemma delegated_to_same_map:
  assumes "mwf d" "mwf d'" "\<And>a. mget d a = mget d' a"
  shows "delegated_to bal d rep = delegated_to bal d' rep"
proof -
  have "keys d = keys d'" using assms(3) by (auto simp: keys_iff)
  then show ?thesis using assms by (simp add: delegated_to_def msum_keys)
qed

section \<open>A restarted ledger agrees with the running one\<close>

lemma rebuild_core:
  assumes "ledger_ok l"
  shows "core (rebuild (empty_ledger (l_store l) T)) = core (rebuildAssetBalances (rebuildDelegation (empty_ledger (l_store l) T)))"
proof -
  let ?l2 = "rebuildAssetBalances (rebuildDelegation (empty_ledger (l_store l) T))"
  let ?l3 = "initBlockCount (rebuildReputation (rebuildAccountKeys (rebuildKeysets ?l2)))"
  have c: "core ?l3 = core ?l2"
    by (simp add: initBlockCount_core rebuildReputation_core rebuildAccountKeys_core rebuildKeysets_core)
  have d: "mwf (m_delegations (l_store l))" "mget (m_delegations (l_store l)) a \<noteq> Some []" for a
    using assms rep_of_not_empty by (simp_all add: ledger_ok_def maps_wf_def delegation_ok_def)
  have st: "l_store ?l2 = l_store l"
    by (simp add: rebuildAssetBalances_def fold_rebuild_account rebuildDelegation_def empty_ledger_def
        fold_rebuild_delegation(1) [OF d])
  have "chain_of ?l3 a \<noteq> []" if "a \<in> set (frontier_accounts ?l3)" for a
  proof -
    have "mhas (m_frontiers (l_store l)) a"
      using that core_eqD(5) [OF c] by (auto simp: Frontiers_def st map_of_eq_None_iff)
    then have "mhas (m_chains (l_store l)) a" using assms by (simp add: ledger_ok_def chains_ok_def)
    then show ?thesis
      using chain_of_None [OF ok_chains [OF assms], of a] unfolding core_eqD(15) [OF c] by (auto simp: chain_of_def st)
  qed
  then have "pruneChainlessAccounts ?l3 = ?l3" by (rule prune_id)
  then show ?thesis using c by (simp add: rebuild_def)
qed

lemma rebuild_facts:
  fixes T
  assumes ok: "ledger_ok l"
  defines "R \<equiv> rebuild (empty_ledger (l_store l) T)"
  shows "getAssetBalance R a s = assetBalanceOnChain (chain_of l a) s"
    "keys (l_assetBalances R) = keys (l_assetBalances l)" "balances_wf R"
    "mget (l_delegation R) a = mget (l_delegation l) a" "mwf (l_delegation R)"
    "mdef 0 (l_weights R) rep = mdef 0 (l_weights l) rep" "l_delegationUnderflow R = 0" "l_activeCascade R = None"
    "m_blocks (l_store R) = m_blocks (l_store l)" "m_chains (l_store R) = m_chains (l_store l)"
    "m_pending (l_store R) = m_pending (l_store l)" "m_pendingByDest (l_store R) = m_pendingByDest (l_store l)"
    "m_frontiers (l_store R) = m_frontiers (l_store l)" "m_leases (l_store R) = m_leases (l_store l)"
    "m_delegations (l_store R) = m_delegations (l_store l)" "m_finalHeight (l_store R) = m_finalHeight (l_store l)"
proof -
  let ?l1 = "rebuildDelegation (empty_ledger (l_store l) T)"
  let ?l2 = "rebuildAssetBalances ?l1"
  note c = core_eqD [OF rebuild_core [OF ok, of T], folded R_def]
  have d: "mwf (m_delegations (l_store l))" "mget (m_delegations (l_store l)) a \<noteq> Some []"
    and dm: "mget (m_delegations (l_store l)) a = mget (l_delegation l) a" for a
    using ok rep_of_not_empty by (simp_all add: ledger_ok_def maps_wf_def delegation_ok_def)
  note fd = fold_rebuild_delegation [OF d, of "empty_ledger (l_store l) T"]
  have l1: "l_store ?l1 = l_store l" "l_assetBalances ?l1 = []" "l_activeCascade ?l1 = None"
    "l_delegationUnderflow ?l1 = 0" "mwf (l_delegation ?l1)"
    using fd by (simp_all add: rebuildDelegation_def empty_ledger_def)
  have g1: "mget (l_delegation ?l1) a = mget (l_delegation l) a" for a
    using fd(6) [of a] by (simp add: rebuildDelegation_def empty_ledger_def dm split: option.splits)
  have ce: "chain_of (empty_ledger (l_store l) T) = chain_of l"
    by (simp add: chain_of_def empty_ledger_def fun_eq_iff)
  have bal: "xe_balance l x = big (assetBalanceOnChain (chain_of l x) ''XE'')" for x
    using ok by (simp add: xe_balance_def ledger_ok_def balances_ok_def IsValidAsset_def)
  have w1: "mdef 0 (l_weights ?l1) rep = mdef 0 (l_weights l) rep" for rep
  proof -
    have "mdef 0 (l_weights ?l1) rep = delegated_to (xe_balance l) (m_delegations (l_store l)) rep"
      using fd(7) [of rep, unfolded ce] by (simp add: rebuildDelegation_def empty_ledger_def bal cong: delegated_to_cong)
    also have "\<dots> = delegated_to (xe_balance l) (l_delegation l) rep"
      using ok by (intro delegated_to_same_map) (simp_all add: dm ledger_ok_def maps_wf_def)
    finally show ?thesis using ok by (simp add: ledger_ok_def delegation_ok_def)
  qed
  note fa = fold_rebuild_account [where xs = "frontier_accounts ?l1" and l = ?l1, folded rebuildAssetBalances_def, unfolded l1]
  have c1: "chain_of ?l1 = chain_of l" by (simp add: chain_of_def l1 fun_eq_iff)
  have fr: "x \<in> set (frontier_accounts ?l1) \<longleftrightarrow> mhas (m_chains (l_store l)) x" for x
  proof -
    have "x \<in> set (frontier_accounts ?l1) \<longleftrightarrow> mhas (m_frontiers (l_store l)) x"
      by (simp add: Frontiers_def l1 map_of_eq_None_iff)
    then show ?thesis using ok by (simp add: ledger_ok_def chains_ok_def)
  qed
  have b2: "mget (l_assetBalances ?l2) x = (if mhas (m_chains (l_store l)) x
      then Some (foldl (rebuild_balance1 (l_store l)) [] (chain_of l x)) else None)" for x
    using fa(6) [of x] fr [of x] by (simp add: c1)
  have st: "settle_stake (l_store l) b = 0" for b
    using ok settle_stake_0 by (simp add: ledger_ok_def)
  show "getAssetBalance R a s = assetBalanceOnChain (chain_of l a) s"
    unfolding c(14) using rebuild_balance(1) [OF st, of "chain_of l a" s] b2 [of a]
    by (auto simp: getAssetBalance_def mdef_def chain_of_def assetBalanceOnChain_def split: option.splits)
  show "keys (l_assetBalances R) = keys (l_assetBalances l)"
    using ok b2 unfolding c(11) by (auto simp: ledger_ok_def balances_ok_def keys_iff)
  have "mwf m" if "(x, m) \<in> set (l_assetBalances ?l2)" for x m
  proof -
    have "mwf (l_assetBalances ?l2)" using fa(7) by simp
    then have "mget (l_assetBalances ?l2) x = Some m" using that by simp
    then show ?thesis using b2 [of x] rebuild_balance(2) [OF st] by (auto split: if_splits)
  qed
  then show "balances_wf R" using fa(7) unfolding c(16) unfolding balances_wf_def by (auto simp: list_all_iff)
  show "mget (l_delegation R) a = mget (l_delegation l) a" "mwf (l_delegation R)"
    "mdef 0 (l_weights R) rep = mdef 0 (l_weights l) rep" "l_delegationUnderflow R = 0" "l_activeCascade R = None"
    "m_blocks (l_store R) = m_blocks (l_store l)" "m_chains (l_store R) = m_chains (l_store l)"
    "m_pending (l_store R) = m_pending (l_store l)" "m_pendingByDest (l_store R) = m_pendingByDest (l_store l)"
    "m_frontiers (l_store R) = m_frontiers (l_store l)" "m_leases (l_store R) = m_leases (l_store l)"
    "m_delegations (l_store R) = m_delegations (l_store l)" "m_finalHeight (l_store R) = m_finalHeight (l_store l)"
    by (simp_all add: c fa g1 w1 l1)
qed

lemma rebuild_ok:
  assumes ok: "ledger_ok l"
  shows "ledger_ok (rebuild (empty_ledger (l_store l) T))"
proof -
  let ?R = "rebuild (empty_ledger (l_store l) T)"
  note f = rebuild_facts [OF ok, of T]
  have c: "chain_of ?R = chain_of l" by (simp add: chain_of_def f fun_eq_iff)
  have bal: "getAssetBalance ?R a s = getAssetBalance l a s" if "IsValidAsset s" for a s
    using ok that f(1) [of a s] by (simp add: ledger_ok_def balances_ok_def)
  have xe: "xe_balance ?R = xe_balance l"
    using bal by (simp add: xe_balance_def IsValidAsset_def fun_eq_iff)
  have d: "delegated_to (xe_balance ?R) (l_delegation ?R) rep = delegated_to (xe_balance l) (l_delegation l) rep" for rep
    unfolding xe using ok f(4,5) by (intro delegated_to_same_map) (simp_all add: ledger_ok_def maps_wf_def)
  have "blocks_ok ?R = blocks_ok l" "chains_ok ?R = chains_ok l" "pending_ok ?R = pending_ok l"
    "leases_ok ?R = leases_ok l" "released_once ?R = released_once l"
    "pending_index_ok (l_store ?R) = pending_index_ok (l_store l)"
    by (simp_all only: blocks_ok_def chains_ok_def chain_ok_def pending_ok_def leases_ok_def released_once_def
        on_chain_def c pending_index_ok_def f(9-16))
  moreover have "maps_wf ?R"
    using ok f(3,5) calculation(6) by (simp add: ledger_ok_def maps_wf_def f(9-16))
  moreover have "balances_ok ?R"
    using ok f(1,2,10) unfolding ledger_ok_def balances_ok_def c by (simp add: f)
  moreover have "delegation_ok ?R"
    using ok d f unfolding ledger_ok_def delegation_ok_def c by simp
  ultimately show ?thesis using ok by (simp add: ledger_ok_def f(8))
qed

lemma NewLedger_on_store:
  assumes "\<not> store_IsEmpty m" "NewLedger E T m = Inr R"
  shows "\<exists>g gc T'. parseGenesisBlock E = Inr g \<and> mget (m_chains m) (blk_Account g) = Some gc \<and> gc \<noteq> [] \<and>
    T' = ApplyGenesisLeaseTiming (Some (hd gc)) \<and> R = rebuild (empty_ledger m T')"
  using assms
  by (auto simp: NewLedger_def new_on_store_def LoadGenesisBlock_def panic_of_def empty_ledger_def
      store_GetAccountChain_def split: sum.splits prod.splits option.splits if_splits)

section \<open>A new ledger\<close>

lemma empty_ledger_ok: "ledger_ok (empty_ledger NewMemStore T)"
  by (simp add: empty_ledger_def NewMemStore_def ledger_ok_def maps_wf_def balances_wf_def pending_index_ok_def
      blocks_ok_def chains_ok_def balances_ok_def getAssetBalance_def chain_of_def assetBalanceOnChain_def
      delegation_ok_def rep_of_def last_rep_def delegated_to_def pending_ok_def leases_ok_def released_once_def
      on_chain_def keys_def)

lemma parseGenesisBlock_sound:
  assumes "parseGenesisBlock E = Inr g"
  shows "ValidateGenesisBlock E g = Inr ()"
  using assms by (auto simp: parseGenesisBlock_def wrap_def split: sum.splits)

lemma genesis_valid:
  assumes "ValidateGenesisBlock E g = Inr ()"
  shows "blk_Type g = BlockGenesis" "blk_Previous g = ''0''" "blk_Timestamp g = 0" "blk_Asset g = ''XE''"
    "blk_Balance g = GenesisSupply" "blk_Account g \<noteq> []" "blk_Representative g \<noteq> []"
    "validateGenesisLeaseTiming g = Inr ()" "VerifyBlock (E\<lparr>networkID := []\<rparr>) g = Inr ()"
  using assms by (auto simp: ValidateGenesisBlock_def validateGenesisRepresentative_def wrap_def
      split: if_splits sum.splits)

lemma VerifyBlock_hash:
  assumes "VerifyBlock E b = Inr ()" "\<And>x. length (sha256 E x) = 32"
  shows "length (blk_Hash b) = 64"
  using assms by (auto simp: VerifyBlock_def HashBlock_def wrap_def length_hex split: sum.splits if_splits)

lemma new_on_empty_commit:
  assumes ok: "ledger_ok l" and em: "m_blocks (l_store l) = []" and g: "ValidateGenesisBlock E g = Inr ()"
    and sha: "\<And>x. length (sha256 E x) = 32"
  shows "commit_ok l g (base_commit l g) (getAssetBalance l (blk_Account g) ''XE'')"
proof -
  note n = ok_cascade [OF ok]
  note v = genesis_valid [OF g]
  have "length (blk_Hash g) = 64" using VerifyBlock_hash [OF v(9)] sha by simp
  then have h: "blk_Hash g \<noteq> [] \<and> blk_Hash g \<noteq> ''0''" by auto
  have x: "extends_chain l g"
    using v empty_chains [OF ok em] by (simp add: extends_chain_def opens_def)
  have "effect l g (base_commit l g)"
    using v em by (intro effect.genesis) (simp_all add: base_parts [OF n])
  then show ?thesis
    using extends_base [OF n x] h v em by (simp add: commit_ok_def fresh_def IsValidAsset_def)
qed

lemma ledger_ok_SetFinalHeight:
  "ledger_ok (l\<lparr>l_store := store_SetFinalHeight a h (l_store l)\<rparr>) = ledger_ok l"
  unfolding store_SetFinalHeight_def ledger_ok_def maps_wf_def blocks_ok_def chains_ok_def chain_ok_def balances_ok_def
    delegation_ok_def pending_ok_def leases_ok_def released_once_def on_chain_def chain_of_def pending_index_ok_def
    xe_balance_def by simp

lemma NewLedger_ok:
  assumes ok: "ledger_ok (empty_ledger m T)" and em: "store_IsEmpty m" and sha: "\<And>x. length (sha256 E x) = 32"
    and R: "NewLedger E T m = Inr R"
  shows "ledger_ok R"
proof -
  let ?l = "empty_ledger m T"
  from em R obtain g where g: "parseGenesisBlock E = Inr g"
    by (auto simp: NewLedger_def new_on_empty_def LoadGenesisBlock_def panic_of_def split: sum.splits)
  let ?l1 = "?l\<lparr>l_timing := ApplyGenesisLeaseTiming (Some g)\<rparr>"
  have c: "core ?l1 = core ?l" by (simp add: core_def)
  have ok1: "ledger_ok ?l1" using ledger_ok_core [OF c] ok by simp
  have e1: "m_blocks (l_store ?l1) = []" using em by (simp add: store_IsEmpty_def empty_ledger_def)
  note cm = new_on_empty_commit [OF ok1 e1 parseGenesisBlock_sound [OF g] sha]
  from em R g obtain l2 where w: "commitBlockWrite (base_commit ?l1 g) (getAssetBalance ?l1 (blk_Account g) ''XE'') ?l1 = (Inr (), l2)"
    and Rl: "R = l2\<lparr>l_store := store_SetFinalHeight (blk_Account g) 1 (l_store l2)\<rparr>"
    by (auto simp: NewLedger_def new_on_empty_def LoadGenesisBlock_def panic_of_def prepare_eq [OF ok_cascade [OF ok1]] Let_def
        split: sum.splits prod.splits if_splits)
  have "ledger_ok l2" by (rule write_ledger_ok [OF ok1 w cm])
  then show ?thesis unfolding Rl ledger_ok_SetFinalHeight .
qed

end
