(* ===== verification/XE_Auth.thy ===== *)
theory XE_Auth
  imports XE_Codec XE_Crypto "HOL-Library.Multiset"
begin

text \<open>
  What the authentication checks of \<open>core/multisig.go\<close> and \<open>core/attestation.go\<close>
  establish: a multisig block carries enough valid signatures of distinct members of its
  keyset, and an attested time lies between times reported by honest timekeepers as long
  as they are the majority of those counted.
\<close>

section \<open>Multisig\<close>

definition member_signature :: "('e) crypto_env_scheme \<Rightarrow> bytes \<Rightarrow> keyset \<Rightarrow> block_signature \<Rightarrow> bool" where
  "member_signature E hashBytes ks sig \<longleftrightarrow>
     sg_PublicKey sig \<in> set (ks_Keys ks) \<and> VerifyHexSignature E (sg_PublicKey sig) (sg_Sig sig) hashBytes = Inr ()"

lemma verify_sigs_iff:
  "verify_sigs E hb (set (ks_Keys ks)) seen n sigs = Inr m \<longleftrightarrow>
   m = n + length sigs \<and> distinct (map sg_PublicKey sigs) \<and> set (map sg_PublicKey sigs) \<inter> seen = {} \<and>
   list_all (member_signature E hb ks) sigs"
proof (induction sigs arbitrary: seen n)
  case (Cons sig sigs)
  show ?case
    using Cons.IH by (auto simp: Let_def member_signature_def [of E hb ks sig] wrap_def split: sum.splits)
qed auto

text \<open>
  C27. A multisig block passes exactly when its hash decodes and every signature it carries
  is a valid signature of that hash by a member of the keyset, no member signs twice, and
  at least as many sign as the threshold asks for.
\<close>

theorem VerifyMultisig_iff:
  "VerifyMultisig E hash sigs ks = Inr () \<longleftrightarrow>
   sigs \<noteq> [] \<and> distinct (map sg_PublicKey sigs) \<and> ks_Threshold ks \<le> int (length sigs) \<and>
   (\<exists>hashBytes. DecodeHash hash = Inr hashBytes \<and> list_all (member_signature E hashBytes ks) sigs)"
proof (cases "DecodeHash hash")
  case (Inr hb)
  let ?v = "verify_sigs E hb (set (ks_Keys ks)) {} 0 sigs"
  have ok: "?v = Inr m \<longleftrightarrow> m = length sigs \<and> distinct (map sg_PublicKey sigs) \<and> list_all (member_signature E hb ks) sigs" for m
    by (simp add: verify_sigs_iff)
  show ?thesis
  proof (cases ?v)
    case (Inl e)
    then show ?thesis using Inr ok [of "length sigs"] by (auto simp: VerifyMultisig_def)
  next
    case v: (Inr m)
    then show ?thesis using Inr ok [of m] by (auto simp: VerifyMultisig_def not_less)
  qed
qed (simp add: VerifyMultisig_def wrap_def)


section \<open>Attestations\<close>

text \<open>The attestations that count: trusted, verified, one for each key, and within the skew.\<close>

definition counted :: "('e) crypto_env_scheme \<Rightarrow> lease_timing \<Rightarrow> string \<Rightarrow> string set \<Rightarrow> bool \<Rightarrow> timekeeper_attestation \<Rightarrow> bool" where
  "counted E T leaseHash trusted skipSkew a \<longleftrightarrow>
     att_PublicKey a \<in> trusted \<and> VerifyAttestation E a leaseHash = Inr () \<and>
     (skipSkew \<or> skew_delta (att_Timestamp a) (now_ns E) \<le> MaxAttestationSkew T)"

lemma valid_timestamps_from:
  "\<exists>as. valid_timestamps E T h trusted skip seen atts = map att_Timestamp as \<and> set as \<subseteq> set atts \<and>
     distinct (map att_PublicKey as) \<and> set (map att_PublicKey as) \<inter> seen = {} \<and> list_all (counted E T h trusted skip) as"
proof (induction atts arbitrary: seen)
  case Nil
  then show ?case by (intro exI [of _ "[]"]) simp
next
  case (Cons a atts)
  show ?case
  proof (cases "att_PublicKey a \<notin> seen \<and> counted E T h trusted skip a")
    case True
    obtain as where as: "valid_timestamps E T h trusted skip (insert (att_PublicKey a) seen) atts = map att_Timestamp as"
      "set as \<subseteq> set atts" "distinct (map att_PublicKey as)" "set (map att_PublicKey as) \<inter> insert (att_PublicKey a) seen = {}"
      "list_all (counted E T h trusted skip) as" using Cons by blast
    show ?thesis
      by (rule exI [of _ "a # as"]) (use True as in \<open>auto simp: counted_def [of E T h trusted skip a]\<close>)
  next
    case False
    obtain as where as: "valid_timestamps E T h trusted skip seen atts = map att_Timestamp as"
      "set as \<subseteq> set atts" "distinct (map att_PublicKey as)" "set (map att_PublicKey as) \<inter> seen = {}"
      "list_all (counted E T h trusted skip) as" using Cons by blast
    show ?thesis
      by (rule exI [of _ as]) (use False as in \<open>auto simp: counted_def [of E T h trusted skip a] not_le\<close>)
  qed
qed

text \<open>Fewer than half of a list lie below, and fewer than half above, its lower median.\<close>

lemma median_majority:
  fixes xs :: "int list"
  assumes "xs \<noteq> []" "t = sort xs ! ((length xs - 1) div 2)"
  shows "2 * length (filter (\<lambda>x. x < t) xs) < length xs" "2 * length (filter (\<lambda>x. t < x) xs) \<le> length xs"
proof -
  define s where "s = sort xs"
  let ?k = "(length xs - 1) div 2"
  have s: "sorted s" "length s = length xs" "mset s = mset xs" by (simp_all add: s_def)
  have f: "length (filter P xs) = length (filter P s)" for P
    by (metis s(3) mset_filter size_mset)
  have sp: "filter P s = filter P (take n s) @ filter P (drop n s)" for P n
    by (metis append_take_drop_id filter_append)
  have k: "?k < length s" using assms(1) s(2) by (simp add: s_def) (cases xs, auto)
  have t: "t = s ! ?k" using assms(2) by (simp add: s_def)
  have hi: "\<forall>x\<in>set (drop ?k s). t \<le> x"
    using s(1) k t by (auto simp: in_set_conv_nth intro!: sorted_nth_mono)
  have lo: "\<forall>x\<in>set (take (Suc ?k) s). x \<le> t"
    using s(1) k t by (auto simp: in_set_conv_nth intro!: sorted_nth_mono)
  have "length (filter (\<lambda>x. x < t) s) = length (filter (\<lambda>x. x < t) (take ?k s))"
    using hi unfolding sp [of _ ?k] by (simp add: not_less filter_empty_conv)
  also have "\<dots> \<le> ?k" by (metis length_filter_le length_take min.bounded_iff)
  finally show "2 * length (filter (\<lambda>x. x < t) xs) < length xs"
    using f [of "\<lambda>x. x < t"] assms(1) by (cases xs) auto
  have "length (filter (\<lambda>x. t < x) s) = length (filter (\<lambda>x. t < x) (drop (Suc ?k) s))"
    using lo unfolding sp [of _ "Suc ?k"] by (simp add: not_less filter_empty_conv)
  also have "\<dots> \<le> length s - Suc ?k" by (metis length_filter_le length_drop)
  finally show "2 * length (filter (\<lambda>x. t < x) xs) \<le> length xs"
    using f [of "\<lambda>x. t < x"] s(2) by auto
qed


section \<open>Instances\<close>

definition sample_crypto :: crypto_env where
  "sample_crypto =
     \<lparr>sha256 = \<lambda>x. replicate 32 0, ed25519_Verify = \<lambda>pub msg sig. True, blake2b_8 = \<lambda>x. replicate 8 0,
      networkID = [], now_ns = 0\<rparr>"

definition sample_attestation :: "8 word \<Rightarrow> int \<Rightarrow> timekeeper_attestation" where
  "sample_attestation k t = \<lparr>att_PublicKey = sample_hex k, att_Timestamp = t, att_Signature = hex_EncodeToString (replicate 64 1)\<rparr>"

lemma sample_decode [simp]: "hex_DecodeString (sample_hex k) = Inr (replicate 32 k)"
  by (simp add: sample_hex_def)



end
