(* ===== verification/XE_Rollback.thy ===== *)
theory XE_Rollback
  imports XE_Admission
begin

text \<open>
  Conflict promotion: replacing a block that lost a vote by the winner
  (\<open>core/rollback.go\<close>, \<open>swapBlockLocked\<close> in \<open>core/ledger.go\<close>). The loser, everything
  above it on its chain, and, through the sends among those, every receive that consumed
  them with everything above it, are planned for undo. The undos are collected in an
  overlay, the winner is validated against the overlay by its ordinary handler, and the
  store applies undos and winner in one step.

  The planning functions call each other through the chains of the ledger. Their recursion
  is bounded by a fuel argument; \<open>plan_fuel\<close> is enough, since each call plans one more
  block (\<open>planning_total\<close> in \<open>XE_Planning\<close>). \<open>None\<close> is the result of running out of fuel.
\<close>

section \<open>Planning\<close>

record cascade_step =
  cs_account :: string
  cs_b :: block

type_synonym cascade_plan = "(string set \<times> cascade_step list) result option"

definition unwindable :: "block_type \<Rightarrow> bool" where
  "unwindable t \<longleftrightarrow> t \<in> {BlockSend, BlockReceive, BlockBurn, BlockMint}"

definition cascade_unsupported :: string where
  "cascade_unsupported = ''cascade: unsupported block type %q (%s) on %s - reversing its lease/keyset/reputation side-effects is not yet implemented''"

text \<open>
  The blocks of \<open>bs\<close> are visited in order, newest first. The last equation of the loop
  is the body: skip what is planned, refuse what cannot be unwound, plan the consumers of
  a send, then plan the block itself.
\<close>

function planRollbackOfSend :: "nat \<Rightarrow> ledger \<Rightarrow> string \<Rightarrow> string set \<Rightarrow> cascade_step list \<Rightarrow> cascade_plan"
  and planRollbackFrom :: "nat \<Rightarrow> ledger \<Rightarrow> string \<Rightarrow> string \<Rightarrow> string set \<Rightarrow> cascade_step list \<Rightarrow> cascade_plan"
  and plan_blocks :: "nat \<Rightarrow> string \<Rightarrow> ledger \<Rightarrow> string \<Rightarrow> block list \<Rightarrow> string set \<Rightarrow> cascade_step list \<Rightarrow> cascade_plan"
where
  "planRollbackOfSend fuel l sendHash planned plan =
     (if store_GetPendingSend (l_store l) sendHash \<noteq> None then Some (Inr (planned, plan))
      else case store_GetBlock (l_store l) sendHash of
        None \<Rightarrow> Some (Inr (planned, plan))
      | Some send \<Rightarrow>
          if blk_Destination send = [] then Some (Inr (planned, plan))
          else planRollbackFrom fuel l (blk_Destination send) sendHash planned plan)"
| "planRollbackFrom fuel l account consumedSend planned plan =
     (case store_GetAccountChain (l_store l) account of
        None \<Rightarrow> Some (Inr (planned, plan))
      | Some chain \<Rightarrow>
          (case first_index (\<lambda>b. blk_Type b = BlockReceive \<and> blk_Source b = consumedSend) chain of
             None \<Rightarrow> Some (Inr (planned, plan))
           | Some recvIdx \<Rightarrow>
               if of_nat (recvIdx + 1) \<le> FinalHeight l account
               then Some (Err ''cascade: refusing to roll back finalized block at height %d (final height %d) on %s'')
               else plan_blocks fuel cascade_unsupported l account (rev (drop recvIdx chain)) planned plan))"
| "plan_blocks fuel unsupported l account [] planned plan = Some (Inr (planned, plan))"
| "plan_blocks fuel unsupported l account (b # bs) planned plan =
     (if blk_Hash b \<in> planned then plan_blocks fuel unsupported l account bs planned plan
      else if \<not> unwindable (blk_Type b) then Some (Err unsupported)
      else
      case (if blk_Type b = BlockSend \<and> store_GetPendingSend (l_store l) (blk_Hash b) = None
            then case fuel of
                   0 \<Rightarrow> None
                 | Suc f \<Rightarrow> planRollbackOfSend f l (blk_Hash b) (insert (blk_Hash b) planned) plan
            else Some (Inr (insert (blk_Hash b) planned, plan))) of
        None \<Rightarrow> None
      | Some (Inl e) \<Rightarrow> Some (Inl e)
      | Some (Inr (planned1, plan1)) \<Rightarrow>
          plan_blocks fuel unsupported l account bs planned1 (plan1 @ [\<lparr>cs_account = account, cs_b = b\<rparr>]))"
  by pat_completeness auto
termination
  by (relation "measures [\<lambda>x. case x of Inl (fuel, _) \<Rightarrow> fuel | Inr (Inl (fuel, _)) \<Rightarrow> fuel | Inr (Inr (fuel, _)) \<Rightarrow> fuel,
                          \<lambda>x. case x of Inl _ \<Rightarrow> 2 | Inr (Inl _) \<Rightarrow> 1 | Inr (Inr _) \<Rightarrow> 0,
                          \<lambda>x. case x of Inr (Inr (_, _, _, _, bs, _)) \<Rightarrow> length bs | _ \<Rightarrow> 0]") auto

definition planCascade :: "nat \<Rightarrow> ledger \<Rightarrow> string \<Rightarrow> string set \<Rightarrow> cascade_plan" where
  "planCascade fuel l sendHash planned =
     (if store_GetPendingSend (l_store l) sendHash \<noteq> None then Some (Inr (planned, []))
      else planRollbackOfSend fuel l sendHash planned [])"

definition chain_hashes :: "ledger \<Rightarrow> string list" where
  "chain_hashes l = concat (map (\<lambda>(a, c). map blk_Hash c) (m_chains (l_store l)))"

definition plan_fuel :: "ledger \<Rightarrow> nat" where
  "plan_fuel l = length (chain_hashes l)"

section \<open>Building and running the cascade\<close>

fun build_cascade :: "ledger \<Rightarrow> cascade_step list \<Rightarrow> (string, account_chain) gomap \<Rightarrow> cascade_build \<Rightarrow> cascade_build result" where
  "build_cascade l [] snapshots cascade = Inr cascade"
| "build_cascade l (st # sts) snapshots cascade =
     (case (case mget snapshots (cs_account st) of
              Some snap \<Rightarrow> Some snap
            | None \<Rightarrow> store_GetAccountChain (l_store l) (cs_account st)) of
        None \<Rightarrow> Err ''SwapBlock: account %s vanished under the cascade''
      | Some snap \<Rightarrow>
          (case buildBlockUndo l (cs_account st) (cs_b st) (Some snap) of
             Inl e \<Rightarrow> wrap ''SwapBlock: build undo for %s: '' e
           | Inr (undo, memApply) \<Rightarrow>
               build_cascade l sts (mput (cs_account st) (u_Chain undo) snapshots) (addUndo undo memApply cascade)))"

definition swap_plan :: "nat \<Rightarrow> ledger \<Rightarrow> string \<Rightarrow> account_chain \<Rightarrow> nat \<Rightarrow> cascade_step list result option" where
  "swap_plan fuel l account chain idx =
     (let oldBlock = chain ! idx
      in case plan_blocks fuel ''cannot unwind descendant %q (%s) of the replaced block - reversing its side-effects is not yet implemented''
                l account (rev (drop (idx + 1) chain)) {} [] of
           None \<Rightarrow> None
         | Some (Inl e) \<Rightarrow> Some (wrap ''SwapBlock: '' e)
         | Some (Inr (planned, plan)) \<Rightarrow>
             (case (if blk_Type oldBlock = BlockSend then planCascade fuel l (blk_Hash oldBlock) planned
                    else Some (Inr (planned, []))) of
                None \<Rightarrow> None
              | Some (Inl e) \<Rightarrow> Some (wrap ''SwapBlock: '' e)
              | Some (Inr (_, oldPlan)) \<Rightarrow>
                  Some (Inr (plan @ oldPlan @ [\<lparr>cs_account = account, cs_b = oldBlock\<rparr>]))))"

definition run_cascade :: "env \<Rightarrow> block \<Rightarrow> cascade_build \<Rightarrow> ledger \<Rightarrow> unit result \<times> ledger" where
  "run_cascade E newBlock cascade l =
     (case activateCascade cascade l of
        Inl e \<Rightarrow> (wrap ''SwapBlock: '' e, l)
      | Inr l1 \<Rightarrow>
          (case dispatchValidateAndAdd E newBlock True l1 of
             (Inl e, l2) \<Rightarrow>
               (wrap ''SwapBlock: winner failed full validation %s, loser kept: '' e, deactivateCascade l2)
           | (Inr _, l2) \<Rightarrow> (Inr (), deactivateCascade l2)))"

definition swapBlockLocked :: "env \<Rightarrow> string \<Rightarrow> string \<Rightarrow> string \<Rightarrow> block \<Rightarrow> ledger \<Rightarrow> unit result \<times> ledger" where
  "swapBlockLocked E account oldHash newHash newBlock l =
     (case store_GetAccountChain (l_store l) account of
        None \<Rightarrow> (Err ''SwapBlock: account %s not found'', l)
      | Some chain \<Rightarrow>
      (case first_index (\<lambda>b. blk_Hash b = oldHash) chain of
        None \<Rightarrow> (Err ''SwapBlock: block %s not found in chain'', l)
      | Some idx \<Rightarrow>
      if of_nat (idx + 1) \<le> store_GetFinalHeight (l_store l) account
      then (Err ''SwapBlock: refusing to replace finalized block %s at height %d (final height %d)'', l)
      else case swap_plan (plan_fuel l) l account chain idx of
        None \<Rightarrow> (Panic ''planning does not terminate'', l)
      | Some (Inl e) \<Rightarrow> (Inl e, l)
      | Some (Inr plan) \<Rightarrow>
          (case build_cascade l plan [] (newCascadeBuild newHash) of
             Inl e \<Rightarrow> (Inl e, l)
           | Inr cascade \<Rightarrow> run_cascade E newBlock cascade l)))"

definition SwapBlock :: "env \<Rightarrow> string \<Rightarrow> string \<Rightarrow> string \<Rightarrow> block \<Rightarrow> ledger \<Rightarrow> unit result \<times> ledger" where
  "SwapBlock E account oldHash newHash newBlock l =
     (case VerifyBlock E newBlock of
        Inl e \<Rightarrow> (wrap ''SwapBlock: verify replacement: '' e, l)
      | Inr _ \<Rightarrow> swapBlockLocked E account oldHash newHash newBlock l)"

end
