(* ===== verification/XE_Planning.thy ===== *)
theory XE_Planning
  imports XE_Rollback
begin

text \<open>
  The planning recursion of \<open>core/rollback.go\<close> ends: every nested call plans one more block
  of the ledger, so the number of blocks on the chains is enough fuel. What is planned only
  grows, and every step of a plan undoes a block above the final height.
\<close>

section \<open>Termination\<close>

lemma chain_hashes_mem:
  "store_GetAccountChain (l_store l) a = Some c \<Longrightarrow> b \<in> set c \<Longrightarrow> blk_Hash b \<in> set (chain_hashes l)"
  by (force simp: store_GetAccountChain_def chain_hashes_def dest: map_of_SomeD)

definition unplanned :: "ledger \<Rightarrow> string set \<Rightarrow> nat" where
  "unplanned l planned = card (set (chain_hashes l) - planned)"

lemma unplanned_insert:
  "h \<in> set (chain_hashes l) \<Longrightarrow> h \<notin> planned \<Longrightarrow> unplanned l planned = Suc (unplanned l (insert h planned))"
  unfolding unplanned_def by (metis DiffI Diff_insert List.finite_set card_Suc_Diff1 finite_Diff)

lemma unplanned_mono: "planned \<subseteq> planned' \<Longrightarrow> unplanned l planned' \<le> unplanned l planned"
  unfolding unplanned_def by (intro card_mono) auto

definition planned_more :: "string set \<Rightarrow> cascade_plan \<Rightarrow> bool" where
  "planned_more planned r \<longleftrightarrow> (\<exists>e. r = Some (Inl e)) \<or> (\<exists>planned' plan'. r = Some (Inr (planned', plan')) \<and> planned \<subseteq> planned')"

lemma planned_more_simps [simp]:
  "planned_more planned (Some (Inl e))" "planned_more planned (Some (Inr (planned', plan'))) \<longleftrightarrow> planned \<subseteq> planned'"
  "\<not> planned_more planned None"
  by (simp_all add: planned_more_def)

lemma planning_total:
  shows "unplanned l planned \<le> fuel \<Longrightarrow> planned_more planned (planRollbackOfSend fuel l sendHash planned plan)"
    and "unplanned l planned \<le> fuel \<Longrightarrow> planned_more planned (planRollbackFrom fuel l account consumed planned plan)"
    and "unplanned l planned \<le> fuel \<Longrightarrow> (\<And>b. b \<in> set bs \<Longrightarrow> blk_Hash b \<in> set (chain_hashes l)) \<Longrightarrow>
      planned_more planned (plan_blocks fuel unsupported l account bs planned plan)"
proof (induction fuel l sendHash planned plan and fuel l account consumed planned plan
    and fuel unsupported l account bs planned plan rule: planRollbackOfSend_planRollbackFrom_plan_blocks.induct)
  case (1 fuel l sendHash planned plan)
  then show ?case by (auto split: option.splits)
next
  case (2 fuel l account consumedSend planned plan)
  show ?case
  proof (cases "store_GetAccountChain (l_store l) account")
    case (Some chain)
    have m: "blk_Hash b \<in> set (chain_hashes l)" if "b \<in> set (rev (drop i chain))" for b i
      using that chain_hashes_mem [OF Some] by (auto dest: in_set_dropD)
    show ?thesis using Some "2.IH" [OF Some _ _ "2.prems" m] by (auto split: option.splits)
  qed simp
next
  case (3 fuel unsupported l account planned plan)
  then show ?case by simp
next
  case (4 fuel unsupported l account b bs planned plan)
  show ?case
  proof (cases "blk_Hash b \<in> planned \<or> \<not> unwindable (blk_Type b)")
    case True
    then show ?thesis using 4 by auto
  next
    case False
    let ?planned = "insert (blk_Hash b) planned"
    let ?inner = "if blk_Type b = BlockSend \<and> store_GetPendingSend (l_store l) (blk_Hash b) = None
            then case fuel of 0 \<Rightarrow> None | Suc f \<Rightarrow> planRollbackOfSend f l (blk_Hash b) ?planned plan
            else Some (Inr (?planned, plan))"
    have u: "unplanned l planned = Suc (unplanned l ?planned)"
      using "4.prems"(2) [of b] False by (intro unplanned_insert) auto
    then obtain f where f: "fuel = Suc f" "unplanned l ?planned \<le> f"
      using "4.prems"(1) by (cases fuel) auto
    have i: "planned_more ?planned ?inner"
      using "4.IH"(2) [OF _ _ _ f(1)] False f by auto
    have rest: "planned_more planned1 (plan_blocks fuel unsupported l account bs planned1 (plan1 @ [\<lparr>cs_account = account, cs_b = b\<rparr>]))"
      if "?inner = Some (Inr (planned1, plan1))" "?planned \<subseteq> planned1" for planned1 plan1
    proof -
      have "unplanned l planned1 \<le> fuel" using unplanned_mono [OF that(2), of l] f by simp
      then show ?thesis using "4.IH"(3) [OF _ _ that(1) refl refl] "4.prems"(2) False by simp
    qed
    consider e where "?inner = Some (Inl e)" | planned1 plan1 where "?inner = Some (Inr (planned1, plan1))" "?planned \<subseteq> planned1"
      using i unfolding planned_more_def by blast
    then show ?thesis
    proof cases
      case 1
      then show ?thesis using False by simp
    next
      case (2 planned1 plan1)
      show ?thesis
        using rest [OF 2] 2 False by (auto simp: planned_more_def)
    qed
  qed
qed

lemma unplanned_fuel: "unplanned l planned \<le> plan_fuel l"
  unfolding unplanned_def plan_fuel_def
  by (rule order_trans [OF card_mono [of "set (chain_hashes l)"] card_length]) auto

text \<open>
  C24. Planning a promotion always returns: on any ledger, for any block of a stored chain,
  the fuel \<open>plan_fuel\<close> is enough, so the recursion through chains and sends cannot run
  forever.
\<close>

theorem swap_plan_terminates:
  assumes "store_GetAccountChain (l_store l) account = Some chain"
  shows "\<exists>r. swap_plan (plan_fuel l) l account chain idx = Some r"
proof -
  have m: "blk_Hash b \<in> set (chain_hashes l)" if "b \<in> set (rev (drop (idx + 1) chain))" for b
    using that chain_hashes_mem [OF assms] by (auto dest: in_set_dropD)
  have p: "planned_more {} (plan_blocks (plan_fuel l) u l account (rev (drop (idx + 1) chain)) {} [])" for u
    by (rule planning_total(3) [OF unplanned_fuel m])
  have c: "planned_more planned (planCascade (plan_fuel l) l h planned)" for h planned
    using planning_total(1) [OF unplanned_fuel] by (simp add: planCascade_def del: planRollbackOfSend.simps)
  have d: "\<exists>x. planCascade (plan_fuel l) l h planned = Some x" for h planned
    using c [of planned h] by (auto simp: planned_more_def)
  let ?p = "plan_blocks (plan_fuel l) ''cannot unwind descendant %q (%s) of the replaced block - reversing its side-effects is not yet implemented''
    l account (rev (drop (idx + 1) chain)) {} []"
  consider e where "?p = Some (Inl e)" | planned plan where "?p = Some (Inr (planned, plan))"
    using p unfolding planned_more_def by blast
  then show ?thesis
  proof cases
    case 1
    then show ?thesis by (simp add: swap_plan_def)
  next
    case (2 planned plan)
    obtain x where "planCascade (plan_fuel l) l (blk_Hash (chain ! idx)) planned = Some x" using d by blast
    with 2 show ?thesis by (cases x) (auto simp: swap_plan_def Let_def)
  qed
qed

section \<open>Finalized blocks are not planned\<close>

definition above_final :: "ledger \<Rightarrow> cascade_step \<Rightarrow> bool" where
  "above_final l st \<longleftrightarrow>
     (\<exists>c i. store_GetAccountChain (l_store l) (cs_account st) = Some c \<and> i < length c \<and> c ! i = cs_b st \<and>
        FinalHeight l (cs_account st) < of_nat (i + 1))"

text \<open>A step the planning adds: above the final height, and of a type that can be undone.\<close>

definition undoable :: "ledger \<Rightarrow> cascade_step \<Rightarrow> bool" where
  "undoable l st \<longleftrightarrow> above_final l st \<and> unwindable (blk_Type (cs_b st))"

definition plan_above :: "ledger \<Rightarrow> cascade_plan \<Rightarrow> bool" where
  "plan_above l r \<longleftrightarrow> (\<forall>planned plan. r = Some (Inr (planned, plan)) \<longrightarrow> list_all (undoable l) plan)"

lemma plan_above_simps [simp]:
  "plan_above l None" "plan_above l (Some (Inl e))" "plan_above l (Some (Inr (planned, plan))) = list_all (undoable l) plan"
  by (simp_all add: plan_above_def)

definition short_chains :: "ledger \<Rightarrow> bool" where
  "short_chains l \<longleftrightarrow> (\<forall>a c. store_GetAccountChain (l_store l) a = Some c \<longrightarrow> length c < 2 ^ 64)"

lemma above_final_drop:
  assumes "short_chains l" "store_GetAccountChain (l_store l) a = Some c" "FinalHeight l a < of_nat (i + 1)" "b \<in> set (drop i c)"
  shows "above_final l \<lparr>cs_account = a, cs_b = b\<rparr>"
proof -
  obtain k where "k < length c - i" "b = c ! (i + k)" using assms(4) by (auto simp: in_set_conv_nth)
  then obtain j where j: "i \<le> j" "j < length c" "c ! j = b" by (intro that [of "i + k"]) auto
  have "length c < 2 ^ 64" using assms(1,2) by (simp add: short_chains_def)
  then have "(of_nat (i + 1) :: u64) \<le> of_nat (j + 1)" using j by (intro word_of_nat_less_eq_iff [THEN iffD2]) (simp add: take_bit_nat_eq_self)
  then show ?thesis using assms(2,3) j by (auto simp: above_final_def)
qed

lemma planning_above:
  shows "short_chains l \<Longrightarrow> list_all (undoable l) plan \<Longrightarrow> plan_above l (planRollbackOfSend fuel l sendHash planned plan)"
    and "short_chains l \<Longrightarrow> list_all (undoable l) plan \<Longrightarrow> plan_above l (planRollbackFrom fuel l account consumed planned plan)"
    and "short_chains l \<Longrightarrow> list_all (undoable l) plan \<Longrightarrow> (\<And>b. b \<in> set bs \<Longrightarrow> above_final l \<lparr>cs_account = account, cs_b = b\<rparr>) \<Longrightarrow>
      plan_above l (plan_blocks fuel unsupported l account bs planned plan)"
proof (induction fuel l sendHash planned plan and fuel l account consumed planned plan
    and fuel unsupported l account bs planned plan rule: planRollbackOfSend_planRollbackFrom_plan_blocks.induct)
  case (1 fuel l sendHash planned plan)
  then show ?case by (auto split: option.splits)
next
  case (2 fuel l account consumedSend planned plan)
  show ?case
  proof (cases "store_GetAccountChain (l_store l) account")
    case (Some chain)
    have m: "above_final l \<lparr>cs_account = account, cs_b = b\<rparr>"
      if "\<not> of_nat (i + 1) \<le> FinalHeight l account" "b \<in> set (rev (drop i chain))" for b i
      using that by (intro above_final_drop [OF "2.prems"(1) Some]) (auto simp: not_le)
    show ?thesis using Some "2.prems"(2) "2.IH" [OF Some _ _ "2.prems" m] by (auto split: option.splits)
  qed (simp add: "2.prems")
next
  case (3 fuel unsupported l account planned plan)
  then show ?case by simp
next
  case (4 fuel unsupported l account b bs planned plan)
  show ?case
  proof (cases "blk_Hash b \<in> planned \<or> \<not> unwindable (blk_Type b)")
    case True
    then show ?thesis using 4 by auto
  next
    case False
    let ?inner = "if blk_Type b = BlockSend \<and> store_GetPendingSend (l_store l) (blk_Hash b) = None
            then case fuel of 0 \<Rightarrow> None | Suc f \<Rightarrow> planRollbackOfSend f l (blk_Hash b) (insert (blk_Hash b) planned) plan
            else Some (Inr (insert (blk_Hash b) planned, plan))"
    have i: "plan_above l ?inner"
      using "4.IH"(2) False "4.prems"(1,2) by (cases fuel) (auto simp del: planRollbackOfSend.simps)
    have ub: "undoable l \<lparr>cs_account = account, cs_b = b\<rparr>" using False "4.prems"(3) by (simp add: undoable_def)
    have rest: "plan_above l (plan_blocks fuel unsupported l account bs planned1 (plan1 @ [\<lparr>cs_account = account, cs_b = b\<rparr>]))"
      if "?inner = Some (Inr (planned1, plan1))" for planned1 plan1
      using "4.IH"(3) [OF _ _ that refl refl] "4.prems" i ub False unfolding that by simp
    consider "?inner = None" | e where "?inner = Some (Inl e)" | planned1 plan1 where "?inner = Some (Inr (planned1, plan1))"
      by (metis old.sum.exhaust option.exhaust prod.exhaust)
    then show ?thesis
    proof cases
      case 1
      then show ?thesis using False by simp
    next
      case (2 e)
      then show ?thesis using False by simp
    next
      case (3 planned1 plan1)
      then show ?thesis using rest [OF 3] False by simp
    qed
  qed
qed

lemma swap_plan_steps:
  assumes "store_GetAccountChain (l_store l) account = Some chain" "idx < length chain" "short_chains l"
    "\<not> of_nat (idx + 1) \<le> store_GetFinalHeight (l_store l) account" "swap_plan fuel l account chain idx = Some (Inr plan)"
  obtains plan' where "plan = plan' @ [\<lparr>cs_account = account, cs_b = chain ! idx\<rparr>]" "list_all (undoable l) plan'"
    "above_final l \<lparr>cs_account = account, cs_b = chain ! idx\<rparr>"
proof -
  let ?u = "''cannot unwind descendant %q (%s) of the replaced block - reversing its side-effects is not yet implemented''"
  have f: "FinalHeight l account < of_nat (idx + 1)" using assms(4) by (simp add: FinalHeight_def not_le)
  have above: "above_final l \<lparr>cs_account = account, cs_b = b\<rparr>" if "b \<in> set (drop idx chain)" for b
    by (rule above_final_drop [OF assms(3,1) f that])
  have m: "above_final l \<lparr>cs_account = account, cs_b = b\<rparr>" if "b \<in> set (rev (drop (idx + 1) chain))" for b
    using that assms(2) by (intro above) (auto simp: Cons_nth_drop_Suc [symmetric])
  have o: "above_final l \<lparr>cs_account = account, cs_b = chain ! idx\<rparr>"
    using assms(2) by (intro above) (simp add: Cons_nth_drop_Suc [symmetric])
  have p: "plan_above l (plan_blocks fuel ?u l account (rev (drop (idx + 1) chain)) {} [])"
    by (rule planning_above(3) [OF assms(3) _ m]) simp_all
  have c: "plan_above l (planCascade fuel l h planned)" for h planned
    using planning_above(1) [OF assms(3)] by (simp add: planCascade_def del: planRollbackOfSend.simps)
  from assms(5) obtain planned plan1 planned2 plan2 where
    "plan_blocks fuel ?u l account (rev (drop (idx + 1) chain)) {} [] = Some (Inr (planned, plan1))"
    "(if blk_Type (chain ! idx) = BlockSend then planCascade fuel l (blk_Hash (chain ! idx)) planned
      else Some (Inr (planned, []))) = Some (Inr (planned2, plan2))"
    "plan = plan1 @ plan2 @ [\<lparr>cs_account = account, cs_b = chain ! idx\<rparr>]"
    by (auto simp: swap_plan_def Let_def split: option.splits sum.splits prod.splits)
  with p c [of "blk_Hash (chain ! idx)" planned] o that [of "plan1 @ plan2"] show ?thesis by (auto split: if_splits)
qed


text \<open>
  A promotion never takes back a final block: every step of the plan, on the account of
  the conflict and on every account its sends reached, is a block of a stored chain above
  that account's final height.
\<close>

theorem swap_plan_above_final:
  assumes "store_GetAccountChain (l_store l) account = Some chain" "idx < length chain" "short_chains l"
    "\<not> of_nat (idx + 1) \<le> store_GetFinalHeight (l_store l) account" "swap_plan fuel l account chain idx = Some (Inr plan)"
  shows "list_all (above_final l) plan"
proof -
  obtain plan' where "plan = plan' @ [\<lparr>cs_account = account, cs_b = chain ! idx\<rparr>]" "list_all (undoable l) plan'"
    "above_final l \<lparr>cs_account = account, cs_b = chain ! idx\<rparr>"
    by (rule swap_plan_steps [OF assms])
  then show ?thesis by (auto simp: undoable_def list_all_iff)
qed

end
