(* ===== verification/XE_Samples.thy ===== *)
theory XE_Samples
  imports XE_Restart XE_Auth XE_Planning
begin

text \<open>
  A small network on which the properties are instantiated: a toy hash function and a
  signature scheme that accepts everything, a genesis block, and the ledger a node opens
  with it.
\<close>

section \<open>Environment\<close>

definition toy_sha :: "bytes \<Rightarrow> bytes" where
  "toy_sha x = replicate 32 (if x = [] then 1 else last x + 1)"

definition sample_genesis :: block where
  "sample_genesis =
     zero_block\<lparr>blk_Type := BlockGenesis, blk_Account := sample_hex 8, blk_Previous := ''0'', blk_Balance := GenesisSupply,
       blk_Asset := ''XE'', blk_Representative := sample_hex 8, blk_PubKey := sample_hex 7,
       blk_Signature := hex_EncodeToString (replicate 64 1), blk_Hash := sample_hex 56\<rparr>"

definition sample_env :: env where
  "sample_env =
     \<lparr>sha256 = toy_sha, ed25519_Verify = \<lambda>pub msg sig. True, blake2b_8 = \<lambda>x. replicate 8 0, networkID = [], now_ns = 0,
      cfg_Difficulty = 0, cfg_TimestampWindow = 0, cfg_TimekeeperConfigFn = None, cfg_MinterConfigFn = None,
      cfg_CertificateLookupFn = None, cfg_EpochRFn = None, cfg_EpochPayoutCapFn = None, cfg_EpochTWAPFn = None,
      cfg_EpochAtFn = None, cfg_FeatureActiveFn = None, cfg_RepresentativeConfigFn = None,
      cfg_GenesisDocument = Inr sample_genesis, held_elsewhere = \<lambda>a. False\<rparr>"

lemma last_replicate_pos: "0 < n \<Longrightarrow> last (replicate n x) = x"
  by (cases n) simp_all

lemma string_bytes_Nil [simp]: "string_bytes s = [] \<longleftrightarrow> s = []"
  by (simp add: string_bytes_def)

lemma hex_Nil [simp]: "hex_EncodeToString bs = [] \<longleftrightarrow> bs = []"
  by (metis length_0_conv length_hex mult_eq_0_iff zero_neq_numeral)

lemma sample_hex_neq [simp]: "''0'' \<noteq> sample_hex x" "[] \<noteq> sample_hex x"
  using sample_hex(4,5) [of x] by metis+

lemma ToLower_0 [simp]: "ToLower ''0'' = ''0''"
  by (simp add: ToLower_def lower_char_def less_eq_char_def)

lemma last_sample_hex: "last (sample_hex k) = hex_digit (unat k mod 16)"
proof -
  have "sample_hex k = concat (map hex_byte (replicate 31 k)) @ hex_byte k"
    unfolding sample_hex_def hex_EncodeToString_def by (simp add: replicate_append_same [symmetric] numeral_eq_Suc)
  then show ?thesis by (simp add: hex_byte_def)
qed

lemma toy_sha_snoc [simp]: "toy_sha (xs @ ys) = (if ys = [] then toy_sha xs else toy_sha ys)"
  by (simp add: toy_sha_def)

lemma toy_sha_Cons [simp]: "toy_sha (x # xs) = (if xs = [] then replicate 32 (x + 1) else toy_sha xs)"
  by (simp add: toy_sha_def)

lemma toy_sha_key [simp]: "toy_sha (string_bytes (sample_hex k)) = replicate 32 (of_nat (of_char (hex_digit (unat k mod 16))) + 1)"
  by (simp add: toy_sha_def string_bytes_def last_map last_sample_hex)

lemma sample_address: "deriveAddressFromKey sample_env (replicate 32 k) = sample_hex (k + 1)"
  by (simp add: deriveAddressFromKey_def sample_env_def toy_sha_def last_replicate_pos sample_hex_def)

lemma sample_VerifyHexSignature: "VerifyHexSignature sample_env (sample_hex k) (hex_EncodeToString (replicate 64 1)) m = Inr ()"
  by (simp add: VerifyHexSignature_def DecodePublicKey_def DecodeSignature_def sample_env_def)

lemma sample_networkID [simp]: "sample_env\<lparr>networkID := []\<rparr> = sample_env" "networkID sample_env = []"
  "sha256 sample_env = toy_sha" "cfg_GenesisDocument sample_env = Inr sample_genesis"
  "cfg_RepresentativeConfigFn sample_env = None" "cfg_Difficulty sample_env = 0" "cfg_TimestampWindow sample_env = 0"
  by (simp_all add: sample_env_def)

lemma length_toy_sha [simp]: "length (toy_sha x) = 32"
  by (simp add: toy_sha_def)

section \<open>Genesis\<close>

lemma sample_genesis_hash: "HashBlock sample_env sample_genesis = Inr (sample_hex 56)"
proof -
  have "\<exists>data. MarshalBlockCanonical sample_genesis = Inr data"
    by (simp add: MarshalBlockCanonical_def sample_genesis_def zero_block_def ValidateMemo_def hex32_or_zero_def marshal_tail_def)
  then obtain data where d: "MarshalBlockCanonical sample_genesis = Inr data" by blast
  have "MarshalBlockAux sample_genesis = (writeLenPrefixedBytes (string_bytes ''xe/block/pubkey/v1'') @
      PutUint64 (of_nat (length (string_bytes (sample_hex 7))))) @ string_bytes (sample_hex 7)"
    by (simp add: MarshalBlockAux_def sample_genesis_def zero_block_def aux_carries_lease_def writeLenPrefixedBytes_def)
  then have "toy_sha (networkID sample_env @ data @ MarshalBlockAux sample_genesis) = replicate 32 56"
    by (simp del: append_assoc add: append_assoc [symmetric] hex_digit_def)
  then show ?thesis by (simp add: HashBlock_def d sample_hex_def)
qed

lemma sample_genesis_valid: "ValidateGenesisBlock sample_env sample_genesis = Inr ()"
proof -
  have l: "length (sample_hex 8) = 64" by (simp add: sample_hex_def)
  have z: "sample_hex 8 \<noteq> ZeroAddress"
  proof
    assume "sample_hex 8 = ZeroAddress"
    then have "last (sample_hex 8) = CHR ''0''" by (simp add: ZeroAddress_def last_replicate_pos)
    then show False by (simp add: last_sample_hex hex_digit_def char_of_def)
  qed
  have p: "ValidatePubKeyDeclaration sample_env sample_genesis = Inr ()"
    by (simp add: ValidatePubKeyDeclaration_def sample_genesis_def zero_block_def DeriveAddress_def DecodePublicKey_def sample_address)
  have g: "VerifyBlockSignatureWith sample_env sample_genesis (sample_hex 7) = Inr ()"
    by (simp add: VerifyBlockSignatureWith_def sample_genesis_def zero_block_def DecodeHash_def sample_VerifyHexSignature)
  have v: "VerifyBlock sample_env sample_genesis = Inr ()"
    using p g by (simp add: VerifyBlock_def sample_genesis_hash) (simp add: sample_genesis_def zero_block_def)
  have t: "validateGenesisLeaseTiming sample_genesis = Inr ()"
    by (simp add: validateGenesisLeaseTiming_def sample_genesis_def zero_block_def DefaultLeaseTiming_def i64_def)
  have r: "validateGenesisRepresentative sample_genesis = Inr ()"
    using z by (simp add: validateGenesisRepresentative_def sample_genesis_def zero_block_def)
  show ?thesis
    using v t r by (simp add: ValidateGenesisBlock_def) (simp add: sample_genesis_def zero_block_def)
qed

lemma sample_parse: "parseGenesisBlock sample_env = Inr sample_genesis"
  by (simp add: parseGenesisBlock_def sample_genesis_valid)

definition sample_ledger :: ledger where
  "sample_ledger =
     (empty_ledger (NewMemStore\<lparr>m_blocks := [(sample_hex 56, sample_genesis)], m_chains := [(sample_hex 8, [sample_genesis])],
        m_frontiers := [(sample_hex 8, sample_hex 56)], m_delegations := [(sample_hex 8, sample_hex 8)],
        m_accountKeys := [(sample_hex 8, sample_hex 7)], m_finalHeight := [(sample_hex 8, 1)]\<rparr>) DefaultLeaseTiming)
     \<lparr>l_delegation := [(sample_hex 8, sample_hex 8)], l_weights := [(sample_hex 8, 42000000000000)],
       l_assetBalances := [(sample_hex 8, [(''XE'', GenesisSupply)])], l_blockCount := 1,
       l_accountKeys := [(sample_hex 8, sample_hex 7)]\<rparr>"

lemma sample_NewLedger: "NewLedger sample_env DefaultLeaseTiming NewMemStore = Inr sample_ledger"
  by (simp add: NewLedger_def store_IsEmpty_def NewMemStore_def new_on_empty_def LoadGenesisBlock_def sample_parse
      prepareBlockWrite_def empty_ledger_def Let_def commitBlockWrite_def getAccountChainOverlay_def overlayChain_def
      getAssetBalanceOverlay_def store_GetAccountChain_def getAssetBalance_def with_delegation_def overlayDelegationRep_def
      applyCommitLocked_def expect_lease_def commit_account_def commit_lease_def commit_pending_def commit_chain_def
 post_commit_def setAssetBalance_def updateDelegation_def store_SetFinalHeight_def GenesisSupply_def assetOf_def i64_def big_def
      ApplyGenesisLeaseTiming_def or_default_def sample_genesis_def zero_block_def sample_ledger_def DefaultLeaseTiming_def GetTotalDelegatedWeight_def
      eligibleAllowlistLocked_def configuredAllowlist_def sumEligibleLocked_def)

lemma sample_ledger_ok: "ledger_ok sample_ledger"
  by (rule NewLedger_ok [OF empty_ledger_ok _ _ sample_NewLedger]) (simp_all add: store_IsEmpty_def NewMemStore_def)

lemma write_succeeds:
  assumes "l_activeCascade l = None" "c_ExpectLeaseHash c = []"
  obtains l' where "commitBlockWrite c p l = (Inr (), l')"
  using assms by (simp add: commitBlockWrite_def Let_def applyCommitLocked_def expect_lease_def)

section \<open>A transfer\<close>

definition sample_transfer :: block where
  "sample_transfer =
     zero_block\<lparr>blk_Type := BlockSend, blk_Account := sample_hex 8, blk_Previous := sample_hex 56,
       blk_Balance := GenesisSupply - 1000, blk_Timestamp := 1, blk_Asset := ''XE'', blk_Destination := sample_hex 9,
       blk_Amount := 1000, blk_Signature := hex_EncodeToString (replicate 64 1), blk_Hash := sample_hex 1\<rparr>"

lemma sample_transfer_simps [simp]:
  "blk_Type sample_transfer = BlockSend" "blk_Account sample_transfer = sample_hex 8" "blk_Previous sample_transfer = sample_hex 56"
  "blk_Signatures sample_transfer = []" "blk_PubKey sample_transfer = []" "blk_Hash sample_transfer = sample_hex 1"
  "blk_Attestations sample_transfer = []" "blk_Asset sample_transfer = ''XE''" "blk_Timestamp sample_transfer = 1"
  "blk_Amount sample_transfer = 1000" "blk_Balance sample_transfer = GenesisSupply - 1000" "blk_Destination sample_transfer = sample_hex 9"
  "blk_Signature sample_transfer = hex_EncodeToString (replicate 64 1)" "blk_Representative sample_transfer = []"
  "blk_Memo sample_transfer = []" "blk_MSKeyset sample_transfer = None"
  by (simp_all add: sample_transfer_def zero_block_def)

lemma sample_transfer_hash: "HashBlock sample_env sample_transfer = Inr (sample_hex 1)"
proof -
  have "\<exists>data. MarshalBlockCanonical sample_transfer = Inr data \<and> toy_sha data = replicate 32 1"
    by (simp add: MarshalBlockCanonical_def sample_transfer_def zero_block_def ValidateMemo_def hex32_or_zero_def
        marshal_tail_def hasGenesisLeaseTiming_def marshal_timing_def marshal_memo_def)
  moreover have "MarshalBlockAux sample_transfer = []"
    by (simp add: MarshalBlockAux_def aux_carries_lease_def)
  ultimately show ?thesis by (auto simp: HashBlock_def sample_hex_def)
qed

lemma sample_transfer_admitted: "strip_attestations (normalizeBlockHex sample_transfer) = sample_transfer"
  by (simp add: strip_attestations_def normalizeBlockHex_def sample_transfer_def zero_block_def carries_attestations_def)

lemma sample_transfer_checks: "admission_checks sample_env sample_transfer True = Inr ()"
  by (simp add: admission_checks_def VerifyBlock_def sample_transfer_hash ValidatePubKeyDeclaration_def)

lemma sample_ledger_simps [simp]:
  "m_blocks (l_store sample_ledger) = [(sample_hex 56, sample_genesis)]" "m_chains (l_store sample_ledger) = [(sample_hex 8, [sample_genesis])]"
  "m_conflicts (l_store sample_ledger) = []" "l_keysets sample_ledger = []" "l_accountKeys sample_ledger = [(sample_hex 8, sample_hex 7)]"
  "l_activeCascade sample_ledger = None" "l_assetBalances sample_ledger = [(sample_hex 8, [(''XE'', GenesisSupply)])]"
  "m_finalHeight (l_store sample_ledger) = [(sample_hex 8, 1)]" "m_pending (l_store sample_ledger) = []"
  "m_leases (l_store sample_ledger) = []"
  by (simp_all add: sample_ledger_def empty_ledger_def NewMemStore_def)

lemma sample_balances: "getAssetBalance sample_ledger a s = (if a = sample_hex 8 \<and> s = ''XE'' then GenesisSupply else 0)"
  by (simp add: getAssetBalance_def mdef_def)

lemma sample_genesis_simps [simp]:
  "blk_Hash sample_genesis = sample_hex 56" "blk_Previous sample_genesis = ''0''" "blk_Timestamp sample_genesis = 0"
  by (simp_all add: sample_genesis_def zero_block_def)

lemma sample_transfer_credential: "verifyBlockCredential sample_env sample_transfer sample_ledger = (Inr (), sample_ledger)"
  by (simp add: verifyBlockCredential_def ValidatePubKeyDeclaration_def GetKeyset_def GetAccountKey_def
      VerifyBlockSignatureWith_def DecodeHash_def sample_VerifyHexSignature)

lemma sample_transfer_write: "fst (validateAndAddSend sample_transfer sample_ledger) = Inr ()"
  by (simp add: validateAndAddSend_def send_commit_def check_extends_def overlay_simps Frontier_def getAssetBalance_def
      GenesisSupply_def mdef_def finish_def prepareBlockWrite_def commitBlockWrite_def with_delegation_def Let_def overlayDelegationRep_def
      applyCommitLocked_def expect_lease_def ValidateMemo_def)

definition sample_ledger1 :: ledger where
  "sample_ledger1 = snd (addBlock sample_env sample_transfer True sample_ledger)"

lemma sample_transfer_added:
  "addBlock sample_env sample_transfer True sample_ledger = (Inr (), sample_ledger1)"
  "validateAndAddSend sample_transfer sample_ledger = (Inr (), sample_ledger1)"
proof -
  obtain l1 where v: "validateAndAddSend sample_transfer sample_ledger = (Inr (), l1)"
    using sample_transfer_write by (cases "validateAndAddSend sample_transfer sample_ledger") auto
  have a: "addBlock sample_env sample_transfer True sample_ledger = (Inr (), l1)"
    using v by (simp add: addBlock_def Let_def sample_transfer_admitted sample_transfer_checks sample_transfer_credential
        store_GetBlock_def detectConflictSibling_def store_GetAccountChain_def store_GetConflictsForAccount_def
        IsValidAsset_def dispatchValidateAndAdd_def)
  then show "addBlock sample_env sample_transfer True sample_ledger = (Inr (), sample_ledger1)"
    "validateAndAddSend sample_transfer sample_ledger = (Inr (), sample_ledger1)" using v by (simp_all add: sample_ledger1_def)
qed

lemma sample_transfer_commit:
  "send_commit sample_transfer sample_ledger =
     Inr ((base_commit sample_ledger sample_transfer)\<lparr>c_AddPending := Some (send_pending sample_transfer)\<rparr>, GenesisSupply)"
  by (simp add: send_commit_def check_extends_def overlay_simps Frontier_def getAssetBalance_def GenesisSupply_def mdef_def
      prepare_eq ValidateMemo_def send_pending_def)

lemma sample_ledger1_simps [simp]:
  "m_pending (l_store sample_ledger1) = [(sample_hex 1, send_pending sample_transfer)]"
  "m_chains (l_store sample_ledger1) = [(sample_hex 8, [sample_genesis, sample_transfer])]"
  "m_finalHeight (l_store sample_ledger1) = [(sample_hex 8, 1)]" "m_leases (l_store sample_ledger1) = []"
  "m_blocks (l_store sample_ledger1) = [(sample_hex 56, sample_genesis), (sample_hex 1, sample_transfer)]"
  "l_activeCascade sample_ledger1 = None"
  "getAssetBalance sample_ledger1 a s = (if a = sample_hex 8 \<and> s = ''XE'' then GenesisSupply - 1000 else getAssetBalance sample_ledger a s)"
proof -
  let ?c = "(base_commit sample_ledger sample_transfer)\<lparr>c_AddPending := Some (send_pending sample_transfer)\<rparr>"
  have w: "commitBlockWrite ?c GenesisSupply sample_ledger = (Inr (), sample_ledger1)"
    using sample_transfer_added(2) by (simp add: validateAndAddSend_def sample_transfer_commit finish_def)
  note b = base_commit_simps [OF sample_ledger_simps(6), of sample_transfer]
  note ws = written_store [OF sample_ledger_simps(6) w] and wb = written_balance(1) [OF sample_ledger_simps(6) w]
  show "m_pending (l_store sample_ledger1) = [(sample_hex 1, send_pending sample_transfer)]"
    "m_chains (l_store sample_ledger1) = [(sample_hex 8, [sample_genesis, sample_transfer])]"
    "m_finalHeight (l_store sample_ledger1) = [(sample_hex 8, 1)]" "m_leases (l_store sample_ledger1) = []"
    "m_blocks (l_store sample_ledger1) = [(sample_hex 56, sample_genesis), (sample_hex 1, sample_transfer)]"
    "l_activeCascade sample_ledger1 = None"
    using ws by (simp_all add: b pending_after_def leases_after_def send_pending_def chain_of_def mdef_def)
  show "getAssetBalance sample_ledger1 a s = (if a = sample_hex 8 \<and> s = ''XE'' then GenesisSupply - 1000 else getAssetBalance sample_ledger a s)"
    using wb [of a s] by (simp add: b credits_nothing_def assetOf_def)
qed

lemma sample_ledger1_ok: "ledger_ok sample_ledger1"
proof -
  obtain bo where "advances bo sample_ledger (snd (addBlock sample_env sample_transfer True sample_ledger))"
    using addBlock_advances [OF sample_ledger_ok] by blast
  from advances_ok [OF this sample_ledger_ok] show ?thesis by (simp add: sample_ledger1_def)
qed

section \<open>The matching receive\<close>

definition sample_receive :: block where
  "sample_receive =
     zero_block\<lparr>blk_Type := BlockReceive, blk_Account := sample_hex 9, blk_Previous := ''0'', blk_Balance := 1000,
       blk_Timestamp := 2, blk_Asset := ''XE'', blk_Source := sample_hex 1, blk_PubKey := sample_hex 8,
       blk_Signature := hex_EncodeToString (replicate 64 1), blk_Hash := sample_hex 57\<rparr>"

lemma sample_receive_simps [simp]:
  "blk_Type sample_receive = BlockReceive" "blk_Account sample_receive = sample_hex 9" "blk_Previous sample_receive = ''0''"
  "blk_Signatures sample_receive = []" "blk_PubKey sample_receive = sample_hex 8" "blk_Hash sample_receive = sample_hex 57"
  "blk_Attestations sample_receive = []" "blk_Asset sample_receive = ''XE''" "blk_Timestamp sample_receive = 2"
  "blk_Source sample_receive = sample_hex 1" "blk_Balance sample_receive = 1000"
  "blk_Signature sample_receive = hex_EncodeToString (replicate 64 1)" "blk_Representative sample_receive = []"
  "blk_Memo sample_receive = []" "blk_MSKeyset sample_receive = None"
  by (simp_all add: sample_receive_def zero_block_def)

lemma sample_receive_hash: "HashBlock sample_env sample_receive = Inr (sample_hex 57)"
proof -
  have "\<exists>data. MarshalBlockCanonical sample_receive = Inr data"
    by (simp add: MarshalBlockCanonical_def sample_receive_def zero_block_def ValidateMemo_def hex32_or_zero_def
        marshal_tail_def hasGenesisLeaseTiming_def)
  then obtain data where d: "MarshalBlockCanonical sample_receive = Inr data" by blast
  have "toy_sha (data @ MarshalBlockAux sample_receive) = replicate 32 57"
    by (simp add: MarshalBlockAux_def aux_carries_lease_def writeLenPrefixedBytes_def hex_digit_def)
  then show ?thesis by (simp add: HashBlock_def d sample_hex_def)
qed

lemma sample_receive_admitted: "strip_attestations (normalizeBlockHex sample_receive) = sample_receive"
  by (simp add: strip_attestations_def normalizeBlockHex_def sample_receive_def zero_block_def carries_attestations_def)

lemma sample_receive_key: "ValidatePubKeyDeclaration sample_env sample_receive = Inr ()"
  "VerifyBlockSignatureWith sample_env sample_receive (sample_hex 8) = Inr ()"
  by (simp_all add: ValidatePubKeyDeclaration_def DeriveAddress_def DecodePublicKey_def sample_address
      VerifyBlockSignatureWith_def DecodeHash_def sample_VerifyHexSignature)

lemma sample_receive_checks: "admission_checks sample_env sample_receive True = Inr ()"
  by (simp add: admission_checks_def VerifyBlock_def sample_receive_hash sample_receive_key)

lemma sample_ledger1_more [simp]: "l_keysets sample_ledger1 = []" "m_conflicts (l_store sample_ledger1) = []"
proof -
  have v: "sample_ledger1 = snd (validateAndAddSend sample_transfer sample_ledger)" by (simp add: sample_transfer_added)
  show "l_keysets sample_ledger1 = []" "m_conflicts (l_store sample_ledger1) = []"
    unfolding v validateAndAddSend_def sample_transfer_commit finish_def sum.case prod.case
    by (simp_all add: commitBlockWrite_def with_delegation_def Let_def overlayDelegationRep_def
        applyCommitLocked_def expect_lease_def split: sum.splits)
qed

lemma sample_receive_credential: "verifyBlockCredential sample_env sample_receive sample_ledger1 = (Inr (), sample_ledger1)"
  by (simp add: verifyBlockCredential_def sample_receive_key GetKeyset_def)

lemma sample_receive_commit:
  "receive_commit sample_receive sample_ledger1 =
     Inr ((base_commit sample_ledger1 sample_receive)\<lparr>c_DeletePendingID := sample_hex 1\<rparr>, 0)"
  by (simp add: receive_commit_def overlay_simps send_pending_def isLiveLeaseEscrow_def contested_def GetBlockOrStaged_def
      store_GetBlock_def store_GetConflict_def prepare_eq sample_balances)

definition sample_ledger2 :: ledger where
  "sample_ledger2 = snd (addBlock sample_env sample_receive True sample_ledger1)"

lemma sample_receive_added:
  "addBlock sample_env sample_receive True sample_ledger1 = (Inr (), sample_ledger2)"
  "commitBlockWrite ((base_commit sample_ledger1 sample_receive)\<lparr>c_DeletePendingID := sample_hex 1\<rparr>) 0 sample_ledger1 = (Inr (), sample_ledger2)"
proof -
  let ?c = "(base_commit sample_ledger1 sample_receive)\<lparr>c_DeletePendingID := sample_hex 1\<rparr>"
  obtain l2 where w: "commitBlockWrite ?c 0 sample_ledger1 = (Inr (), l2)"
    by (rule write_succeeds [of sample_ledger1 ?c]) (simp_all add: base_commit_simps)
  have "addBlock sample_env sample_receive True sample_ledger1 = (Inr (), l2)"
    by (simp add: addBlock_def Let_def sample_receive_admitted sample_receive_checks sample_receive_credential
        store_GetBlock_def detectConflictSibling_def store_GetAccountChain_def store_GetConflictsForAccount_def
        IsValidAsset_def dispatchValidateAndAdd_def validateAndAddReceive_def sample_receive_commit finish_def w)
  then show "addBlock sample_env sample_receive True sample_ledger1 = (Inr (), sample_ledger2)"
    "commitBlockWrite ?c 0 sample_ledger1 = (Inr (), sample_ledger2)" using w by (simp_all add: sample_ledger2_def)
qed

lemma sample_ledger2_simps [simp]:
  "m_pending (l_store sample_ledger2) = []"
  "m_chains (l_store sample_ledger2) = [(sample_hex 8, [sample_genesis, sample_transfer]), (sample_hex 9, [sample_receive])]"
  "m_finalHeight (l_store sample_ledger2) = [(sample_hex 8, 1)]" "m_leases (l_store sample_ledger2) = []"
  "m_blocks (l_store sample_ledger2) = [(sample_hex 56, sample_genesis), (sample_hex 1, sample_transfer), (sample_hex 57, sample_receive)]"
  "l_activeCascade sample_ledger2 = None"
  "getAssetBalance sample_ledger2 a s = (if a = sample_hex 9 \<and> s = ''XE'' then 1000 else getAssetBalance sample_ledger1 a s)"
proof -
  note b = base_commit_simps [OF sample_ledger1_simps(6), of sample_receive]
  note w = sample_receive_added(2)
  note ws = written_store [OF sample_ledger1_simps(6) w] and wb = written_balance(1) [OF sample_ledger1_simps(6) w]
  show "m_pending (l_store sample_ledger2) = []"
    "m_chains (l_store sample_ledger2) = [(sample_hex 8, [sample_genesis, sample_transfer]), (sample_hex 9, [sample_receive])]"
    "m_finalHeight (l_store sample_ledger2) = [(sample_hex 8, 1)]" "m_leases (l_store sample_ledger2) = []"
    "m_blocks (l_store sample_ledger2) = [(sample_hex 56, sample_genesis), (sample_hex 1, sample_transfer), (sample_hex 57, sample_receive)]"
    "l_activeCascade sample_ledger2 = None"
    using ws by (simp_all add: b pending_after_def leases_after_def chain_of_def mdef_def)
  show "getAssetBalance sample_ledger2 a s = (if a = sample_hex 9 \<and> s = ''XE'' then 1000 else getAssetBalance sample_ledger1 a s)"
    using wb [of a s] by (simp add: b credits_nothing_def assetOf_def)
qed

end
