(* ===== verification/XE_Safety.thy ===== *)
theory XE_Safety
  imports XE_Samples
begin

text \<open>
  What a node's ledger guarantees over its life: from the genesis block on, through every
  admitted or refused block and every restart, the invariant of \<open>XE_Invariant\<close> holds, no
  credit is taken twice, and what is final stays.
\<close>

section \<open>Reachable ledgers\<close>

text \<open>
  The states of a node: the ledger opened on an empty store, after any block offered by
  \<open>AddBlock\<close> or \<open>AddSyncedBlock\<close>, accepted or not, and after a restart. The clock and the
  configuration may differ at every step.
\<close>

inductive reachable :: "ledger \<Rightarrow> bool" where
  opened: "NewLedger E T NewMemStore = Inr l \<Longrightarrow> (\<And>x. length (sha256 E x) = 32) \<Longrightarrow> reachable l"
| added: "reachable l \<Longrightarrow> reachable (snd (addBlock E b skipTimestamp l))"
| restarted: "reachable l \<Longrightarrow> \<not> store_IsEmpty (l_store l) \<Longrightarrow> NewLedger E T (l_store l) = Inr l' \<Longrightarrow> reachable l'"

lemma restart_rebuild:
  assumes "ledger_ok l" "\<not> store_IsEmpty (l_store l)" "NewLedger E T (l_store l) = Inr l'"
  obtains T' where "l' = rebuild (empty_ledger (l_store l) T')"
  using NewLedger_on_store [OF assms(2,3)] by blast

lemma reachable_ledger_ok:
  assumes "reachable l"
  shows "ledger_ok l"
  using assms
proof induction
  case (opened E T l)
  then show ?case
    using NewLedger_ok [OF empty_ledger_ok, of E T l] by (simp add: store_IsEmpty_def NewMemStore_def)
next
  case (added l E b s)
  then show ?case using addBlock_advances advances_ok by blast
next
  case (restarted l E T l')
  then show ?case using rebuild_ok restart_rebuild by metis
qed

section \<open>Final blocks\<close>

definition final_prefix :: "ledger \<Rightarrow> string \<Rightarrow> account_chain" where
  "final_prefix l a = take (unat (FinalHeight l a)) (chain_of l a)"

text \<open>The final height of an account is the height of a block of its chain.\<close>

definition final_ok :: "ledger \<Rightarrow> bool" where
  "final_ok l \<longleftrightarrow> (\<forall>a. unat (FinalHeight l a) \<le> length (chain_of l a))"

lemma FinalHeight_core: "core l' = core l \<Longrightarrow> FinalHeight l' = FinalHeight l"
  by (drule core_eqD(8)) (simp add: FinalHeight_def store_GetFinalHeight_def fun_eq_iff)

lemma final_prefix_core:
  assumes "core l' = core l"
  shows "final_prefix l' = final_prefix l"
  by (simp add: final_prefix_def fun_eq_iff FinalHeight_core [OF assms] core_eqD(15) [OF assms])

lemma settled_final_prefix:
  assumes "settled l l'" "ledger_ok l" "short_chains l"
  shows "FinalHeight l' = FinalHeight l" "final_prefix l' a = final_prefix l a" "final_ok l \<Longrightarrow> final_ok l'"
proof -
  have "FinalHeight l' = FinalHeight l \<and> final_prefix l' a = final_prefix l a \<and> (final_ok l \<longrightarrow> final_ok l')"
    using assms(1)
  proof cases
    case same
    from FinalHeight_core [OF this] final_prefix_core [OF this] core_eqD(15) [OF this]
    show ?thesis by (simp add: final_ok_def)
  next
    case (unaccept l0 x c u ap ls)
    have ok0: "ledger_ok l0" using ledger_ok_core [OF unaccept(1)] assms(2) by simp
    note f = undone_facts [OF ok0 unaccept(2) refl unaccept(3)]
    have fh: "FinalHeight l' = FinalHeight l"
      using FinalHeight_core [OF unaccept(8)] FinalHeight_core [OF unaccept(1)] f(2)
      by (simp add: FinalHeight_def store_GetFinalHeight_def fun_eq_iff)
    have c0: "chain_of l = chain_of l0" using core_eqD(15) [OF unaccept(1)] by simp
    have cx: "chain_of l0 x = c" using unaccept(2) by (simp add: chain_of_def mdef_def)
    have ch': "chain_of l' a = (if a = x then butlast c else chain_of l0 a)" for a
      using core_eqD(15) [OF unaccept(8)] f(6) by simp
    note ch = ch' [of a]
    have lc: "length c < 2 ^ 64"
      using assms(3) core_eqD(2) [OF unaccept(1)] unaccept(2) by (simp add: short_chains_def store_GetAccountChain_def)
    have "unat (FinalHeight l x) < length c"
      using unaccept(7) lc FinalHeight_core [OF unaccept(1)]
      by (simp add: not_le word_less_nat_alt unat_of_nat)
    then have "take (unat (FinalHeight l x)) (butlast c) = take (unat (FinalHeight l x)) c"
      by (simp add: butlast_conv_take)
    then have "final_prefix l' a = final_prefix l a"
      using ch cx unfolding final_prefix_def fh c0 by (cases "a = x") simp_all
    moreover have "final_ok l'" if "final_ok l"
      using that \<open>unat (FinalHeight l x) < length c\<close> unfolding final_ok_def fh c0 ch' by auto
    ultimately show ?thesis using fh by simp
  qed
  then show "FinalHeight l' = FinalHeight l" "final_prefix l' a = final_prefix l a" "final_ok l \<Longrightarrow> final_ok l'" by simp_all
qed

lemma advances_final_prefix:
  assumes "advances bo l l'" "ledger_ok l" "short_chains l" "final_ok l"
  shows "FinalHeight l' = FinalHeight l \<and> final_prefix l' a = final_prefix l a \<and> final_ok l'"
  using assms(1)
proof cases
  case stay
  then show ?thesis using settled_final_prefix [OF _ assms(2,3)] assms(4) by blast
next
  case (writes l1 b c p l2)
  note s = settled_final_prefix [OF writes(2) assms(2,3)]
  have ok1: "ledger_ok l1" by (rule settled_ok [OF writes(2) assms(2)])
  have e: "extends l1 b c" and h: "c_FrontierHash c \<noteq> []"
    using writes(3) by (auto simp: commit_ok_def extends_def fresh_def)
  note w = written_store [OF ok_cascade [OF ok1] writes(4) h]
  have fh2: "FinalHeight l2 = FinalHeight l1" using w(6) by (simp add: FinalHeight_def store_GetFinalHeight_def fun_eq_iff)
  have ch: "chain_of l2 x = (if x = blk_Account b then chain_of l1 x @ [b] else chain_of l1 x)" for x
    using w(2) e by (simp add: chain_of_def extends_def)
  have f1: "final_ok l1" using s(3) assms(4) by simp
  then have "final_ok l2" unfolding final_ok_def fh2 ch by (simp add: le_SucI)
  moreover have "final_prefix l2 a = final_prefix l1 a"
    using f1 unfolding final_prefix_def fh2 ch by (simp add: final_ok_def)
  ultimately show ?thesis
    using s fh2 FinalHeight_core [OF writes(5)] final_prefix_core [OF writes(5)] core_eqD(15) [OF writes(5)]
    by (simp add: final_ok_def)
qed

section \<open>Properties\<close>

text \<open>
  Offering any block to the ledger, valid or not, leaves it in its invariant: chains
  are hash-linked and agree with the block map, cached balances and delegations are those
  of the chains, every pending send and every lease comes from a stored block, and every
  credit was released at most once.
\<close>

theorem addBlock_keeps_invariant:
  assumes "ledger_ok l"
  shows "ledger_ok (snd (addBlock E b skipTimestamp l))"
  using addBlock_advances [OF assms] advances_ok [OF _ assms] by blast

theorem addBlock_keeps_invariant_witness:
  "addBlock sample_env sample_transfer True sample_ledger = (Inr (), sample_ledger1) \<and> ledger_ok sample_ledger1"
  using addBlock_keeps_invariant [OF sample_ledger_ok, of sample_env sample_transfer True] by (simp add: sample_transfer_added)

text \<open>
  C2. A node keeps the invariant over its whole life, from the genesis block through any
  sequence of offered blocks and restarts.
\<close>

theorem reachable_invariant:
  assumes "reachable l"
  shows "ledger_ok l"
  by (rule reachable_ledger_ok [OF assms])

lemma sample_reachable: "reachable sample_ledger1"
  using reachable.added [OF reachable.opened [OF sample_NewLedger], of sample_env sample_transfer True]
  by (simp add: sample_transfer_added)

theorem reachable_invariant_witness: "reachable sample_ledger1 \<and> ledger_ok sample_ledger1"
  using reachable_invariant [OF sample_reachable] sample_reachable by simp


lemma sample_reachable2: "reachable sample_ledger2"
  using reachable.added [OF sample_reachable, of sample_env sample_receive True] by (simp add: sample_receive_added)




text \<open>
  C4. What is final stays: offering any block leaves every account's final height and the
  blocks up to it unchanged, also where it takes back a lease acceptance.
\<close>

theorem addBlock_keeps_final_blocks:
  assumes "ledger_ok l" "final_ok l" "short_chains l"
  shows "FinalHeight (snd (addBlock E b s l)) = FinalHeight l \<and>
    final_prefix (snd (addBlock E b s l)) a = final_prefix l a \<and> final_ok (snd (addBlock E b s l))"
proof -
  obtain bo where "advances bo l (snd (addBlock E b s l))" using addBlock_advances [OF assms(1)] by blast
  from advances_final_prefix [OF this assms(1,3,2)] show ?thesis .
qed

lemma sample_final: "final_ok sample_ledger" "short_chains sample_ledger"
  by (auto simp: final_ok_def FinalHeight_def store_GetFinalHeight_def chain_of_def mdef_def short_chains_def store_GetAccountChain_def)

theorem addBlock_keeps_final_blocks_witness:
  "final_prefix sample_ledger1 (sample_hex 8) = [sample_genesis] \<and> chain_of sample_ledger1 (sample_hex 8) = [sample_genesis, sample_transfer]"
proof -
  have "final_prefix sample_ledger1 (sample_hex 8) = final_prefix sample_ledger (sample_hex 8)"
    using addBlock_keeps_final_blocks [OF sample_ledger_ok sample_final, of sample_env sample_transfer True "sample_hex 8"]
    by (simp add: sample_transfer_added)
  then show ?thesis by (simp add: final_prefix_def FinalHeight_def store_GetFinalHeight_def chain_of_def mdef_def)
qed

text \<open>
  C23. A restart loses nothing: a ledger reopened on the store of a running one is in its
  invariant and gives the same balance of every asset to every account, the same
  representative to every account, the same weight to every representative, and the same
  answers to vote-weight queries.
\<close>

theorem restart_agrees:
  assumes "ledger_ok l" "\<not> store_IsEmpty (l_store l)" "NewLedger E T (l_store l) = Inr l'"
  shows "ledger_ok l' \<and> (\<forall>a s. IsValidAsset s \<longrightarrow> getAssetBalance l' a s = getAssetBalance l a s) \<and>
    (\<forall>a. mget (l_delegation l') a = mget (l_delegation l) a) \<and>
    (\<forall>rep. weight_of l' rep = weight_of l rep \<and> GetVoteWeight E l' rep = GetVoteWeight E l rep)"
proof -
  obtain T' where l': "l' = rebuild (empty_ledger (l_store l) T')" by (rule restart_rebuild [OF assms])
  note f = rebuild_facts [OF assms(1), of T', folded l']
  have w: "weight_of l' = weight_of l" by (simp add: weight_of_def f(6) fun_eq_iff)
  have "eligibleAllowlistLocked E l' = eligibleAllowlistLocked E l" unfolding eligibleAllowlistLocked_def w ..
  then have "GetVoteWeight E l' rep = GetVoteWeight E l rep" for rep by (simp add: GetVoteWeight_def w)
  moreover have "ledger_ok l'" unfolding l' by (rule rebuild_ok [OF assms(1)])
  moreover have "getAssetBalance l' a s = getAssetBalance l a s" if "IsValidAsset s" for a s
    using assms(1) that f(1) by (simp add: ledger_ok_def balances_ok_def)
  ultimately show ?thesis using w f(4) by simp
qed

theorem restart_agrees_witness:
  "\<exists>l'. NewLedger sample_env DefaultLeaseTiming (l_store sample_ledger2) = Inr l' \<and>
     getAssetBalance l' (sample_hex 9) ''XE'' = 1000 \<and> getAssetBalance l' (sample_hex 8) ''XE'' = GenesisSupply - 1000"
proof -
  have e: "\<not> store_IsEmpty (l_store sample_ledger2)" by (simp add: store_IsEmpty_def)
  have a: "blk_Account sample_genesis = sample_hex 8" by (simp add: sample_genesis_def zero_block_def)
  obtain l' where n: "NewLedger sample_env DefaultLeaseTiming (l_store sample_ledger2) = Inr l'"
    using e by (simp add: NewLedger_def new_on_store_def LoadGenesisBlock_def sample_parse empty_ledger_def
        store_GetAccountChain_def a)
  from restart_agrees [OF reachable_ledger_ok [OF sample_reachable2] e n] n show ?thesis
    by (auto simp: IsValidAsset_def)
qed

section \<open>Instances of the planning theorems\<close>

theorem swap_plan_terminates_witness:
  "\<exists>r. swap_plan (plan_fuel sample_ledger2) sample_ledger2 (sample_hex 8) [sample_genesis, sample_transfer] 1 = Some r"
  by (rule swap_plan_terminates) (simp add: store_GetAccountChain_def)

theorem swap_plan_above_final_witness:
  "list_all (above_final sample_ledger2)
     [\<lparr>cs_account = sample_hex 9, cs_b = sample_receive\<rparr>, \<lparr>cs_account = sample_hex 8, cs_b = sample_transfer\<rparr>]"
proof (rule swap_plan_above_final)
  show "store_GetAccountChain (l_store sample_ledger2) (sample_hex 8) = Some [sample_genesis, sample_transfer]"
    by (simp add: store_GetAccountChain_def)
  show "short_chains sample_ledger2" by (auto simp: short_chains_def store_GetAccountChain_def)
  show "swap_plan 1 sample_ledger2 (sample_hex 8) [sample_genesis, sample_transfer] 1 =
    Some (Inr [\<lparr>cs_account = sample_hex 9, cs_b = sample_receive\<rparr>, \<lparr>cs_account = sample_hex 8, cs_b = sample_transfer\<rparr>])"
    by (simp add: swap_plan_def planCascade_def store_GetPendingSend_def store_GetBlock_def store_GetAccountChain_def
        FinalHeight_def store_GetFinalHeight_def mdef_def unwindable_def)
qed (simp_all add: store_GetFinalHeight_def mdef_def word_le_nat_alt)

end
