(* ===== verification/XE_Supply.thy ===== *)
theory XE_Supply
  imports XE_Safety
begin

text \<open>
  Conservation of the two assets. The supply of an asset is what the accounts hold plus
  what is pending: sends on their way and lease escrows. A block changes it only where the
  protocol issues or retires value: genesis and settlement issue XE, a burn retires it; a
  mint issues XUSD, a settlement retires the escrow it releases. A cancelled lease gives
  back its cost; what renewals had added to its escrow is retired with it.
\<close>

section \<open>Definitions\<close>

definition pending_total :: "string \<Rightarrow> ledger \<Rightarrow> nat" where
  "pending_total s l = msum (\<lambda>h ps. if ps_Asset ps = s then unat (ps_Amount ps) else 0) (m_pending (l_store l))"

definition total_supply :: "string \<Rightarrow> ledger \<Rightarrow> nat" where
  "total_supply s l = held s l + pending_total s l"

definition escrow :: "ledger \<Rightarrow> block \<Rightarrow> int" where
  "escrow l b = (case mget (m_pending (l_store l)) (blk_Source b) of None \<Rightarrow> 0 | Some ps \<Rightarrow> int (unat (ps_Amount ps)))"

definition lease_cost_of :: "ledger \<Rightarrow> block \<Rightarrow> int" where
  "lease_cost_of l b = (case mget (m_leases (l_store l)) (blk_Source b) of None \<Rightarrow> 0 | Some ls \<Rightarrow> int (unat (ls_Cost ls)))"

text \<open>What writing a block adds to the supply of an asset.\<close>

definition supply_change :: "ledger \<Rightarrow> block \<Rightarrow> string \<Rightarrow> int" where
  "supply_change l b s =
     (case blk_Type b of
        BlockGenesis \<Rightarrow> if s = ''XE'' then int (unat (blk_Balance b)) else 0
      | BlockBurn \<Rightarrow> if s = ''XE'' then - int (unat (blk_Amount b)) else 0
      | BlockMint \<Rightarrow> if s = ''XUSD'' then int (unat (blk_Amount b)) else 0
      | BlockLeaseSettle \<Rightarrow> if s = ''XE'' then int (unat (blk_Amount b)) else if s = ''XUSD'' then - escrow l b else 0
      | BlockLeaseCancel \<Rightarrow> if s = ''XUSD'' then lease_cost_of l b - escrow l b else 0
      | _ \<Rightarrow> 0)"

text \<open>A live lease's escrow covers its cost, and accepting a lease moves no balance.\<close>

definition escrow_ok :: "ledger \<Rightarrow> bool" where
  "escrow_ok l \<longleftrightarrow>
     (\<forall>h ls ps. mget (m_leases (l_store l)) h = Some ls \<longrightarrow> live ls \<longrightarrow> mget (m_pending (l_store l)) h = Some ps \<longrightarrow>
        ls_Cost ls \<le> ps_Amount ps)"

definition accept_flat :: "ledger \<Rightarrow> bool" where
  "accept_flat l \<longleftrightarrow>
     (\<forall>a i. i < length (chain_of l a) \<longrightarrow> blk_Type (chain_of l a ! i) = BlockLeaseAccept \<longrightarrow>
        blk_Balance (chain_of l a ! i) = assetBalanceOnChain (take i (chain_of l a)) (blk_Asset (chain_of l a ! i)))"

definition conserving :: "ledger \<Rightarrow> bool" where
  "conserving l \<longleftrightarrow> ledger_ok l \<and> escrow_ok l \<and> accept_flat l"

section \<open>Sums\<close>

lemma held_keys:
  assumes "balances_wf l"
  shows "held s l = (\<Sum>a\<in>keys (l_assetBalances l). unat (getAssetBalance l a s))"
  using assms unfolding held_def balances_wf_def
  by (subst msum_keys) (auto simp: getAssetBalance_def mdef_def keys_iff intro!: sum.cong)

lemma balance_le_held:
  assumes "balances_wf l"
  shows "unat (getAssetBalance l a s) \<le> held s l"
proof (cases "a \<in> keys (l_assetBalances l)")
  case True
  then show ?thesis unfolding held_keys [OF assms] by (intro member_le_sum) auto
next
  case False
  then show ?thesis by (auto simp: getAssetBalance_def mdef_def keys_iff split: option.splits)
qed

lemma pending_le_total:
  assumes "ledger_ok l" "mget (m_pending (l_store l)) h = Some ps"
  shows "unat (ps_Amount ps) \<le> pending_total (ps_Asset ps) l"
proof -
  have "mwf (m_pending (l_store l))" using assms(1) by (simp add: ledger_ok_def maps_wf_def)
  from msum_mdel [OF this, of "\<lambda>h p. if ps_Asset p = ps_Asset ps then unat (ps_Amount p) else 0" h] assms(2)
  show ?thesis by (simp add: pending_total_def)
qed

lemma held_core: "core l' = core l \<Longrightarrow> held s l' = held s l"
  by (drule core_eqD(11)) (simp add: held_def)

lemma supply_core:
  assumes "core l' = core l"
  shows "total_supply s l' = total_supply s l"
  using held_core [OF assms] core_eqD(3) [OF assms] by (simp add: total_supply_def pending_total_def)

lemma conserving_core:
  assumes "core l' = core l"
  shows "conserving l' = conserving l"
  using ledger_ok_core [OF assms] core_eqD [OF assms] by (simp add: conserving_def escrow_ok_def accept_flat_def)

section \<open>A write\<close>

lemma pending_after_parts:
  "pend_part c = (None, [], []) \<Longrightarrow> pending_after c P = P"
  "pend_part c = (Some ps, [], []) \<Longrightarrow> pending_after c P = mput (ps_SendHash ps) ps P"
  "pend_part c = (None, h, []) \<Longrightarrow> h \<noteq> [] \<Longrightarrow> pending_after c P = mdel h P"
  "pend_part c = (None, [], h) \<Longrightarrow> h \<noteq> [] \<Longrightarrow> mget P h = Some ps \<Longrightarrow>
     pending_after c P = mput h (ps\<lparr>ps_Amount := ps_Amount ps + c_TopUpPendingAmount c\<rparr>) P"
  by (auto simp: pend_part_def pending_after_def shift_entry_def)

lemma escrow_asset:
  assumes "ledger_ok l" "mget (m_leases (l_store l)) h = Some ls" "live ls"
  obtains ps where "mget (m_pending (l_store l)) h = Some ps" "ps_Asset ps = ''XUSD''"
proof -
  obtain b where b: "mget (m_blocks (l_store l)) h = Some b" "lease_of ls b" and "mhas (m_pending (l_store l)) h"
    using assms unfolding ledger_ok_def leases_ok_def by blast
  then obtain ps where ps: "mget (m_pending (l_store l)) h = Some ps" by auto
  obtain b' where "mget (m_blocks (l_store l)) h = Some b'" "ps_Asset ps = blk_Asset b'"
    using assms(1) ps unfolding ledger_ok_def pending_ok_def by (force simp: send_pending_def)
  with b ps that show ?thesis by (auto simp: lease_of_def)
qed

lemma pending_total_mput:
  assumes "mwf P"
  shows "msum (\<lambda>h ps. if ps_Asset ps = s then unat (ps_Amount ps) else 0) (mput h ps P) +
      (case mget P h of None \<Rightarrow> 0 | Some ps0 \<Rightarrow> if ps_Asset ps0 = s then unat (ps_Amount ps0) else 0) =
    msum (\<lambda>h ps. if ps_Asset ps = s then unat (ps_Amount ps) else 0) P + (if ps_Asset ps = s then unat (ps_Amount ps) else 0)"
  using msum_mput [OF assms] .

lemma write_supply:
  assumes k: "conserving l" and w: "commitBlockWrite c p l = (Inr (), l')" and co: "commit_ok l b c p"
    and bound: "total_supply ''XUSD'' l < 2 ^ 64"
  shows "int (total_supply s l') = int (total_supply s l) + supply_change l b s"
proof -
  have ok: "ledger_ok l" and es: "escrow_ok l" using k by (simp_all add: conserving_def)
  note wf = write_facts [OF ok w co]
  let ?f = "\<lambda>s h ps. if ps_Asset ps = s then unat (ps_Amount ps) else 0"
  let ?P = "m_pending (l_store l)"
  have mw: "mwf ?P" and bw: "balances_wf l" using ok by (simp_all add: ledger_ok_def maps_wf_def)
  have x: "c_Block c = b" "c_Account c = blk_Account b" "credits_nothing c" using wf(4) by (simp_all add: extends_def)
  have A: "assetOf b = blk_Asset b" using wf(3) by (simp add: fresh_def)
  have H: "held s l' + (if s = blk_Asset b then unat (old_balance l b) else 0) =
      held s l + (if s = blk_Asset b then unat (blk_Balance b) else 0)" for s
    using written_balance(4) [OF wf(1) w x(3) bw, of s] by (auto simp: x A)
  have PT: "pending_total s l' = msum (?f s) (pending_after c ?P)" "pending_total s l = msum (?f s) ?P" for s
    by (simp_all add: pending_total_def wf(7))
  have old: "unat (old_balance l b) \<le> held (blk_Asset b) l" by (rule balance_le_held [OF bw])
  show ?thesis
    using wf(2)
  proof cases
    case keys
    then show ?thesis using H [of s] by (auto simp: total_supply_def PT pending_after_parts supply_change_def simp del: of_nat_unat split: if_splits)
  next
    case genesis
    then have "old_balance l b = 0"
      using ok empty_chains [OF ok] by (simp add: ledger_ok_def balances_ok_def IsValidAsset_def assetBalanceOnChain_def)
    then show ?thesis using H [of s] genesis by (auto simp: total_supply_def PT pending_after_parts supply_change_def simp del: of_nat_unat split: if_splits)
  next
    case burn
    then have "unat (blk_Balance b) = unat (old_balance l b) - unat (blk_Amount b)" "unat (blk_Amount b) \<le> unat (old_balance l b)"
      by (simp_all add: unat_sub_u64 word_le_nat_alt)
    then show ?thesis
      using H [of s] burn
      by (auto simp: total_supply_def PT pending_after_parts supply_change_def simp del: of_nat_unat split: if_splits)
  next
    case mint
    then show ?thesis using H [of s] by (auto simp: total_supply_def PT pending_after_parts supply_change_def simp del: of_nat_unat split: if_splits)
  next
    case send
    then have "unat (blk_Balance b) = unat (old_balance l b) - unat (blk_Amount b)" "unat (blk_Amount b) \<le> unat (old_balance l b)"
      by (simp_all add: unat_sub_u64 word_le_nat_alt)
    then show ?thesis
      using H [of s] send pending_total_mput [OF mw, of s "blk_Hash b" "send_pending b"] wf(10)
      by (auto simp: total_supply_def PT pending_after_parts supply_change_def send_pending_def simp del: of_nat_unat split: if_splits)
  next
    case (receive ps)
    then show ?thesis
      using H [of s] msum_mdel [OF mw, of "?f s" "blk_Source b"]
      by (auto simp: total_supply_def PT pending_after_parts supply_change_def simp del: of_nat_unat split: if_splits)
  next
    case (lease ls)
    then have "unat (blk_Balance b) = unat (old_balance l b) - unat (blk_Amount b)" "unat (blk_Amount b) \<le> unat (old_balance l b)"
      by (simp_all add: unat_sub_u64 word_le_nat_alt)
    then show ?thesis
      using H [of s] lease pending_total_mput [OF mw, of s "blk_Hash b" "send_pending b"] wf(10)
      by (auto simp: total_supply_def PT pending_after_parts supply_change_def send_pending_def simp del: of_nat_unat split: if_splits)
  next
    case (accept ls' ls lb)
    then show ?thesis using H [of s] by (auto simp: total_supply_def PT pending_after_parts supply_change_def simp del: of_nat_unat split: if_splits)
  next
    case (renew rs ls)
    then have "live ls" by (simp add: live_def)
    obtain ps where ps: "mget ?P (blk_Source b) = Some ps" "ps_Asset ps = ''XUSD''"
      by (rule escrow_asset [OF ok renew(7) \<open>live ls\<close>])
    have a: "unat (blk_Balance b) = unat (old_balance l b) - unat (blk_Amount b)" "unat (blk_Amount b) \<le> unat (old_balance l b)"
      using renew by (simp_all add: unat_sub_u64 word_le_nat_alt)
    have "unat (ps_Amount ps + blk_Amount b) = unat (ps_Amount ps) + unat (blk_Amount b)"
      using pending_le_total [OF ok ps(1)] old a(2) bound renew(2) ps(2) by (intro unat_add_u64) (simp add: total_supply_def)
    then show ?thesis
      using H [of s] renew a ps
        pending_total_mput [OF mw, of s "blk_Source b" "ps\<lparr>ps_Amount := ps_Amount ps + blk_Amount b\<rparr>"]
      by (auto simp: total_supply_def PT pending_after_parts supply_change_def simp del: of_nat_unat split: if_splits)
  next
    case (cancel ls)
    then have "live ls" by (simp add: live_def)
    obtain ps where ps: "mget ?P (blk_Source b) = Some ps" "ps_Asset ps = ''XUSD''"
      by (rule escrow_asset [OF ok cancel(6) \<open>live ls\<close>])
    have c: "unat (ls_Cost ls) \<le> unat (ps_Amount ps)"
      using es cancel(6) \<open>live ls\<close> ps(1) by (simp add: escrow_ok_def word_le_nat_alt)
    have "unat (blk_Balance b) = unat (old_balance l b) + unat (ls_Cost ls)"
      using pending_le_total [OF ok ps(1)] old c bound cancel(2,9) ps(2)
      by (simp add: unat_add_u64 total_supply_def)
    then show ?thesis
      using H [of s] cancel ps c msum_mdel [OF mw, of "?f s" "blk_Source b"]
      by (auto simp: total_supply_def PT pending_after_parts supply_change_def escrow_def lease_cost_of_def simp del: of_nat_unat split: if_splits)
  next
    case (settle ls)
    then have "live ls" by (simp add: live_def)
    obtain ps where ps: "mget ?P (blk_Source b) = Some ps" "ps_Asset ps = ''XUSD''"
      by (rule escrow_asset [OF ok settle(6) \<open>live ls\<close>])
    then show ?thesis
      using H [of s] settle msum_mdel [OF mw, of "?f s" "blk_Source b"]
      by (auto simp: total_supply_def PT pending_after_parts supply_change_def escrow_def simp del: of_nat_unat split: if_splits)
  next
    case (unfulfil ls ps)
    then have "live ls" by (simp add: live_def)
    obtain ps' where "mget ?P (blk_Source b) = Some ps'" "ps_Asset ps' = ''XUSD''"
      by (rule escrow_asset [OF ok unfulfil(6) \<open>live ls\<close>])
    then show ?thesis
      using H [of s] unfulfil msum_mdel [OF mw, of "?f s" "blk_Source b"]
      by (auto simp: total_supply_def PT pending_after_parts supply_change_def simp del: of_nat_unat split: if_splits)
  qed
qed

lemma write_escrow_ok:
  assumes k: "conserving l" and w: "commitBlockWrite c p l = (Inr (), l')" and co: "commit_ok l b c p"
    and bound: "total_supply ''XUSD'' l < 2 ^ 64"
  shows "escrow_ok l'"
proof -
  have ok: "ledger_ok l" and es: "escrow_ok l" using k by (simp_all add: conserving_def)
  note wf = write_facts [OF ok w co]
  have lo: "leases_ok l" and bo: "blocks_ok l" and bw: "balances_wf l" using ok by (simp_all add: ledger_ok_def maps_wf_def)
  note el = effect_leases [OF wf(2) lo bo] and ep = effect_pending [OF wf(2)]
  have old: "ls_Cost ls \<le> ps_Amount ps"
    if "mget (m_leases (l_store l)) h = Some ls" "live ls" "mget (m_pending (l_store l)) h = Some ps" for h ls ps
    using es that unfolding escrow_ok_def by blast
  have "ls_Cost ls \<le> ps_Amount ps"
    if L: "mget (m_leases (l_store l')) h = Some ls" "live ls" and P: "mget (m_pending (l_store l')) h = Some ps" for h ls ps
  proof (cases "lease_op (blk_Type b) \<and> h = blk_Source b")
    case True
    then obtain ls0 where ls0: "mget (m_leases (l_store l)) h = Some ls0" "live ls0"
      using effect_source [OF wf(2)] by blast
    obtain ls1 lb where ls1: "mget (m_blocks (l_store l)) h = Some lb" "lease_of ls1 lb" "mget (m_leases (l_store l')) h = Some ls1"
      "live ls1 \<longleftrightarrow> \<not> releases (blk_Type b)"
      using el(3) True unfolding wf(8) by metis
    have eq: "ls_Cost ls = ls_Cost ls0"
      using lo ls0(1) ls1 L(1) unfolding leases_ok_def lease_of_def by fastforce
    have nr: "\<not> releases (blk_Type b)" using ls1 L by simp
    obtain ps0 where ps0: "mget (m_pending (l_store l)) h = Some ps0" "ps_Asset ps0 = ''XUSD''"
      by (rule escrow_asset [OF ok ls0])
    have c0: "ls_Cost ls0 \<le> ps_Amount ps0" by (rule old [OF ls0 ps0(1)])
    have ne: "h \<noteq> blk_Hash b" using wf(12) True by simp
    show ?thesis
    proof (cases "blk_Type b = BlockLeaseRenew")
      case False
      then have "ps = ps0" using P ps0 nr ne by (simp add: wf(7) ep)
      then show ?thesis using c0 eq by simp
    next
      case r: True
      then have ps: "ps = ps0\<lparr>ps_Amount := ps_Amount ps0 + blk_Amount b\<rparr>" using P ps0 nr ne True by (auto simp: wf(7) ep)
      have "blk_Amount b \<le> old_balance l b" "blk_Asset b = ''XUSD''" using wf(2) r by (auto elim: effect.cases)
      then have "unat (ps_Amount ps0 + blk_Amount b) = unat (ps_Amount ps0) + unat (blk_Amount b)"
        using pending_le_total [OF ok ps0(1)] balance_le_held [OF bw, of "blk_Account b" "''XUSD''"] bound ps0(2)
        by (intro unat_add_u64) (simp add: total_supply_def word_le_nat_alt)
      then show ?thesis using c0 eq ps by (simp add: word_le_nat_alt)
    qed
  next
    case False
    show ?thesis
    proof (cases "blk_Type b = BlockLease \<and> h = blk_Hash b")
      case True
      then obtain ls1 where "lease_of ls1 b" "m_leases (l_store l') = mput (blk_Hash b) ls1 (m_leases (l_store l))"
        using el(2) unfolding wf(8) by blast
      then show ?thesis using True L P by (auto simp: wf(7) ep lease_of_def send_pending_def)
    next
      case f2: False
      have "mget (m_leases (l_store l)) h = Some ls"
      proof (cases "lease_op (blk_Type b)")
        case True
        then show ?thesis using el(3) False L(1) by (auto simp: wf(8))
      next
        case no: False
        then show ?thesis
          using el(1,2) [of "m_leases (l_store l)"] f2 L(1) by (cases "blk_Type b = BlockLease") (auto simp: wf(8))
      qed
      moreover have "mget (m_pending (l_store l)) h = Some ps"
        using P False f2 wf(11) calculation by (auto simp: wf(7) ep lease_op_def split: if_splits)
      ultimately show ?thesis using old L(2) by blast
    qed
  qed
  then show ?thesis unfolding escrow_ok_def by blast
qed

lemma write_accept_flat:
  assumes k: "conserving l" and w: "commitBlockWrite c p l = (Inr (), l')" and co: "commit_ok l b c p"
  shows "accept_flat l'"
proof -
  have ok: "ledger_ok l" and af: "accept_flat l" using k by (simp_all add: conserving_def)
  note wf = write_facts [OF ok w co]
  have ch: "chain_of l' x = (if x = blk_Account b then chain_of l x @ [b] else chain_of l x)" for x
    using written_store(2) [OF wf(1) w wf(5)] wf(4) by (simp add: chain_of_def extends_def)
  have new: "blk_Balance b = assetBalanceOnChain (chain_of l (blk_Account b)) (blk_Asset b)" if "blk_Type b = BlockLeaseAccept"
  proof -
    have "blk_Balance b = old_balance l b" using wf(2) that by (auto elim: effect.cases)
    then show ?thesis using ok wf(3) by (simp add: ledger_ok_def balances_ok_def fresh_def)
  qed
  show ?thesis
    using af new unfolding accept_flat_def ch by (auto simp: nth_append less_Suc_eq)
qed

section \<open>Taking back an acceptance\<close>

lemma settled_supply:
  assumes "settled l l'" "conserving l"
  shows "conserving l' \<and> total_supply s l' = total_supply s l \<and> m_pending (l_store l') = m_pending (l_store l) \<and>
    (\<forall>h. map_option ls_Cost (mget (m_leases (l_store l')) h) = map_option ls_Cost (mget (m_leases (l_store l)) h))"
  using assms(1)
proof cases
  case same
  from conserving_core [OF this] supply_core [OF this] core_eqD(3,6) [OF this] assms(2) show ?thesis by simp
next
  case (unaccept l0 a c u ap ls)
  have k0: "conserving l0" using conserving_core [OF unaccept(1)] assms(2) by simp
  then have ok0: "ledger_ok l0" by (simp add: conserving_def)
  have ok': "ledger_ok l'" using settled_ok [OF assms(1)] assms(2) by (simp add: conserving_def)
  note uf = undone_facts [OF ok0 unaccept(2) refl unaccept(3)]
  note um = undone_accept_maps [OF ok0 unaccept(2) refl unaccept(3,4,5)]
  let ?l = "undone u ap l0" and ?b = "last c"
  have cok: "chain_ok (l_store l0) a c" and bal: "balances_ok l0" and bw: "balances_wf l0"
    using ok0 unaccept(2) by (auto simp: ledger_ok_def chains_ok_def maps_wf_def)
  have ca: "chain_of l0 a = c" using chain_of_Some [OF unaccept(2)] .
  have cb: "butlast c @ [?b] = c" using cok by (simp add: chain_ok_def)
  have ne: "butlast c \<noteq> []"
  proof
    assume "butlast c = []"
    then have "hd c = ?b" using cb by (metis append_Nil list.sel(1))
    then show False using cok unaccept(4) by (simp add: chain_ok_def opens_def)
  qed
  have flat: "blk_Balance ?b = assetBalanceOnChain (butlast c) (blk_Asset ?b)"
    using k0 unaccept(4) ca cb cok unfolding conserving_def accept_flat_def
    by (auto simp: chain_ok_def last_conv_nth butlast_conv_take dest!: spec [of _ a] spec [of _ "length c - 1"])
  have va: "IsValidAsset (blk_Asset ?b)" using cok by (auto simp: chain_ok_def list_all_iff)
  have g: "getAssetBalance ?l x s = getAssetBalance l0 x s" for x s
  proof (cases "x = a \<and> s = assetOf ?b")
    case True
    then have "getAssetBalance l0 x s = assetBalanceOnChain c s" using bal ca va by (simp add: balances_ok_def)
    also have "\<dots> = blk_Balance ?b" using assetBalanceOnChain_snoc [of "butlast c" ?b s] True va unfolding cb by simp
    finally show ?thesis using True uf(7) [of x s] flat va by simp
  next
    case False
    then show ?thesis using uf(7) [of x s] ne by auto
  qed
  have "keys (l_assetBalances ?l) = keys (l_assetBalances l0)"
    using uf(8) ne bal unaccept(2) by (auto simp: balances_ok_def keys_iff)
  then have h: "held s ?l = held s l0" for s unfolding held_keys [OF uf(4)] held_keys [OF bw] g by simp
  have "total_supply s ?l = total_supply s l0" for s using h um(1) by (simp add: total_supply_def pending_total_def)
  moreover have "escrow_ok ?l"
    using k0 unaccept(5,6) unfolding conserving_def escrow_ok_def um by (auto simp: unaccepted_def live_def)
  moreover have "accept_flat ?l"
    using k0 ca unfolding conserving_def accept_flat_def uf(6)
    by (auto simp: nth_butlast butlast_conv_take min_def)
  moreover have "ledger_ok ?l" using ledger_ok_core [OF unaccept(8)] ok' by simp
  ultimately show ?thesis
    using conserving_core [OF unaccept(8)] supply_core [OF unaccept(8)] core_eqD(3,6) [OF unaccept(8)]
      supply_core [OF unaccept(1)] core_eqD(3,6) [OF unaccept(1)] um unaccept(5)
    by (auto simp: conserving_def unaccepted_def)
qed

lemma advances_supply:
  assumes "advances bo l l'" "conserving l" "total_supply ''XUSD'' l < 2 ^ 64"
  shows "conserving l' \<and>
    int (total_supply s l') = int (total_supply s l) + (case bo of None \<Rightarrow> 0 | Some b \<Rightarrow> supply_change l b s)"
  using assms(1)
proof cases
  case stay
  then show ?thesis using settled_supply [OF _ assms(2)] by simp
next
  case (writes l1 b c p l2)
  note s1 = settled_supply [OF writes(2) assms(2)]
  have k1: "conserving l1" and b1: "total_supply ''XUSD'' l1 < 2 ^ 64" using s1 assms(3) by auto
  have ch: "supply_change l1 b s = supply_change l b s"
    using s1 unfolding supply_change_def escrow_def lease_cost_of_def
    by (auto split: block_type.splits option.splits) (metis option.map(1,2) option.distinct(1) option.inject)+
  have "ledger_ok l2" using write_ledger_ok [OF _ writes(4,3)] k1 by (simp add: conserving_def)
  then have "conserving l2"
    using write_escrow_ok [OF k1 writes(4,3) b1] write_accept_flat [OF k1 writes(4,3)] by (simp add: conserving_def)
  then show ?thesis
    using write_supply [OF k1 writes(4,3) b1, of s] s1 ch conserving_core [OF writes(5)] supply_core [OF writes(5)] writes(1)
    by simp
qed

section \<open>Conservation\<close>


lemma sample_conserving: "conserving sample_ledger" "total_supply ''XUSD'' sample_ledger < 2 ^ 64"
  using sample_ledger_ok
  by (auto simp: conserving_def escrow_ok_def accept_flat_def chain_of_def mdef_def total_supply_def held_def pending_total_def
      sample_genesis_def zero_block_def split: if_splits)


end
