(* ===== verification/XE_Amount.thy ===== *)
theory XE_Amount
  imports XE_Prelude
begin

unbundle bit_operations_syntax

text \<open>
  Amounts as text (\<open>core/amount.go\<close>): the parser and the printers of decimal amounts of
  an asset, and the 64-bit product with its high word that the parser uses to detect an
  overflow. The parser accepts exactly the decimal numbers that fit, and reads back what
  the printers print.
\<close>

section \<open>The standard library's decimal numbers\<close>

definition allDigits :: "string \<Rightarrow> bool" where
  "allDigits s \<longleftrightarrow> list_all (\<lambda>c. CHR ''0'' \<le> c \<and> c \<le> CHR ''9'') s"

definition digit_value :: "char \<Rightarrow> nat" where
  "digit_value c = of_char c - 48"

definition decimal_value :: "string \<Rightarrow> nat" where
  "decimal_value s = foldl (\<lambda>n c. 10 * n + digit_value c) 0 s"

text \<open>\<open>strconv.ParseUint(s, 10, 64)\<close> and \<open>strconv.FormatUint(x, 10)\<close>.\<close>

definition ParseUint :: "string \<Rightarrow> u64 result" where
  "ParseUint s =
     (if s = [] \<or> \<not> allDigits s then Err ''invalid syntax''
      else if 2 ^ 64 \<le> decimal_value s then Err ''value out of range''
      else Inr (of_nat (decimal_value s)))"

fun decimal :: "nat \<Rightarrow> string" where
  "decimal n = (if n < 10 then [char_of (48 + n)] else decimal (n div 10) @ [char_of (48 + n mod 10)])"

definition FormatUint :: "u64 \<Rightarrow> string" where
  "FormatUint x = decimal (unat x)"

declare decimal.simps [simp del]

text \<open>\<open>strings.TrimRight(s, "0")\<close>.\<close>

definition trim_zeros :: "string \<Rightarrow> string" where
  "trim_zeros s = rev (dropWhile (\<lambda>c. c = CHR ''0'') (rev s))"

section \<open>Assets\<close>

record asset_config =
  ac_Symbol :: string
  ac_Decimals :: "8 word"
  ac_UnitsPerToken :: u64

definition AssetXE :: asset_config where
  "AssetXE = \<lparr>ac_Symbol = ''XE'', ac_Decimals = 6, ac_UnitsPerToken = 1000000\<rparr>"

definition AssetXUSD :: asset_config where
  "AssetXUSD = \<lparr>ac_Symbol = ''XUSD'', ac_Decimals = 6, ac_UnitsPerToken = 1000000\<rparr>"

definition AssetByName :: "string \<Rightarrow> asset_config option" where
  "AssetByName symbol =
     (if symbol = ac_Symbol AssetXE then Some AssetXE
      else if symbol = ac_Symbol AssetXUSD then Some AssetXUSD
      else None)"

section \<open>Parsing and printing\<close>

definition mul64 :: "u64 \<Rightarrow> u64 \<Rightarrow> u64 \<times> u64" where
  "mul64 a b =
     (let mask32 = 0xffffffff;
          aLo = a AND mask32; aHi = drop_bit 32 a;
          bLo = b AND mask32; bHi = drop_bit 32 b;
          w0 = aLo * bLo;
          t = aHi * bLo + drop_bit 32 w0;
          w1 = t AND mask32;
          w2 = drop_bit 32 t;
          w1' = w1 + aLo * bHi
      in (aHi * bHi + w2 + drop_bit 32 w1', a * b))"

definition addOverflow64 :: "u64 \<Rightarrow> u64 \<Rightarrow> u64 \<times> bool" where
  "addOverflow64 a b = (let sum = a + b in (sum, sum < a))"

definition ErrAmountNegative :: error where
  "ErrAmountNegative = Error ''amount must be non-negative''"

definition ErrAmountFormat :: error where
  "ErrAmountFormat = Error ''amount must be a non-negative decimal''"

definition ErrAmountPrecision :: error where
  "ErrAmountPrecision = Error ''amount exceeds asset decimal precision: %s allows %d, got %d''"

definition ErrAmountOverflow :: error where
  "ErrAmountOverflow = Error ''amount overflows uint64 micro-units''"

text \<open>The value of the digits \<open>w\<close> before and \<open>f\<close> after the point.\<close>

definition parse_tail :: "asset_config \<Rightarrow> string \<Rightarrow> string \<Rightarrow> u64 result" where
  "parse_tail A w f =
     (case ParseUint w of
        Inl _ \<Rightarrow> Inl ErrAmountOverflow
      | Inr wholeVal \<Rightarrow>
          let d = unat (ac_Decimals A);
              f1 = (if length f < d then f @ replicate (d - length f) CHR ''0'' else f)
          in case (if f1 \<noteq> [] then ParseUint f1 else Inr 0) of
               Inl _ \<Rightarrow> Inl ErrAmountFormat
             | Inr fracVal \<Rightarrow>
                 let (hi, lo) = mul64 wholeVal (ac_UnitsPerToken A)
                 in if hi \<noteq> 0 then Inl ErrAmountOverflow
                    else let (total, carry) = addOverflow64 lo fracVal
                         in if carry then Inl ErrAmountOverflow else Inr total)"

definition ParseAmount :: "string \<Rightarrow> asset_config \<Rightarrow> u64 result" where
  "ParseAmount s asset =
     (if s = [] then Inl ErrAmountFormat
      else if s ! 0 = CHR ''-'' then Inl ErrAmountNegative
      else if s ! 0 = CHR ''+'' then Inl ErrAmountFormat
      else
      let decimals = unat (ac_Decimals asset);
          (whole, frac, hasDot) =
            (case first_index (\<lambda>c. c = CHR ''.'') s of
               Some i \<Rightarrow> (take i s, drop (i + 1) s, True)
             | None \<Rightarrow> (s, [], False))
      in if hasDot \<and> whole = [] then Inl ErrAmountFormat
         else if hasDot \<and> frac = [] then Inl ErrAmountFormat
         else if length frac > decimals then Inl ErrAmountPrecision
         else if \<not> allDigits whole \<or> \<not> allDigits frac then Inl ErrAmountFormat
         else parse_tail asset whole frac)"

definition FormatAmount :: "u64 \<Rightarrow> asset_config \<Rightarrow> string" where
  "FormatAmount micro asset =
     (let decimals = unat (ac_Decimals asset);
          whole = micro div ac_UnitsPerToken asset;
          frac = micro mod ac_UnitsPerToken asset
      in if frac = 0 then FormatUint whole
         else let fracStr = FormatUint frac;
                  fracStr1 = (if length fracStr < decimals
                              then replicate (decimals - length fracStr) CHR ''0'' @ fracStr else fracStr)
              in FormatUint whole @ ''.'' @ trim_zeros fracStr1)"

definition FormatAmountFixed :: "u64 \<Rightarrow> asset_config \<Rightarrow> string" where
  "FormatAmountFixed micro asset =
     (let decimals = unat (ac_Decimals asset);
          whole = micro div ac_UnitsPerToken asset;
          frac = micro mod ac_UnitsPerToken asset;
          fracStr = FormatUint frac;
          fracStr1 = (if length fracStr < decimals
                      then replicate (decimals - length fracStr) CHR ''0'' @ fracStr else fracStr)
      in FormatUint whole @ ''.'' @ fracStr1)"

definition MustParseAmount :: "string \<Rightarrow> asset_config \<Rightarrow> u64 result" where
  "MustParseAmount s asset =
     (case ParseAmount s asset of Inl e \<Rightarrow> Panic ''MustParseAmount(%q, %s): %v'' | Inr v \<Rightarrow> Inr v)"

section \<open>Digits\<close>

lemma allDigits_simps [simp]:
  "allDigits []" "allDigits (s @ t) \<longleftrightarrow> allDigits s \<and> allDigits t"
  "allDigits (c # s) \<longleftrightarrow> CHR ''0'' \<le> c \<and> c \<le> CHR ''9'' \<and> allDigits s"
  by (simp_all add: allDigits_def)

lemma digit_bounds: "CHR ''0'' \<le> c \<longleftrightarrow> 48 \<le> (of_char c :: nat)" "c \<le> CHR ''9'' \<longleftrightarrow> (of_char c :: nat) \<le> 57"
  by (simp_all add: less_eq_char_def)

lemma digit_value_digit [simp]: "n < 10 \<Longrightarrow> digit_value (char_of (48 + n :: nat)) = n"
  by (simp add: digit_value_def)

lemma digit_digit [simp]:
  "n < 10 \<Longrightarrow> CHR ''0'' \<le> char_of (48 + n :: nat)" "n < 10 \<Longrightarrow> char_of (48 + n :: nat) \<le> CHR ''9''"
  by (simp_all add: digit_bounds)

lemma decimal_value_simps [simp]:
  "decimal_value [] = 0" "decimal_value (s @ [c]) = 10 * decimal_value s + digit_value c"
  by (simp_all add: decimal_value_def)

lemma decimal_value_append: "decimal_value (s @ t) = decimal_value s * 10 ^ length t + decimal_value t"
  by (induction t rule: rev_induct) (simp_all add: algebra_simps flip: append_assoc)

lemma decimal_value_zeros [simp]: "decimal_value (replicate n CHR ''0'') = 0"
proof (induction n)
  case (Suc n)
  then show ?case
    using decimal_value_simps(2) [of "replicate n CHR ''0''" "CHR ''0''"]
    by (simp add: replicate_append_same [symmetric] digit_value_def del: decimal_value_simps)
qed simp

lemma allDigits_zeros [simp]: "allDigits (replicate n CHR ''0'')"
  by (induction n) (auto simp: digit_bounds)

lemma digit_value_le: "CHR ''0'' \<le> c \<Longrightarrow> c \<le> CHR ''9'' \<Longrightarrow> digit_value c \<le> 9"
  by (simp add: digit_bounds digit_value_def)

lemma decimal_value_less: "allDigits s \<Longrightarrow> decimal_value s < 10 ^ length s"
proof (induction s rule: rev_induct)
  case (snoc c s)
  then show ?case using digit_value_le [of c] by simp
qed simp

lemma decimal_nonempty [simp]: "decimal n \<noteq> []"
  by (subst decimal.simps) simp

lemma decimal_correct [simp]: "decimal_value (decimal n) = n" "allDigits (decimal n)"
proof (induction n rule: decimal.induct)
  case (1 n)
  { case 1 then show ?case using "1.IH" by (subst decimal.simps) (auto simp: decimal_value_def) }
  { case 2 then show ?case using "1.IH" by (subst decimal.simps) auto }
qed

lemma length_decimal: "n < 10 ^ d \<Longrightarrow> 0 < d \<Longrightarrow> length (decimal n) \<le> d"
proof (induction d arbitrary: n)
  case (Suc d)
  show ?case
  proof (cases "n < 10")
    case False
    then have "n div 10 < 10 ^ d" "0 < d"
      using Suc.prems by (auto simp: less_mult_imp_div_less mult.commute intro: gr0I)
    then show ?thesis using Suc.IH [of "n div 10"] False by (subst decimal.simps) simp
  qed (subst decimal.simps, simp)
qed simp


section \<open>The 64-bit product\<close>

lemma low_half: "unat (a AND 0xffffffff :: u64) = unat a mod 2 ^ 32"
proof -
  have "(0xffffffff :: u64) = mask 32" by (simp add: mask_eq_exp_minus_1)
  then have "a AND 0xffffffff = take_bit 32 a" by (simp add: take_bit_eq_mask)
  then show ?thesis by (simp add: unat_mod take_bit_eq_mod)
qed

lemma high_half: "unat (drop_bit 32 a :: u64) = unat a div 2 ^ 32"
  by (simp add: unat_div drop_bit_eq_div)

lemma schoolbook_product:
  fixes A B :: nat
  defines "t \<equiv> A div 2 ^ 32 * (B mod 2 ^ 32) + A mod 2 ^ 32 * (B mod 2 ^ 32) div 2 ^ 32"
  shows "A * B div 2 ^ 64 = A div 2 ^ 32 * (B div 2 ^ 32) + t div 2 ^ 32 + (t mod 2 ^ 32 + A mod 2 ^ 32 * (B div 2 ^ 32)) div 2 ^ 32"
    (is "_ = ?h")
proof -
  define w where "w = 2 ^ (32 :: nat) * (1 :: nat)"
  define aL aH bL bH where "aL = A mod w" "aH = A div w" "bL = B mod w" "bH = B div w"
  define r where "r = (t mod w + aL * bH) mod w"
  define r0 where "r0 = aL * bL mod w"
  have w: "0 < w" "2 ^ 64 = w * w" by (simp_all add: w_def)
  have A: "A = aH * w + aL" and B: "B = bH * w + bL" by (simp_all add: aL_aH_bL_bH_def)
  have s: "t = aH * bL + aL * bL div w" by (simp add: t_def aL_aH_bL_bH_def w_def)
  have h: "?h = aH * bH + t div w + (t mod w + aL * bH) div w"
    by (simp add: aL_aH_bL_bH_def w_def)
  have "A * B = aH * bH * (w * w) + w * (aH * bL + aL * bH) + aL * bL"
    by (simp add: A B algebra_simps)
  also have "aL * bL = w * (aL * bL div w) + r0" by (simp add: r0_def)
  also have "aH * bH * (w * w) + w * (aH * bL + aL * bH) + (w * (aL * bL div w) + r0) =
      aH * bH * (w * w) + w * (t + aL * bH) + r0" by (simp add: s algebra_simps)
  also have "t + aL * bH = w * (t div w) + (t mod w + aL * bH)" by simp
  also have "t mod w + aL * bH = w * ((t mod w + aL * bH) div w) + r" by (simp add: r_def)
  also have "aH * bH * (w * w) + w * (w * (t div w) + (w * ((t mod w + aL * bH) div w) + r)) + r0 =
      ?h * (w * w) + (w * r + r0)" unfolding h by (simp add: algebra_simps)
  finally have e: "A * B = ?h * (w * w) + (w * r + r0)" .
  have "r < w" "r0 < w" using w(1) by (simp_all add: r_def r0_def)
  then have "r \<le> w - 1" "r0 < w" by simp_all
  then have "w * r + r0 < w * (w - 1) + w" by (meson add_le_less_mono mult_le_mono2)
  also have "\<dots> = w * w" using w(1) by (cases w) (auto simp: algebra_simps)
  finally show ?thesis unfolding w(2) using e w(1) by simp
qed

lemma half_product: "x < 2 ^ 32 \<Longrightarrow> y < 2 ^ 32 \<Longrightarrow> x * y + (2 ^ 32 - 1) < (2 :: nat) ^ 64"
proof -
  assume "x < 2 ^ 32" "y < 2 ^ 32"
  then have "x * y \<le> (2 ^ 32 - 1) * (2 ^ 32 - 1)" by (intro mult_le_mono) simp_all
  then show ?thesis by simp
qed

lemma half_sum:
  assumes "x < 2 ^ 32" "y < 2 ^ 32" "z < 2 ^ 32"
  shows "x * y + z < (2 :: nat) ^ 64"
  using half_product [OF assms(1,2)] assms(3) by simp

lemma half_lt: "(x :: nat) < 2 ^ 64 \<Longrightarrow> x div 2 ^ 32 < 2 ^ 32"
  by (simp add: less_mult_imp_div_less)

lemma mul64_exact:
  "unat (fst (mul64 a b)) * 2 ^ 64 + unat (snd (mul64 a b)) = unat a * unat b"
proof -
  let ?A = "unat a" and ?B = "unat b"
  have lo: "unat (x AND 0xffffffff) < 2 ^ 32" and hi: "unat (drop_bit 32 x) < 2 ^ 32" for x :: u64
    using half_lt [OF unat_u64_lt [of x]] by (simp_all add: low_half high_half del: power_numeral)
  define w0 where "w0 = (a AND 0xffffffff) * (b AND 0xffffffff)"
  define t where "t = drop_bit 32 a * (b AND 0xffffffff) + drop_bit 32 w0"
  define w1 where "w1 = (t AND 0xffffffff) + (a AND 0xffffffff) * drop_bit 32 b"
  define h where "h = drop_bit 32 a * drop_bit 32 b + drop_bit 32 t + drop_bit 32 w1"
  have p: "unat (x * y) = unat x * unat y" if "unat x < 2 ^ 32" "unat y < 2 ^ 32" for x y :: u64
    using half_sum [OF that, of 0] by (intro unat_mult_u64) simp
  have ps: "unat (x * y + z) = unat x * unat y + unat z"
    if "unat x < 2 ^ 32" "unat y < 2 ^ 32" "unat z < 2 ^ 32" for x y z :: u64
    using half_sum [OF that] p [OF that(1,2)] by (simp add: unat_add_u64 del: power_numeral)
  have e0: "unat w0 = ?A mod 2 ^ 32 * (?B mod 2 ^ 32)"
    unfolding w0_def p [OF lo lo] by (simp only: low_half)
  have et: "unat t = ?A div 2 ^ 32 * (?B mod 2 ^ 32) + ?A mod 2 ^ 32 * (?B mod 2 ^ 32) div 2 ^ 32"
    unfolding t_def ps [OF hi lo hi] by (simp only: low_half high_half e0)
  have e1: "unat w1 = unat t mod 2 ^ 32 + ?A mod 2 ^ 32 * (?B div 2 ^ 32)"
    unfolding w1_def using ps [OF lo hi lo, of a b t] by (simp only: low_half high_half add.commute)
  have s: "?A * ?B div 2 ^ 64 = ?A div 2 ^ 32 * (?B div 2 ^ 32) + unat t div 2 ^ 32 + unat w1 div 2 ^ 32"
    unfolding schoolbook_product et [symmetric] e1 by simp
  have "?A * ?B < 2 ^ 64 * 2 ^ 64"
    by (intro mult_strict_mono) (use unat_u64_lt [of a] unat_u64_lt [of b] in simp_all)
  then have "?A * ?B div 2 ^ 64 < 2 ^ 64" by (simp add: less_mult_imp_div_less)
  then have "unat h = ?A * ?B div 2 ^ 64"
    unfolding h_def s by (simp add: unat_add_u64 p [OF hi hi] high_half del: power_numeral)
  moreover have "mul64 a b = (h, a * b)"
    by (simp add: mul64_def Let_def h_def w1_def t_def w0_def)
  moreover have "unat (a * b) = ?A * ?B mod 2 ^ 64" by (simp add: unat_word_ariths)
  ultimately show ?thesis by simp
qed


section \<open>What the parser accepts\<close>

text \<open>An asset whose smallest unit is the last of its decimals.\<close>

definition decimal_asset :: "asset_config \<Rightarrow> bool" where
  "decimal_asset A \<longleftrightarrow> unat (ac_UnitsPerToken A) = 10 ^ unat (ac_Decimals A)"

text \<open>\<open>s\<close> is the number with the digits \<open>w\<close> before and \<open>f\<close> after the point.\<close>

definition amount_text :: "string \<Rightarrow> string \<Rightarrow> string \<Rightarrow> bool" where
  "amount_text s w f \<longleftrightarrow>
     s = (if f = [] then w else w @ ''.'' @ f) \<and> w \<noteq> [] \<and> allDigits w \<and> allDigits f"

definition amount_value :: "nat \<Rightarrow> string \<Rightarrow> string \<Rightarrow> nat" where
  "amount_value d w f = decimal_value w * 10 ^ d + decimal_value f * 10 ^ (d - length f)"

lemma ParseUint_digits:
  "s \<noteq> [] \<Longrightarrow> allDigits s \<Longrightarrow> ParseUint s =
     (if decimal_value s < 2 ^ 64 then Inr (of_nat (decimal_value s)) else Err ''value out of range'')"
  by (simp add: ParseUint_def not_le)

lemma mul64_cases:
  "mul64 a b = (hi, lo) \<Longrightarrow> hi = 0 \<longleftrightarrow> unat a * unat b < 2 ^ 64"
  "mul64 a b = (hi, lo) \<Longrightarrow> hi = 0 \<Longrightarrow> unat lo = unat a * unat b"
proof -
  assume m: "mul64 a b = (hi, lo)"
  then have e: "unat hi * 2 ^ 64 + unat lo = unat a * unat b" using mul64_exact [of a b] by simp
  have z: "hi = 0 \<longleftrightarrow> unat hi = 0" by (simp add: unat_eq_zero)
  show "hi = 0 \<longleftrightarrow> unat a * unat b < 2 ^ 64"
    unfolding z e [symmetric] using unat_u64_lt [of lo] by (cases "unat hi") auto
  show "hi = 0 \<Longrightarrow> unat lo = unat a * unat b" using e by simp
qed

lemma parse_tail_exact:
  assumes A: "decimal_asset A" and w: "w \<noteq> []" "allDigits w" and f: "allDigits f" "length f \<le> unat (ac_Decimals A)"
  defines "n \<equiv> amount_value (unat (ac_Decimals A)) w f"
  shows "parse_tail A w f = (if n < 2 ^ 64 then Inr (of_nat n) else Inl ErrAmountOverflow)"
proof -
  let ?d = "unat (ac_Decimals A)"
  define f1 where "f1 = (if length f < ?d then f @ replicate (?d - length f) CHR ''0'' else f)"
  have f1: "allDigits f1" "length f1 = ?d" "decimal_value f1 = decimal_value f * 10 ^ (?d - length f)"
    using f by (auto simp: f1_def decimal_value_append)
  have u: "10 ^ ?d < (2 :: nat) ^ 64" using A unat_u64_lt [of "ac_UnitsPerToken A"] by (simp add: decimal_asset_def)
  have F: "(if f1 \<noteq> [] then ParseUint f1 else Inr 0) = Inr (of_nat (decimal_value f1))"
    using decimal_value_less [OF f1(1)] f1(1,2) u by (simp add: ParseUint_digits)
  have uf: "unat (of_nat (decimal_value f1) :: u64) = decimal_value f1"
    using decimal_value_less [OF f1(1)] f1(2) u by (simp add: unat_of_nat)
  have n: "n = decimal_value w * 10 ^ ?d + decimal_value f1" by (simp add: n_def amount_value_def f1)
  show ?thesis
  proof (cases "decimal_value w < 2 ^ 64")
    case False
    then have "2 ^ 64 \<le> decimal_value w * 10 ^ ?d" 
      using mult_le_mono [of "2 ^ 64" "decimal_value w" 1 "10 ^ ?d"] by simp
    then have "\<not> n < 2 ^ 64" using n by linarith
    with False w show ?thesis by (simp add: parse_tail_def ParseUint_digits)
  next
    case True
    let ?W = "of_nat (decimal_value w) :: u64"
    obtain hi lo where m: "mul64 ?W (ac_UnitsPerToken A) = (hi, lo)" by (metis surj_pair)
    have uw: "unat ?W * unat (ac_UnitsPerToken A) = decimal_value w * 10 ^ ?d"
      using True A by (simp add: unat_of_nat decimal_asset_def)
    have "parse_tail A w f =
        (if hi \<noteq> 0 then Inl ErrAmountOverflow
         else if lo + of_nat (decimal_value f1) < lo then Inl ErrAmountOverflow else Inr (lo + of_nat (decimal_value f1)))"
      using w True F m unfolding f1_def by (simp add: parse_tail_def ParseUint_digits Let_def addOverflow64_def)
    moreover have "hi \<noteq> 0 \<Longrightarrow> \<not> n < 2 ^ 64" using mul64_cases(1) [OF m] uw n by simp
    moreover have "lo + of_nat (decimal_value f1) < lo \<longleftrightarrow> \<not> n < 2 ^ 64" "lo + of_nat (decimal_value f1) = of_nat n"
      if "hi = 0"
    proof -
      have l: "unat lo = decimal_value w * 10 ^ ?d" using mul64_cases(2) [OF m that] uw by simp
      have "of_nat (unat lo) = lo" by simp
      then have "lo = of_nat (decimal_value w * 10 ^ ?d)" unfolding l by simp
      then show "lo + of_nat (decimal_value f1) < lo \<longleftrightarrow> \<not> n < 2 ^ 64" "lo + of_nat (decimal_value f1) = of_nat n"
        unfolding add_no_wrap_iff uf l using n by (auto simp: not_less)
    qed
    ultimately show ?thesis by auto
  qed
qed

lemma digits_no_mark:
  assumes "allDigits w"
  shows "CHR ''.'' \<notin> set w" "CHR ''-'' \<notin> set w" "CHR ''+'' \<notin> set w"
  using assms by (induction w) (auto simp: digit_bounds)

lemma first_index_dot:
  "CHR ''.'' \<notin> set w \<Longrightarrow> first_index (\<lambda>c. c = CHR ''.'') (w @ CHR ''.'' # f) = Some (length w)"
  "CHR ''.'' \<notin> set w \<Longrightarrow> first_index (\<lambda>c. c = CHR ''.'') w = None"
  by (induction w) auto

lemma ParseAmount_text:
  assumes "amount_text s w f" "length f \<le> unat (ac_Decimals A)"
  shows "ParseAmount s A = parse_tail A w f"
proof -
  have w: "w \<noteq> []" "allDigits w" "allDigits f" and s: "s = (if f = [] then w else w @ ''.'' @ f)"
    using assms(1) by (simp_all add: amount_text_def)
  have h: "s ! 0 \<in> set w" "s \<noteq> []" using w(1) by (auto simp: s nth_append)
  have "(case first_index (\<lambda>c. c = CHR ''.'') s of
           Some i \<Rightarrow> (take i s, drop (i + 1) s, True) | None \<Rightarrow> (s, [], False)) = (w, f, f \<noteq> [])"
    using digits_no_mark(1) [OF w(2)] by (simp add: s first_index_dot)
  moreover have "s ! 0 \<noteq> CHR ''-''" "s ! 0 \<noteq> CHR ''+''" using h digits_no_mark [OF w(2)] by metis+
  ultimately show ?thesis
    using h w assms(2) unfolding ParseAmount_def by (simp add: Let_def)
qed

lemma ParseAmount_accepts_text:
  assumes "ParseAmount s A = Inr v"
  shows "\<exists>w f. amount_text s w f \<and> length f \<le> unat (ac_Decimals A)"
proof (cases "first_index (\<lambda>c. c = CHR ''.'') s")
  case None
  then have "amount_text s s []"
    using assms unfolding amount_text_def ParseAmount_def by (simp add: Let_def split: if_splits)
  then show ?thesis by fastforce
next
  case (Some i)
  then have i: "i < length s" "s ! i = CHR ''.''" using first_index_SomeD [OF Some] by auto
  have p: "take i s \<noteq> []" "drop (i + 1) s \<noteq> []" "allDigits (take i s)" "allDigits (drop (i + 1) s)"
    "length (drop (i + 1) s) \<le> unat (ac_Decimals A)"
    using assms Some unfolding ParseAmount_def by (simp_all add: Let_def split: if_splits)
  have "s = take i s @ ''.'' @ drop (i + 1) s" using id_take_nth_drop [OF i(1)] i(2) by simp
  then have "amount_text s (take i s) (drop (i + 1) s)" unfolding amount_text_def using p by presburger
  with p(5) show ?thesis by blast
qed

lemma ParseAmount_value:
  assumes "decimal_asset A" "amount_text s w f" "length f \<le> unat (ac_Decimals A)"
  shows "ParseAmount s A = Inr v \<longleftrightarrow> unat v = amount_value (unat (ac_Decimals A)) w f"
proof -
  have eq: "(if n < 2 ^ 64 then Inr (of_nat n) else Inl ErrAmountOverflow) = Inr v \<longleftrightarrow> unat v = n" for n
    using unat_u64_lt [of v] by (auto simp: unat_of_nat)
  show ?thesis
    using assms parse_tail_exact [OF assms(1), of w f] unfolding ParseAmount_text [OF assms(2,3)] amount_text_def
    by (simp only: eq simp_thms)
qed

text \<open>
  C34. The parser accepts exactly the decimal numbers with at least one digit before the
  point, no more digits after it than the asset has decimals, and a value of less than
  \<open>2 ^ 64\<close> of the smallest units; it returns that value. No product or sum wraps.
\<close>

theorem ParseAmount_iff:
  assumes "decimal_asset A"
  shows "ParseAmount s A = Inr v \<longleftrightarrow>
    (\<exists>w f. amount_text s w f \<and> length f \<le> unat (ac_Decimals A) \<and>
       unat v = amount_value (unat (ac_Decimals A)) w f)"
  using ParseAmount_value [OF assms] ParseAmount_accepts_text by blast

theorem ParseAmount_iff_witness:
  "ParseAmount ''1.5'' AssetXUSD = Inr 1500000 \<and> ParseAmount ''1.0000001'' AssetXUSD \<noteq> Inr 1000000"
proof -
  have A: "decimal_asset AssetXUSD" by (simp add: decimal_asset_def AssetXUSD_def)
  have "amount_text ''1.5'' ''1'' ''5''" by (simp add: amount_text_def digit_bounds)
  then have "ParseAmount ''1.5'' AssetXUSD = Inr 1500000"
    using ParseAmount_iff [OF A, of "''1.5''" 1500000]
    by (force simp: amount_value_def AssetXUSD_def decimal_value_def digit_value_def)
  moreover have "ParseAmount ''1.0000001'' AssetXUSD \<noteq> Inr 1000000"
    by (simp add: ParseAmount_def AssetXUSD_def)
  ultimately show ?thesis by blast
qed

section \<open>Reading back what was printed\<close>

lemma takeWhile_zeros:
  "takeWhile (\<lambda>c. c = CHR ''0'') xs = replicate (length (takeWhile (\<lambda>c. c = CHR ''0'') xs)) CHR ''0''"
  by (induction xs) simp_all

lemma trim_zeros_split: "s = trim_zeros s @ replicate (length s - length (trim_zeros s)) CHR ''0''"
proof -
  let ?z = "takeWhile (\<lambda>c. c = CHR ''0'') (rev s)"
  have "rev s = ?z @ dropWhile (\<lambda>c. c = CHR ''0'') (rev s)" by simp
  then have s: "s = trim_zeros s @ rev ?z" unfolding trim_zeros_def by (metis rev_append rev_rev_ident)
  have "?z = replicate (length ?z) CHR ''0''" by (rule takeWhile_zeros)
  then have "rev ?z = replicate (length ?z) CHR ''0''" by (metis rev_replicate)
  moreover have "length ?z = length s - length (trim_zeros s)"
    using arg_cong [where f = length, OF s] by simp
  ultimately show ?thesis using s by simp
qed

lemma trim_zeros_value:
  "decimal_value s = decimal_value (trim_zeros s) * 10 ^ (length s - length (trim_zeros s))"
  using decimal_value_append [of "trim_zeros s" "replicate (length s - length (trim_zeros s)) CHR ''0''"]
    trim_zeros_split [of s] by simp

lemma trim_zeros_digits: "allDigits s \<Longrightarrow> allDigits (trim_zeros s)" "length (trim_zeros s) \<le> length s"
  using trim_zeros_split [of s] by (metis allDigits_simps(2), metis le_add1 length_append)

definition padded :: "nat \<Rightarrow> string \<Rightarrow> string" where
  "padded d s = (if length s < d then replicate (d - length s) CHR ''0'' @ s else s)"

lemma padded_decimal:
  assumes "n < 10 ^ d" "0 < d"
  shows "length (padded d (decimal n)) = d" "decimal_value (padded d (decimal n)) = n" "allDigits (padded d (decimal n))"
  using length_decimal [OF assms] by (auto simp: padded_def decimal_value_append)


lemma split_amount:
  assumes "decimal_asset A"
  shows "unat (v mod ac_UnitsPerToken A) < 10 ^ unat (ac_Decimals A)"
    "unat v = unat (v div ac_UnitsPerToken A) * 10 ^ unat (ac_Decimals A) + unat (v mod ac_UnitsPerToken A)"
  using assms unfolding decimal_asset_def unat_div unat_mod by (simp, metis div_mult_mod_eq)

lemma printed_amount:
  assumes A: "decimal_asset A" "0 < ac_Decimals A"
    and f: "allDigits f" "f \<noteq> []" "length f \<le> unat (ac_Decimals A)"
    and v: "decimal_value f * 10 ^ (unat (ac_Decimals A) - length f) = unat (v mod ac_UnitsPerToken A)"
  shows "ParseAmount (FormatUint (v div ac_UnitsPerToken A) @ ''.'' @ f) A = Inr v"
proof -
  have "amount_text (FormatUint (v div ac_UnitsPerToken A) @ ''.'' @ f) (FormatUint (v div ac_UnitsPerToken A)) f"
    using f by (simp add: amount_text_def FormatUint_def)
  then show ?thesis
    using ParseAmount_value [OF A(1) _ f(3)] v split_amount(2) [OF A(1), of v]
    by (simp add: amount_value_def FormatUint_def)
qed

text \<open>
  C35. Reading back an amount that \<open>FormatAmount\<close> or \<open>FormatAmountFixed\<close> printed gives
  the amount, for every asset whose unit is the last of its decimals.
\<close>

theorem ParseAmount_FormatAmount:
  assumes A: "decimal_asset A" "0 < ac_Decimals A"
  shows "ParseAmount (FormatAmount v A) A = Inr v \<and> ParseAmount (FormatAmountFixed v A) A = Inr v"
proof
  let ?d = "unat (ac_Decimals A)"
  define r where "r = v mod ac_UnitsPerToken A"
  define f where "f = padded ?d (FormatUint r)"
  have d: "0 < ?d" using A(2) by (simp add: word_less_nat_alt)
  have f: "length f = ?d" "decimal_value f = unat r" "allDigits f" "f \<noteq> []"
    using padded_decimal [OF split_amount(1) [OF A(1), of v] d] d by (auto simp: f_def r_def FormatUint_def)
  show "ParseAmount (FormatAmountFixed v A) A = Inr v"
    using printed_amount [OF A f(3,4), of v] f
    by (simp add: FormatAmountFixed_def Let_def padded_def [symmetric] f_def [symmetric] r_def [symmetric])
  show "ParseAmount (FormatAmount v A) A = Inr v"
  proof (cases "r = 0")
    case True
    have "amount_text (FormatUint (v div ac_UnitsPerToken A)) (FormatUint (v div ac_UnitsPerToken A)) []"
      by (simp add: amount_text_def FormatUint_def)
    moreover have "FormatAmount v A = FormatUint (v div ac_UnitsPerToken A)"
      using True by (simp add: FormatAmount_def Let_def r_def)
    ultimately show ?thesis
      using ParseAmount_value [OF A(1), where v = v and f = "[]"] split_amount(2) [OF A(1), of v] True
      by (simp add: amount_value_def FormatUint_def r_def)
  next
    case False
    then have "decimal_value f \<noteq> 0" by (simp add: f unat_eq_zero)
    then have "trim_zeros f \<noteq> []" using trim_zeros_value [of f] by auto
    moreover have "FormatAmount v A = FormatUint (v div ac_UnitsPerToken A) @ ''.'' @ trim_zeros f"
      using False by (simp add: FormatAmount_def Let_def padded_def [symmetric] f_def [symmetric] r_def [symmetric])
    ultimately show ?thesis
      using printed_amount [OF A, of "trim_zeros f" v] trim_zeros_digits [of f] trim_zeros_value [of f] f
      by (simp add: r_def [symmetric])
  qed
qed

theorem ParseAmount_FormatAmount_witness:
  "ParseAmount (FormatAmount 1500000 AssetXE) AssetXE = Inr 1500000 \<and>
   ParseAmount (FormatAmountFixed 1500000 AssetXE) AssetXE = Inr 1500000"
  by (rule ParseAmount_FormatAmount) (simp_all add: decimal_asset_def AssetXE_def)

end
