(* ===== verification/XE_Quorum.thy ===== *)
theory XE_Quorum
  imports XE_Rollback
begin

text \<open>
  The quorum manager (\<open>core/quorum.go\<close>, \<open>core/conflict.go\<close>, \<open>core/retryable.go\<close>): it
  tallies the final votes at a position, promotes the winner of a conflict, raises the
  final height, and sweeps conflicts that linger.

  The three stores the manager is given are the ledger's store (\<open>node/node.go\<close>). Its own
  state is the record \<open>quorum_mgr\<close>; the vote manager extends the record, so that the
  callback by which the sweep asks for a new vote is a function on the whole state. The
  callbacks that leave the component (\<open>OnFinalized\<close>, \<open>PhantomPullFn\<close>, \<open>VotePullFn\<close>) are
  set in a running node and appear as a list of requests. Metrics and log lines are not
  state. The manager's mutex makes each operation one step; \<open>now_ns\<close> is its time.
\<close>

section \<open>Constants and errors\<close>

definition quorumNumerator :: int where "quorumNumerator = 67"

definition quorumDenominator :: int where "quorumDenominator = 100"

definition staleConflictAge :: int where "staleConflictAge = 10 * 10 ^ 9"

definition withholdLogInterval :: int where "withholdLogInterval = 5 * 60 * 10 ^ 9"

definition phantomEvictionDelay :: int where "phantomEvictionDelay = 30 * 10 ^ 9"

definition phantomUnretrievableTimeout :: int where "phantomUnretrievableTimeout = 10 * 60 * 10 ^ 9"

definition failedPromotionTTL :: int where "failedPromotionTTL = 30 * 10 ^ 9"

definition retryablePatterns :: "string list" where
  "retryablePatterns =
     [''previous block not found'', ''source send not pending'', ''not found'', ''frontier mismatch'',
      ''previous mismatch'', ''GetAccountChain'', ''GetBlock'', ''unresolved conflict'',
      ''Transaction Conflict'', ''lease not yet accepted'', ''epoch not yet available'',
      ''retry after statechain syncs'', ''retry after sync'', ''unopened account'',
      ''unknown block type'', ''not yet activated'']"

definition IsRetryableError :: "error \<Rightarrow> bool" where
  "IsRetryableError e \<longleftrightarrow> list_ex (Contains (err_text e)) retryablePatterns"

text \<open>\<open>errors.Is(err, ErrWinnerFullValidation)\<close> for the errors of \<open>swapBlockLocked\<close>.\<close>

definition winner_failed_validation :: "error \<Rightarrow> bool" where
  "winner_failed_validation e \<longleftrightarrow> HasPrefix (err_text e) ''SwapBlock: winner failed full validation ''"

section \<open>State\<close>

datatype quorum_request =
  Finalized
| PhantomPull string string "string list"
| VotePull string string

record quorum_mgr =
  qm_ledger :: ledger
  qm_failedPromotions :: "(string, int) gomap"
  qm_withheldLogNanos :: "(string, int) gomap"
  qm_requests :: "quorum_request list"

record quorum_result =
  qr_ConflictAccount :: string
  qr_ConflictPrev :: string
  qr_WinnerHash :: string
  qr_LoserHashes :: "string list"

definition NewQuorumManager :: "ledger \<Rightarrow> quorum_mgr" where
  "NewQuorumManager l =
     \<lparr>qm_ledger = l, qm_failedPromotions = [], qm_withheldLogNanos = [], qm_requests = []\<rparr>"

definition failedPromotionKey :: "string \<Rightarrow> string \<Rightarrow> string \<Rightarrow> string" where
  "failedPromotionKey account previous hash = account @ ''|'' @ previous @ ''|'' @ hash"

definition request :: "quorum_request \<Rightarrow> 'a quorum_mgr_scheme \<Rightarrow> 'a quorum_mgr_scheme" where
  "request r q = q\<lparr>qm_requests := qm_requests q @ [r]\<rparr>"

abbreviation on_store :: "(mem_store \<Rightarrow> mem_store) \<Rightarrow> 'a quorum_mgr_scheme \<Rightarrow> 'a quorum_mgr_scheme" where
  "on_store f q \<equiv> q\<lparr>qm_ledger := (qm_ledger q)\<lparr>l_store := f (l_store (qm_ledger q))\<rparr>\<rparr>"

section \<open>Conflict records\<close>

definition store_GetAllConflicts :: "mem_store \<Rightarrow> conflict list" where
  "store_GetAllConflicts m = map snd (m_conflicts m)"

definition GetConflictForBlock :: "mem_store \<Rightarrow> string \<Rightarrow> conflict option" where
  "GetConflictForBlock m blockHash =
     find (\<lambda>c. blockHash \<in> set (cf_BlockHashes c)) (store_GetAllConflicts m)"

section \<open>The tally\<close>

fun balance_at :: "mem_store \<Rightarrow> string \<Rightarrow> string \<Rightarrow> u64 \<Rightarrow> block list \<Rightarrow> u64" where
  "balance_at m asset blockHash bal [] = bal"
| "balance_at m asset blockHash bal (b # bs) =
     (let bal1 = (if assetOf b = asset then blk_Balance b else bal);
          bal2 = (if asset = ''XUSD'' then bal1 + settle_stake m b else bal1)
      in if blk_Hash b = blockHash then bal2 else balance_at m asset blockHash bal2 bs)"

definition GetAssetBalanceAtBlock :: "ledger \<Rightarrow> string \<Rightarrow> string \<Rightarrow> string \<Rightarrow> u64" where
  "GetAssetBalanceAtBlock l account asset blockHash =
     (case store_GetAccountChain (l_store l) account of
        None \<Rightarrow> 0
      | Some chain \<Rightarrow> balance_at (l_store l) asset blockHash 0 chain)"

definition parent_balance :: "ledger \<Rightarrow> string \<Rightarrow> string \<Rightarrow> block \<Rightarrow> u64" where
  "parent_balance l account previous b =
     (if previous \<noteq> ''0'' then GetAssetBalanceAtBlock l account (assetOf b) previous else 0)"

definition quarantined :: "env \<Rightarrow> string \<Rightarrow> 'a quorum_mgr_scheme \<Rightarrow> bool" where
  "quarantined E key q =
     (case mget (qm_failedPromotions q) key of
        None \<Rightarrow> False
      | Some recordedAt \<Rightarrow> now_ns E - recordedAt < failedPromotionTTL)"

definition promotable :: "env \<Rightarrow> string \<Rightarrow> string \<Rightarrow> string \<Rightarrow> 'a quorum_mgr_scheme \<Rightarrow> bool \<times> 'a quorum_mgr_scheme" where
  "promotable E account previous hash q =
     (let l = qm_ledger q; key = failedPromotionKey account previous hash
      in case GetBlockHeight l account hash of
           Inr h \<Rightarrow>
             (if previous = ''0'' then h = 1
              else case GetBlockHeight l account previous of Inl _ \<Rightarrow> False | Inr ph \<Rightarrow> h = ph + 1, q)
         | Inl _ \<Rightarrow>
             if quarantined E key q then (False, q)
             else
             let q1 = q\<lparr>qm_failedPromotions := mdel key (qm_failedPromotions q)\<rparr>
             in case store_GetStagedBlock (l_store l) hash of
                  None \<Rightarrow> (False, q1)
                | Some staged \<Rightarrow>
                    (case ValidateStagedBlock E staged (parent_balance l account previous staged) l of
                       (Inl _, l1) \<Rightarrow> (False, q1\<lparr>qm_ledger := l1\<rparr>)
                     | (Inr _, l1) \<Rightarrow> (True, q1\<lparr>qm_ledger := l1\<rparr>)))"

text \<open>The weight of the final votes for each block that is known at the position.\<close>

definition count_final :: "ledger \<Rightarrow> string \<Rightarrow> string \<Rightarrow> vote \<Rightarrow> (string, int) gomap \<Rightarrow> (string, int) gomap" where
  "count_final l account previous v weights =
     (if \<not> vt_Final v then weights
      else case GetBlockOrStaged l (vt_BlockHash v) of
             None \<Rightarrow> weights
           | Some b \<Rightarrow>
               if blk_Account b \<noteq> account \<or> blk_Previous b \<noteq> previous then weights
               else mput (vt_BlockHash v) (mdef 0 weights (vt_BlockHash v) + big (vt_Weight v)) weights)"

definition weightByBlock :: "ledger \<Rightarrow> string \<Rightarrow> string \<Rightarrow> vote list \<Rightarrow> (string, int) gomap" where
  "weightByBlock l account previous votes = fold (count_final l account previous) votes []"

definition candidateSet :: "vote list \<Rightarrow> conflict option \<Rightarrow> string list" where
  "candidateSet votes conflict =
     remdups (map vt_BlockHash votes @ (case conflict of None \<Rightarrow> [] | Some c \<Rightarrow> cf_BlockHashes c))"

definition tally_total :: "env \<Rightarrow> ledger \<Rightarrow> conflict option \<Rightarrow> int" where
  "tally_total E l conflict =
     (case conflict of
        Some c \<Rightarrow> if cf_TotalWeight c > 0 then big (cf_TotalWeight c) else GetTotalDelegatedWeight E l
      | None \<Rightarrow> GetTotalDelegatedWeight E l)"

fun lowest_promotable :: "env \<Rightarrow> string \<Rightarrow> string \<Rightarrow> string list \<Rightarrow> string \<Rightarrow> 'a quorum_mgr_scheme \<Rightarrow> string \<times> 'a quorum_mgr_scheme" where
  "lowest_promotable E account previous [] best q = (best, q)"
| "lowest_promotable E account previous (h # hs) best q =
     (let (ok, q1) = promotable E account previous h q
      in lowest_promotable E account previous hs (if ok \<and> (best = [] \<or> h < best) then h else best) q1)"

definition pickWinner :: "env \<Rightarrow> string \<Rightarrow> string \<Rightarrow> bool \<Rightarrow> string list \<Rightarrow> string \<Rightarrow> 'a quorum_mgr_scheme \<Rightarrow> string \<times> 'a quorum_mgr_scheme" where
  "pickWinner E account previous prevFinalized candidates winner q =
     (if winner = [] \<or> \<not> prevFinalized then (winner, q)
      else let (ok, q1) = promotable E account previous winner q
           in if ok then (winner, q1) else lowest_promotable E account previous candidates [] q1)"

definition buildResultFrom :: "string \<Rightarrow> string \<Rightarrow> string \<Rightarrow> string list \<Rightarrow> quorum_result" where
  "buildResultFrom account previous winner candidates =
     \<lparr>qr_ConflictAccount = account, qr_ConflictPrev = previous, qr_WinnerHash = winner,
      qr_LoserHashes = filter (\<lambda>h. h \<noteq> winner) candidates\<rparr>"

fun first_winner :: "env \<Rightarrow> string \<Rightarrow> string \<Rightarrow> bool \<Rightarrow> string list \<Rightarrow> int \<Rightarrow> (string, int) gomap \<Rightarrow> string list \<Rightarrow> 'a quorum_mgr_scheme \<Rightarrow> string \<times> 'a quorum_mgr_scheme" where
  "first_winner E account previous prevFinalized candidates totalWeight weights [] q = ([], q)"
| "first_winner E account previous prevFinalized candidates totalWeight weights (h # hs) q =
     (if mdef 0 weights h * quorumDenominator \<ge> totalWeight * quorumNumerator
      then let (w, q1) = pickWinner E account previous prevFinalized candidates h q
           in if w \<noteq> [] then (w, q1)
              else first_winner E account previous prevFinalized candidates totalWeight weights hs q1
      else first_winner E account previous prevFinalized candidates totalWeight weights hs q)"

definition shouldLogWithhold :: "env \<Rightarrow> string \<Rightarrow> string \<Rightarrow> 'a quorum_mgr_scheme \<Rightarrow> bool \<times> 'a quorum_mgr_scheme" where
  "shouldLogWithhold E account previous q =
     (let key = account @ ''|'' @ previous
      in case mget (qm_withheldLogNanos q) key of
           Some stamp \<Rightarrow>
             if i64 (now_ns E - stamp) < withholdLogInterval then (False, q)
             else (True, q\<lparr>qm_withheldLogNanos := mput key (now_ns E) (qm_withheldLogNanos q)\<rparr>)
         | None \<Rightarrow> (True, q\<lparr>qm_withheldLogNanos := mput key (now_ns E) (qm_withheldLogNanos q)\<rparr>))"

definition oldest_final :: "vote list \<Rightarrow> int" where
  "oldest_final votes =
     fold (\<lambda>v oldest. if vt_Final v \<and> (oldest = 0 \<or> vt_Timestamp v < oldest) then vt_Timestamp v else oldest) votes 0"

definition withhold :: "env \<Rightarrow> string \<Rightarrow> string \<Rightarrow> vote list \<Rightarrow> conflict option \<Rightarrow> 'a quorum_mgr_scheme \<Rightarrow> 'a quorum_mgr_scheme" where
  "withhold E account previous votes conflict q =
     (let stale = ((case conflict of None \<Rightarrow> False | Some c \<Rightarrow> now_ns E - cf_DetectedAt c \<ge> staleConflictAge) \<or>
                   (oldest_final votes \<noteq> 0 \<and> i64 (now_ns E - oldest_final votes) \<ge> staleConflictAge))
      in if stale then snd (shouldLogWithhold E account previous q) else q)"

definition finalTally :: "env \<Rightarrow> string \<Rightarrow> string \<Rightarrow> 'a quorum_mgr_scheme \<Rightarrow> quorum_result option \<times> 'a quorum_mgr_scheme" where
  "finalTally E account previous q =
     (let l = qm_ledger q;
          votes = store_GetVotesByConflict (l_store l) account previous;
          weights = weightByBlock l account previous votes;
          conflict = store_GetConflict (l_store l) account previous;
          candidates = candidateSet votes conflict;
          totalWeight = tally_total E l conflict
      in if totalWeight = 0 then (None, q)
         else
         let prevFinalized = (previous = ''0'' \<or> IsFinalized l account previous);
             (w, q1) = first_winner E account previous prevFinalized candidates totalWeight weights (sort (map fst weights)) q
         in if w \<noteq> [] then (Some (buildResultFrom account previous w candidates), q1)
            else if weights \<noteq> [] then (None, withhold E account previous votes conflict q1)
            else (None, q1))"

section \<open>Confirming a winner\<close>

definition rejectBlocks :: "string list \<Rightarrow> mem_store \<Rightarrow> mem_store" where
  "rejectBlocks hashes m = fold (\<lambda>h. store_SetBlockStatus h StatusRejected) hashes m"

definition cleanupResolvedConflict :: "quorum_result \<Rightarrow> 'a quorum_mgr_scheme \<Rightarrow> 'a quorum_mgr_scheme" where
  "cleanupResolvedConflict r q =
     (let account = qr_ConflictAccount r; previous = qr_ConflictPrev r;
          q1 = on_store (\<lambda>m. store_DeleteConflict account previous
                 (store_DeleteVotesForConflict account previous
                   (fold store_DeleteStagedBlock (qr_LoserHashes r)
                     (rejectBlocks (qr_LoserHashes r) (store_DeleteStagedBlock (qr_WinnerHash r) m))))) q;
          q2 = q1\<lparr>qm_withheldLogNanos := mdel (account @ ''|'' @ previous) (qm_withheldLogNanos q1)\<rparr>
      in request Finalized q2)"

text \<open>
  The loop over the losers: the first one that is on the chain is staged and swapped for
  the winner. The result says whether a swap was made.
\<close>

fun swap_losers :: "env \<Rightarrow> quorum_result \<Rightarrow> block \<Rightarrow> string list \<Rightarrow> 'a quorum_mgr_scheme \<Rightarrow> bool result \<times> 'a quorum_mgr_scheme" where
  "swap_losers E r winnerBlock [] q = (Inr False, q)"
| "swap_losers E r winnerBlock (loserHash # hs) q =
     (case GetBlockHeight (qm_ledger q) (qr_ConflictAccount r) loserHash of
        Inl _ \<Rightarrow> swap_losers E r winnerBlock hs q
      | Inr _ \<Rightarrow>
      (case store_GetBlock (l_store (qm_ledger q)) loserHash of
        None \<Rightarrow> swap_losers E r winnerBlock hs q
      | Some mainBlock \<Rightarrow>
      let q1 = on_store (store_SaveStagedBlock mainBlock) q
      in case swapBlockLocked E (qr_ConflictAccount r) loserHash (qr_WinnerHash r) winnerBlock (qm_ledger q1) of
           (Inr _, l2) \<Rightarrow> (Inr True, q1\<lparr>qm_ledger := l2\<rparr>)
         | (Inl e, l2) \<Rightarrow>
             let q2 = q1\<lparr>qm_ledger := l2\<rparr>;
                 key = failedPromotionKey (qr_ConflictAccount r) (qr_ConflictPrev r) (qr_WinnerHash r)
             in (wrap ''confirmConflict: SwapBlock: '' e,
                 if winner_failed_validation e \<and> \<not> IsRetryableError e
                 then q2\<lparr>qm_failedPromotions := mput key (now_ns E) (qm_failedPromotions q2)\<rparr> else q2)))"

definition appendStagedWinner :: "env \<Rightarrow> quorum_result \<Rightarrow> block \<Rightarrow> ledger \<Rightarrow> bool result \<times> ledger" where
  "appendStagedWinner E r winnerBlock l =
     (let frontier = (case store_GetAccountChain (l_store l) (qr_ConflictAccount r) of
                        None \<Rightarrow> ''0'' | Some chain \<Rightarrow> if chain = [] then ''0'' else blk_Hash (last chain))
      in if blk_Previous winnerBlock \<noteq> frontier then (Inr False, l)
         else case dispatchValidateAndAdd E winnerBlock True l of
                (Inl e, l1) \<Rightarrow> if IsRetryableError e then (Inr False, l1) else (Inl e, l1)
              | (Inr _, l1) \<Rightarrow> (Inr True, l1))"

definition winner_checks :: "env \<Rightarrow> quorum_result \<Rightarrow> block \<Rightarrow> unit result" where
  "winner_checks E r winnerBlock =
     (case VerifyBlock E winnerBlock of
        Inl e \<Rightarrow> wrap ''confirmConflict: verify winner: '' e
      | Inr _ \<Rightarrow>
          if cfg_Difficulty E > 0
          then case hex_DecodeString (blk_Hash winnerBlock) of
                 Inl e \<Rightarrow> wrap ''confirmConflict: decode winner hash: '' e
               | Inr hashBytes \<Rightarrow>
                   if \<not> ValidatePoW E hashBytes (blk_PoWNonce winnerBlock) (cfg_Difficulty E)
                   then Err ''confirmConflict: winner block %s failed PoW validation'' else Inr ()
          else Inr ())"

text \<open>
  The promotion of a staged winner that is not on the chain yet. \<open>Inr False\<close> stands for the
  early return without an error.
\<close>

definition promote_winner :: "env \<Rightarrow> quorum_result \<Rightarrow> block \<Rightarrow> 'a quorum_mgr_scheme \<Rightarrow> bool result \<times> 'a quorum_mgr_scheme" where
  "promote_winner E r winnerBlock q =
     (case winner_checks E r winnerBlock of
        Inl e \<Rightarrow> (Inl e, q)
      | Inr _ \<Rightarrow>
      (case ValidateStagedBlock E winnerBlock
              (parent_balance (qm_ledger q) (qr_ConflictAccount r) (qr_ConflictPrev r) winnerBlock) (qm_ledger q) of
         (Inl e, l1) \<Rightarrow> (wrap ''confirmConflict: invalid staged winner: '' e, q\<lparr>qm_ledger := l1\<rparr>)
       | (Inr _, l1) \<Rightarrow>
      (case swap_losers E r winnerBlock (qr_LoserHashes r) (q\<lparr>qm_ledger := l1\<rparr>) of
         (Inl e, q2) \<Rightarrow> (Inl e, q2)
       | (Inr True, q2) \<Rightarrow> (Inr True, q2)
       | (Inr False, q2) \<Rightarrow>
           (case appendStagedWinner E r winnerBlock (qm_ledger q2) of
              (Inl e, l3) \<Rightarrow> (wrap ''confirmConflict: append winner: '' e, q2\<lparr>qm_ledger := l3\<rparr>)
            | (Inr appended, l3) \<Rightarrow> (Inr appended, q2\<lparr>qm_ledger := l3\<rparr>)))))"

definition raise_final_height :: "quorum_result \<Rightarrow> mem_store \<Rightarrow> ledger \<Rightarrow> mem_store" where
  "raise_final_height r m l =
     (case GetBlockHeight l (qr_ConflictAccount r) (qr_WinnerHash r) of
        Inl _ \<Rightarrow> m
      | Inr height \<Rightarrow>
          if height > store_GetFinalHeight m (qr_ConflictAccount r)
          then store_SetFinalHeight (qr_ConflictAccount r) height m else m)"

definition finalizeBlock :: "string \<Rightarrow> mem_store \<Rightarrow> mem_store" where
  "finalizeBlock hash m = store_SetBlockStatus hash StatusFinalized m"

definition finalize_winner :: "quorum_result \<Rightarrow> 'a quorum_mgr_scheme \<Rightarrow> 'a quorum_mgr_scheme" where
  "finalize_winner r q =
     cleanupResolvedConflict r
       (on_store (\<lambda>m. finalizeBlock (qr_WinnerHash r) (raise_final_height r m (qm_ledger q))) q)"

definition confirmConflict :: "env \<Rightarrow> quorum_result \<Rightarrow> 'a quorum_mgr_scheme \<Rightarrow> unit result \<times> 'a quorum_mgr_scheme" where
  "confirmConflict E r q =
     (if IsFinalized (qm_ledger q) (qr_ConflictAccount r) (qr_WinnerHash r)
      then (Inr (), cleanupResolvedConflict r q)
      else case store_GetStagedBlock (l_store (qm_ledger q)) (qr_WinnerHash r) of
        None \<Rightarrow> (Inr (), finalize_winner r q)
      | Some winnerBlock \<Rightarrow>
          (case GetBlockHeight (qm_ledger q) (qr_ConflictAccount r) (qr_WinnerHash r) of
             Inr _ \<Rightarrow> (Inr (), finalize_winner r q)
           | Inl _ \<Rightarrow>
               (case promote_winner E r winnerBlock q of
                  (Inl e, q1) \<Rightarrow> (Inl e, q1)
                | (Inr False, q1) \<Rightarrow> (Inr (), q1)
                | (Inr True, q1) \<Rightarrow> (Inr (), finalize_winner r q1))))"

definition Retally :: "env \<Rightarrow> string \<Rightarrow> string \<Rightarrow> 'a quorum_mgr_scheme \<Rightarrow> 'a quorum_mgr_scheme" where
  "Retally E account previous q =
     (case finalTally E account previous q of
        (None, q1) \<Rightarrow> q1
      | (Some r, q1) \<Rightarrow> snd (confirmConflict E r q1))"

definition OnVote :: "env \<Rightarrow> vote \<Rightarrow> 'a quorum_mgr_scheme \<Rightarrow> 'a quorum_mgr_scheme" where
  "OnVote E v q = Retally E (vt_ConflictAccount v) (vt_ConflictPrev v) q"

section \<open>The sweep of lingering conflicts\<close>

definition conflictOrphanedByRollback :: "ledger \<Rightarrow> conflict \<Rightarrow> bool" where
  "conflictOrphanedByRollback l c =
     (let chain = (case store_GetAccountChain (l_store l) (cf_AccountAddress c) of None \<Rightarrow> [] | Some ch \<Rightarrow> ch);
          onChain = blk_Hash ` set chain;
          positionDead = (if cf_PreviousHash c = ''0'' then chain = [] else cf_PreviousHash c \<notin> onChain)
      in positionDead \<and> \<not> list_ex (\<lambda>h. h \<in> onChain) (cf_BlockHashes c) \<and>
         list_ex (\<lambda>h. store_GetBlockStatus (l_store l) h = StatusRejected) (cf_BlockHashes c))"

definition dropConflictIfOrphaned :: "conflict \<Rightarrow> 'a quorum_mgr_scheme \<Rightarrow> bool \<times> 'a quorum_mgr_scheme" where
  "dropConflictIfOrphaned c q =
     (if \<not> conflictOrphanedByRollback (qm_ledger q) c then (False, q)
      else (True, on_store (\<lambda>m. store_DeleteConflict (cf_AccountAddress c) (cf_PreviousHash c)
                     (store_DeleteVotesForConflict (cf_AccountAddress c) (cf_PreviousHash c) m)) q))"

definition pruneOrphanedConflicts :: "'a quorum_mgr_scheme \<Rightarrow> 'a quorum_mgr_scheme" where
  "pruneOrphanedConflicts q =
     fold (\<lambda>c q1. snd (dropConflictIfOrphaned c q1)) (store_GetAllConflicts (l_store (qm_ledger q))) q"

definition dropConflictIfResolved :: "conflict \<Rightarrow> 'a quorum_mgr_scheme \<Rightarrow> bool \<times> 'a quorum_mgr_scheme" where
  "dropConflictIfResolved c q =
     (let winner = FinalizedChildHash (qm_ledger q) (cf_AccountAddress c) (cf_PreviousHash c)
      in if winner = [] then (False, q)
         else (True, cleanupResolvedConflict
                 \<lparr>qr_ConflictAccount = cf_AccountAddress c, qr_ConflictPrev = cf_PreviousHash c,
                  qr_WinnerHash = winner, qr_LoserHashes = filter (\<lambda>h. h \<noteq> winner) (cf_BlockHashes c)\<rparr> q))"

definition splitPhantomsByVoteWeight :: "mem_store \<Rightarrow> string \<Rightarrow> string \<Rightarrow> string list \<Rightarrow> string list \<times> string list" where
  "splitPhantomsByVoteWeight m account previous phantoms =
     (let weighted = map vt_BlockHash (filter (\<lambda>v. vt_Weight v > 0) (store_GetVotesByConflict m account previous))
      in (filter (\<lambda>h. h \<in> set weighted) phantoms, filter (\<lambda>h. h \<notin> set weighted) phantoms))"

definition trim_conflict :: "conflict \<Rightarrow> string list \<Rightarrow> 'a quorum_mgr_scheme \<Rightarrow> 'a quorum_mgr_scheme" where
  "trim_conflict c hashes q = on_store (store_SaveConflict (c\<lparr>cf_BlockHashes := hashes\<rparr>)) q"

definition tally_and_confirm :: "env \<Rightarrow> string \<Rightarrow> string \<Rightarrow> 'a quorum_mgr_scheme \<Rightarrow> bool \<times> 'a quorum_mgr_scheme" where
  "tally_and_confirm E account previous q =
     (case finalTally E account previous q of
        (None, q1) \<Rightarrow> (False, q1)
      | (Some r, q1) \<Rightarrow> (True, snd (confirmConflict E r q1)))"

definition evictPhantomsAndResolve :: "env \<Rightarrow> conflict \<Rightarrow> 'a quorum_mgr_scheme \<Rightarrow> bool \<times> 'a quorum_mgr_scheme" where
  "evictPhantomsAndResolve E c q =
     (let account = cf_AccountAddress c; previous = cf_PreviousHash c;
          known = (\<lambda>h. GetBlockOrStaged (qm_ledger q) h \<noteq> None);
          realBlocks = filter known (cf_BlockHashes c);
          phantoms = filter (\<lambda>h. \<not> known h) (cf_BlockHashes c)
      in if phantoms = [] then (True, q)
         else
         let q1 = request (PhantomPull account previous phantoms) q;
             (live0, dead0) = splitPhantomsByVoteWeight (l_store (qm_ledger q1)) account previous phantoms;
             expired = (realBlocks \<noteq> [] \<and> live0 \<noteq> [] \<and>
                        now_ns E - cf_DetectedAt c \<ge> phantomUnretrievableTimeout);
             livePhantoms = (if expired then [] else live0);
             deadPhantoms = (if expired then dead0 @ live0 else dead0)
         in if realBlocks = [] then
              (if livePhantoms \<noteq> []
               then (False, if deadPhantoms \<noteq> [] then trim_conflict c livePhantoms q1 else q1)
               else (False, on_store (store_DeleteConflict account previous) q1))
            else if length realBlocks = 1 \<and> IsFinalized (qm_ledger q1) account (realBlocks ! 0)
            then (False, on_store (\<lambda>m. store_DeleteConflict account previous (store_DeleteVotesForConflict account previous m)) q1)
            else
            let q2 = (if deadPhantoms \<noteq> [] then trim_conflict c (realBlocks @ livePhantoms) q1 else q1)
            in if length realBlocks = 1 then (False, snd (tally_and_confirm E account previous q2))
               else (livePhantoms = [], q2))"

definition sweep_conflict :: "env \<Rightarrow> (string \<Rightarrow> string \<Rightarrow> 'a quorum_mgr_scheme \<Rightarrow> 'a quorum_mgr_scheme) \<Rightarrow> conflict \<Rightarrow> 'a quorum_mgr_scheme \<Rightarrow> 'a quorum_mgr_scheme" where
  "sweep_conflict E RevoteFn c q =
     (let (resolved, q1) = dropConflictIfResolved c q
      in if resolved then q1
         else
         let (orphaned, q2) = dropConflictIfOrphaned c q1; age = now_ns E - cf_DetectedAt c
         in if orphaned then q2
            else
            let (go, q3) = (if age \<ge> phantomEvictionDelay then evictPhantomsAndResolve E c q2
                            else (age \<ge> staleConflictAge, q2))
            in if \<not> go then q3
               else
               let q4 = RevoteFn (cf_AccountAddress c) (cf_PreviousHash c) q3;
                   (found, q5) = tally_and_confirm E (cf_AccountAddress c) (cf_PreviousHash c) q4
               in if found then q5 else request (VotePull (cf_AccountAddress c) (cf_PreviousHash c)) q5)"

definition sweepStaleConflicts :: "env \<Rightarrow> (string \<Rightarrow> string \<Rightarrow> 'a quorum_mgr_scheme \<Rightarrow> 'a quorum_mgr_scheme) \<Rightarrow> 'a quorum_mgr_scheme \<Rightarrow> 'a quorum_mgr_scheme" where
  "sweepStaleConflicts E RevoteFn q =
     fold (sweep_conflict E RevoteFn) (store_GetAllConflicts (l_store (qm_ledger q))) q"

end
