(* ===== verification/XE_Votes.thy ===== *)
theory XE_Votes
  imports XE_Quorum XE_Restart
begin

text \<open>
  The vote manager (\<open>core/vote.go\<close>, \<open>core/finalization.go\<close>): it validates and stores the
  votes of representatives, casts this node's own votes, locks the final vote of a
  position, and drives positions that are not final yet.

  The manager's state extends that of the quorum manager it calls. A key pair, the
  signing function, the outcome of a durability sync and the network call that pulls
  votes are the record \<open>vote_config\<close>. The votes handed to the emitter are appended to
  \<open>vm_emitted\<close>. Each operation holds the lock of its position, so it is one step; the
  timers of the stability window are entries of a map, and \<open>stability_redrive\<close> is the body
  of a timer that fires. The flags that merge concurrent frontier sweeps into one have no
  effect on a sweep that runs as one step.
\<close>

section \<open>Configuration and state\<close>

record key_pair =
  kp_Public :: bytes
  kp_Private :: bytes

record vote_config =
  vc_keyPair :: "key_pair option"
  vc_Sign :: "bytes \<Rightarrow> bytes \<Rightarrow> bytes"
  vc_Sync :: bool
  vc_VotePullFn :: "string \<Rightarrow> string \<Rightarrow> bool"

record vote_mgr = quorum_mgr +
  vm_pendingVotes :: "(string, vote list) gomap"
  vm_lastRevoteNanos :: "(string, int) gomap"
  vm_lastNewCandidateNanos :: "(string, int) gomap"
  vm_seenCandidates :: "(string, string list) gomap"
  vm_pendingStabilityRedrive :: "(string, string \<times> string \<times> int) gomap"
  vm_closed :: bool
  vm_emitted :: "vote list"

definition voteWindowNanos :: int where "voteWindowNanos = 5 * 60 * 10 ^ 9"

definition maxPendingVotesPerConflict :: nat where "maxPendingVotesPerConflict = 10"

definition revoteBackoff :: int where "revoteBackoff = 15 * 10 ^ 9"

definition lockStabilityWindow :: int where "lockStabilityWindow = 3 * 10 ^ 9"

definition pullStampTTL :: int where "pullStampTTL = 10 * revoteBackoff"

definition NewVoteManager :: "ledger \<Rightarrow> vote_mgr" where
  "NewVoteManager l =
     quorum_mgr.extend (NewQuorumManager l)
       (vote_mgr.fields [] [] [] [] [] False [])"

abbreviation vote_key :: "string \<Rightarrow> string \<Rightarrow> string" where
  "vote_key account prev \<equiv> account @ ''|'' @ prev"

definition PubKeyHex :: "key_pair \<Rightarrow> string" where
  "PubKeyHex kp = hex_EncodeToString (kp_Public kp)"

definition Address :: "env \<Rightarrow> key_pair \<Rightarrow> string" where
  "Address E kp = deriveAddressFromKey E (kp_Public kp)"

definition RepAccount :: "env \<Rightarrow> vote \<Rightarrow> string" where
  "RepAccount E v = (case DeriveAddress E (vt_RepPubKey v) of Inl _ \<Rightarrow> [] | Inr a \<Rightarrow> a)"

section \<open>Validating a vote\<close>

definition VerifyVoteSignature :: "env \<Rightarrow> vote \<Rightarrow> bool" where
  "VerifyVoteSignature E v =
     (case DecodePublicKey (vt_RepPubKey v) of
        Inl _ \<Rightarrow> False
      | Inr pub \<Rightarrow>
          (case voteSigningBytes v of
             Inl _ \<Rightarrow> False
           | Inr signingBytes \<Rightarrow> ed25519_Verify E pub signingBytes (vt_Signature v)))"

definition vote_delta :: "env \<Rightarrow> vote \<Rightarrow> int" where
  "vote_delta E v =
     (if vt_Timestamp v > now_ns E then i64 (vt_Timestamp v - now_ns E) else i64 (now_ns E - vt_Timestamp v))"

definition ValidateVote :: "env \<Rightarrow> ledger \<Rightarrow> vote \<Rightarrow> unit result" where
  "ValidateVote E l v =
     (case DecodePublicKey (vt_RepPubKey v) of
        Inl e \<Rightarrow> wrap ''ValidateVote: '' e
      | Inr pub \<Rightarrow>
      case voteSigningBytes v of
        Inl e \<Rightarrow> wrap ''ValidateVote: '' e
      | Inr signingBytes \<Rightarrow>
      if \<not> ed25519_Verify E pub signingBytes (vt_Signature v)
      then Err ''ValidateVote: signature verification failed''
      else if GetVoteWeight E l (RepAccount E v) \<le> 0
      then Err ''ValidateVote: representative %s has zero vote weight''
      else if vt_Timestamp v < 0 then Err ''ValidateVote: timestamp must not be negative''
      else if vote_delta E v > voteWindowNanos then Err ''ValidateVote: timestamp out of range: delta=%v''
      else Inr ())"

definition isConflictNotFound :: "env \<Rightarrow> ledger \<Rightarrow> vote \<Rightarrow> bool" where
  "isConflictNotFound E l v =
     (case DecodePublicKey (vt_RepPubKey v) of
        Inl _ \<Rightarrow> False
      | Inr pub \<Rightarrow>
      case voteSigningBytes v of
        Inl _ \<Rightarrow> False
      | Inr signingBytes \<Rightarrow>
      if \<not> ed25519_Verify E pub signingBytes (vt_Signature v) then False
      else if GetVoteWeight E l (RepAccount E v) \<le> 0 then False
      else if vt_Timestamp v < 0 then False
      else if vote_delta E v > voteWindowNanos then False
      else store_GetConflict (l_store l) (vt_ConflictAccount v) (vt_ConflictPrev v) = None)"

definition bufferVote :: "vote \<Rightarrow> 'a vote_mgr_scheme \<Rightarrow> 'a vote_mgr_scheme" where
  "bufferVote v s =
     (let key = vote_key (vt_ConflictAccount v) (vt_ConflictPrev v)
      in if length (mdef [] (vm_pendingVotes s) key) \<ge> maxPendingVotesPerConflict then s
         else s\<lparr>vm_pendingVotes := mput key (mdef [] (vm_pendingVotes s) key @ [v]) (vm_pendingVotes s)\<rparr>)"

section \<open>Dependencies and thresholds\<close>

definition accountOfBlock :: "ledger \<Rightarrow> string \<Rightarrow> string" where
  "accountOfBlock l hash = (case store_GetBlock (l_store l) hash of None \<Rightarrow> [] | Some blk \<Rightarrow> blk_Account blk)"

definition source_dep :: "ledger \<Rightarrow> block \<Rightarrow> (string \<times> string) list" where
  "source_dep l b =
     (if blk_Source b \<noteq> [] \<and> blk_Source b \<noteq> ''0'' then [(accountOfBlock l (blk_Source b), blk_Source b)] else [])"

definition blockDependencies :: "ledger \<Rightarrow> block \<Rightarrow> (string \<times> string) list" where
  "blockDependencies l b =
     (if blk_Previous b \<noteq> [] \<and> blk_Previous b \<noteq> ''0'' then [(blk_Account b, blk_Previous b)] else []) @
     (case blk_Type b of
        BlockReceive \<Rightarrow> source_dep l b | BlockLeaseAccept \<Rightarrow> source_dep l b
      | BlockLeaseSettle \<Rightarrow> source_dep l b | BlockLeaseCancel \<Rightarrow> source_dep l b
      | BlockLeaseForceSettle \<Rightarrow> source_dep l b | BlockLeaseRenew \<Rightarrow> source_dep l b
      | BlockSend \<Rightarrow> [] | BlockBurn \<Rightarrow> [] | BlockMint \<Rightarrow> [] | BlockLease \<Rightarrow> []
      | BlockMultisigOpen \<Rightarrow> [] | BlockMultisigUpdate \<Rightarrow> [] | BlockGenesis \<Rightarrow> []
      | BlockOther t \<Rightarrow> [([], ''unknown-type:'' @ t)])"

definition depsFinalized :: "ledger \<Rightarrow> block \<Rightarrow> bool" where
  "depsFinalized l b \<longleftrightarrow> list_all (\<lambda>(account, hash). account \<noteq> [] \<and> IsFinalized l account hash) (blockDependencies l b)"

definition thresholdMet :: "int option \<Rightarrow> int \<Rightarrow> bool" where
  "thresholdMet weight totalWeight =
     (case weight of
        None \<Rightarrow> False
      | Some w \<Rightarrow> totalWeight \<noteq> 0 \<and> w * quorumDenominator \<ge> totalWeight * quorumNumerator)"

definition electionTotalWeight :: "env \<Rightarrow> ledger \<Rightarrow> string \<Rightarrow> string \<Rightarrow> int" where
  "electionTotalWeight E l account prev = tally_total E l (store_GetConflict (l_store l) account prev)"

definition convergeWeights :: "ledger \<Rightarrow> string \<Rightarrow> string \<Rightarrow> (string, int) gomap" where
  "convergeWeights l account prev =
     fold (\<lambda>v cw. mput (vt_BlockHash v) (mdef 0 cw (vt_BlockHash v) + big (vt_Weight v)) cw)
       (store_GetVotesByConflict (l_store l) account prev) []"

definition gatherCandidates :: "ledger \<Rightarrow> string \<Rightarrow> string \<Rightarrow> string list \<Rightarrow> string list" where
  "gatherCandidates l account prev seed =
     remdups (filter (\<lambda>h. h \<noteq> []) seed @
       candidateSet (store_GetVotesByConflict (l_store l) account prev) (store_GetConflict (l_store l) account prev))"

definition positionResolved :: "ledger \<Rightarrow> string \<Rightarrow> string \<Rightarrow> bool" where
  "positionResolved l account prev =
     (if prev = [] \<or> prev = ''0'' then FinalHeight l account > 0
      else case GetBlockHeight l account prev of
             Inl _ \<Rightarrow> False
           | Inr h \<Rightarrow> if h = 0 then False else FinalHeight l account > h)"

fun lowestHash :: "string list \<Rightarrow> string" where
  "lowestHash [] = []"
| "lowestHash (h # hs) = foldl (\<lambda>lowest h'. if h' < lowest then h' else lowest) h hs"

definition finalizedChildAt :: "ledger \<Rightarrow> string \<Rightarrow> string \<Rightarrow> string" where
  "finalizedChildAt l account prev = FinalizedChildHash l account prev"

section \<open>Casting a vote\<close>

definition vote_weight :: "env \<Rightarrow> ledger \<Rightarrow> string \<Rightarrow> string \<Rightarrow> string \<Rightarrow> u64" where
  "vote_weight E l account prev rep =
     (case (case store_GetConflict (l_store l) account prev of None \<Rightarrow> None | Some c \<Rightarrow> cf_WeightSnapshot c) of
        Some snapshot \<Rightarrow> mdef 0 snapshot rep
      | None \<Rightarrow>
          let w = GetVoteWeight E l rep in if 0 \<le> w \<and> w < 2 ^ 64 then word_of_int w else 0)"

definition buildVote :: "env \<Rightarrow> vote_config \<Rightarrow> key_pair \<Rightarrow> ledger \<Rightarrow> string \<Rightarrow> string \<Rightarrow> string \<Rightarrow> bool \<Rightarrow> vote option" where
  "buildVote E C kp l account prev blockHash final =
     (let v = \<lparr>vt_RepPubKey = PubKeyHex kp, vt_BlockHash = blockHash, vt_ConflictAccount = account,
               vt_ConflictPrev = prev, vt_Timestamp = now_ns E, vt_Final = final, vt_Signature = [],
               vt_Weight = vote_weight E l account prev (Address E kp)\<rparr>
      in case voteSigningBytes v of
           Inl _ \<Rightarrow> None
         | Inr sb \<Rightarrow> Some (v\<lparr>vt_Signature := vc_Sign C (kp_Private kp) sb\<rparr>))"

definition VoteEmitter :: "vote \<Rightarrow> 'a vote_mgr_scheme \<Rightarrow> 'a vote_mgr_scheme" where
  "VoteEmitter v s = s\<lparr>vm_emitted := vm_emitted s @ [v]\<rparr>"

definition stamp_revote :: "env \<Rightarrow> string \<Rightarrow> 'a vote_mgr_scheme \<Rightarrow> 'a vote_mgr_scheme" where
  "stamp_revote E key s = s\<lparr>vm_lastRevoteNanos := mput key (now_ns E) (vm_lastRevoteNanos s)\<rparr>"

text \<open>\<open>last == 0 || Now().UnixNano()-last >= int64(revoteBackoff)\<close>\<close>

definition revote_due :: "env \<Rightarrow> string \<Rightarrow> 'a vote_mgr_scheme \<Rightarrow> bool" where
  "revote_due E key s =
     (let stamp = mdef 0 (vm_lastRevoteNanos s) key in stamp = 0 \<or> i64 (now_ns E - stamp) \<ge> revoteBackoff)"

definition note1 :: "env \<Rightarrow> string \<Rightarrow> string \<Rightarrow> 'a vote_mgr_scheme \<Rightarrow> 'a vote_mgr_scheme" where
  "note1 E key h s =
     (let seen = mdef [] (vm_seenCandidates s) key
      in if h \<in> set seen \<or> GetBlockOrStaged (qm_ledger s) h = None then s
         else s\<lparr>vm_seenCandidates := mput key (seen @ [h]) (vm_seenCandidates s),
                vm_lastNewCandidateNanos := mput key (now_ns E) (vm_lastNewCandidateNanos s)\<rparr>)"

definition noteHeldCandidatesLocked :: "env \<Rightarrow> string \<Rightarrow> string \<Rightarrow> string list \<Rightarrow> 'a vote_mgr_scheme \<Rightarrow> 'a vote_mgr_scheme" where
  "noteHeldCandidatesLocked E account prev candidates s =
     (let key = vote_key account prev;
          s1 = s\<lparr>vm_seenCandidates := mput key (mdef [] (vm_seenCandidates s) key) (vm_seenCandidates s)\<rparr>
      in fold (note1 E key) candidates s1)"

definition stabilityWindowRemaining :: "env \<Rightarrow> string \<Rightarrow> string \<Rightarrow> 'a vote_mgr_scheme \<Rightarrow> int \<times> bool" where
  "stabilityWindowRemaining E account prev s =
     (let stamp = mdef 0 (vm_lastNewCandidateNanos s) (vote_key account prev)
      in if stamp = 0 then (lockStabilityWindow, False)
         else (i64 (lockStabilityWindow - i64 (now_ns E - stamp)), True))"

definition scheduleStabilityRedrive :: "env \<Rightarrow> string \<Rightarrow> string \<Rightarrow> int \<Rightarrow> 'a vote_mgr_scheme \<Rightarrow> 'a vote_mgr_scheme" where
  "scheduleStabilityRedrive E account prev remaining s =
     (let key = vote_key account prev
      in if vm_closed s \<or> mhas (vm_pendingStabilityRedrive s) key then s
         else s\<lparr>vm_pendingStabilityRedrive :=
                  mput key (account, prev, now_ns E + remaining + 10 ^ 8) (vm_pendingStabilityRedrive s)\<rparr>)"

definition emitFinalLocked :: "env \<Rightarrow> vote_config \<Rightarrow> key_pair \<Rightarrow> string \<Rightarrow> string \<Rightarrow> string \<Rightarrow> 'a vote_mgr_scheme \<Rightarrow> 'a vote_mgr_scheme" where
  "emitFinalLocked E C kp account prev lockTarget s =
     (let ((locked, _), m) = store_PutFinalVoteIfAbsent account prev lockTarget (l_store (qm_ledger s));
          s1 = on_store (\<lambda>_. m) s;
          l = qm_ledger s1
      in case GetBlockOrStaged l locked of
           None \<Rightarrow> s1
         | Some lockedBlock \<Rightarrow>
             if \<not> depsFinalized l lockedBlock then s1
             else if (case store_GetVote (l_store l) account prev (PubKeyHex kp) of
                        None \<Rightarrow> False | Some existing \<Rightarrow> vt_Final existing \<and> vt_BlockHash existing = locked)
             then s1
             else case buildVote E C kp l account prev locked True of
                    None \<Rightarrow> s1
                  | Some v \<Rightarrow>
                      let s2 = on_store (store_PutVote v) s1
                      in if \<not> vc_Sync C then s2 else VoteEmitter v (OnVote E v s2))"

definition maybeLockLocked :: "env \<Rightarrow> vote_config \<Rightarrow> key_pair \<Rightarrow> string \<Rightarrow> string \<Rightarrow> string \<Rightarrow> 'a vote_mgr_scheme \<Rightarrow> 'a vote_mgr_scheme" where
  "maybeLockLocked E C kp account prev pref s =
     (let l = qm_ledger s
      in if \<not> thresholdMet (mget (convergeWeights l account prev) pref) (electionTotalWeight E l account prev) then s
         else
         let (remaining, ok) = stabilityWindowRemaining E account prev s
         in if \<not> ok \<or> remaining > 0 then scheduleStabilityRedrive E account prev (max 0 remaining) s
            else emitFinalLocked E C kp account prev pref s)"

text \<open>The non-final vote for the preferred block, when it is new or due again.\<close>

definition emit_preference :: "env \<Rightarrow> vote_config \<Rightarrow> key_pair \<Rightarrow> string \<Rightarrow> string \<Rightarrow> string \<Rightarrow> 'a vote_mgr_scheme \<Rightarrow> 'a vote_mgr_scheme" where
  "emit_preference E C kp account prev pref s =
     (let key = vote_key account prev;
          prefChanged = (case store_GetVote (l_store (qm_ledger s)) account prev (PubKeyHex kp) of
                           None \<Rightarrow> True | Some existing \<Rightarrow> vt_BlockHash existing \<noteq> pref \<or> vt_Final existing)
      in if prefChanged \<or> revote_due E key s
         then case buildVote E C kp (qm_ledger s) account prev pref False of
                None \<Rightarrow> s
              | Some v \<Rightarrow> stamp_revote E key (VoteEmitter v (OnVote E v (on_store (store_PutVote v) s)))
         else s)"

definition reaffirm_own :: "env \<Rightarrow> vote_config \<Rightarrow> key_pair \<Rightarrow> string \<Rightarrow> string \<Rightarrow> vote \<Rightarrow> 'a vote_mgr_scheme \<Rightarrow> 'a vote_mgr_scheme" where
  "reaffirm_own E C kp account prev existing s =
     (let key = vote_key account prev
      in if revote_due E key s \<and> vc_Sync C
         then let s1 = stamp_revote E key s
              in case buildVote E C kp (qm_ledger s1) account prev (vt_BlockHash existing) True of
                   None \<Rightarrow> s1
                 | Some freshVote \<Rightarrow> VoteEmitter freshVote s1
         else s)"

definition cast_preference :: "env \<Rightarrow> vote_config \<Rightarrow> key_pair \<Rightarrow> string \<Rightarrow> string \<Rightarrow> string list \<Rightarrow> 'a vote_mgr_scheme \<Rightarrow> 'a vote_mgr_scheme" where
  "cast_preference E C kp account prev candidates s =
     (let s1 = noteHeldCandidatesLocked E account prev candidates s;
          l = qm_ledger s1;
          conflict = store_GetConflict (l_store l) account prev;
          eligible = filter (\<lambda>h. GetBlockOrStaged l h \<noteq> None \<or>
                       (case conflict of None \<Rightarrow> False | Some c \<Rightarrow> h \<in> set (cf_BlockHashes c))) candidates
      in if eligible = [] then s1
         else
         let pref = lowestHash eligible
         in case GetBlockOrStaged l pref of
              None \<Rightarrow> s1
            | Some prefBlock \<Rightarrow>
                if \<not> depsFinalized l prefBlock then s1
                else maybeLockLocked E C kp account prev pref (emit_preference E C kp account prev pref s1))"

definition castVoteLocked :: "env \<Rightarrow> vote_config \<Rightarrow> string \<Rightarrow> string \<Rightarrow> string list \<Rightarrow> 'a vote_mgr_scheme \<Rightarrow> 'a vote_mgr_scheme" where
  "castVoteLocked E C account prev seed s =
     (case vc_keyPair C of
        None \<Rightarrow> s
      | Some kp \<Rightarrow>
      let l = qm_ledger s
      in if GetVoteWeight E l (Address E kp) \<le> 0 then s
         else if positionResolved l account prev then s
         else case store_GetVote (l_store l) account prev (PubKeyHex kp) of
                Some existing \<Rightarrow>
                  if vt_Final existing then reaffirm_own E C kp account prev existing s
                  else (case store_GetFinalVote (l_store l) account prev of
                          Some locked \<Rightarrow> emitFinalLocked E C kp account prev locked s
                        | None \<Rightarrow>
                            let candidates = gatherCandidates l account prev seed
                            in if candidates = [] then s else cast_preference E C kp account prev candidates s)
              | None \<Rightarrow>
                  (case store_GetFinalVote (l_store l) account prev of
                     Some locked \<Rightarrow> emitFinalLocked E C kp account prev locked s
                   | None \<Rightarrow>
                       let candidates = gatherCandidates l account prev seed
                       in if candidates = [] then s else cast_preference E C kp account prev candidates s))"

definition CastVote :: "env \<Rightarrow> vote_config \<Rightarrow> string \<Rightarrow> string \<Rightarrow> string list \<Rightarrow> 'a vote_mgr_scheme \<Rightarrow> 'a vote_mgr_scheme" where
  "CastVote E C account prev seed s = castVoteLocked E C account prev seed s"

definition OnBlockAdded :: "env \<Rightarrow> vote_config \<Rightarrow> block \<Rightarrow> 'a vote_mgr_scheme \<Rightarrow> 'a vote_mgr_scheme" where
  "OnBlockAdded E C b s =
     (if blk_Type b = BlockGenesis then s else CastVote E C (blk_Account b) (blk_Previous b) [blk_Hash b] s)"

text \<open>A timer of the stability window fires.\<close>

definition stability_redrive :: "env \<Rightarrow> vote_config \<Rightarrow> string \<Rightarrow> 'a vote_mgr_scheme \<Rightarrow> 'a vote_mgr_scheme" where
  "stability_redrive E C key s =
     (case mget (vm_pendingStabilityRedrive s) key of
        None \<Rightarrow> s
      | Some (account, prev, _) \<Rightarrow>
          let s1 = s\<lparr>vm_pendingStabilityRedrive := mdel key (vm_pendingStabilityRedrive s)\<rparr>
          in if vm_closed s1 then s1 else CastVote E C account prev [] s1)"

definition vm_Close :: "'a vote_mgr_scheme \<Rightarrow> 'a vote_mgr_scheme" where
  "vm_Close s = s\<lparr>vm_closed := True, vm_pendingStabilityRedrive := []\<rparr>"

section \<open>Receiving a vote\<close>

definition receiveVoteInner :: "env \<Rightarrow> vote \<Rightarrow> 'a vote_mgr_scheme \<Rightarrow> 'a vote_mgr_scheme" where
  "receiveVoteInner E v0 s =
     (let l = qm_ledger s; account = vt_ConflictAccount v0; prev = vt_ConflictPrev v0
      in if (case store_GetVote (l_store l) account prev (vt_RepPubKey v0) of
               None \<Rightarrow> False | Some existing \<Rightarrow> vt_Final existing)
         then s
         else
         let v = v0\<lparr>vt_Weight := vote_weight E l account prev (RepAccount E v0)\<rparr>;
             s1 = on_store (store_PutVote v) s;
             s2 = s1\<lparr>vm_lastRevoteNanos := mdel (vote_key account prev) (vm_lastRevoteNanos s1)\<rparr>
         in OnVote E v s2)"

definition flushPendingVotes :: "env \<Rightarrow> string \<Rightarrow> string \<Rightarrow> 'a vote_mgr_scheme \<Rightarrow> 'a vote_mgr_scheme" where
  "flushPendingVotes E account prev s =
     (let key = vote_key account prev; pending = mdef [] (vm_pendingVotes s) key;
          s1 = s\<lparr>vm_pendingVotes := mdel key (vm_pendingVotes s)\<rparr>
      in fold (\<lambda>v s'. case ValidateVote E (qm_ledger s') v of
                        Inl _ \<Rightarrow> s' | Inr _ \<Rightarrow> receiveVoteInner E v s') pending s1)"

definition OnConflict :: "env \<Rightarrow> vote_config \<Rightarrow> conflict \<Rightarrow> 'a vote_mgr_scheme \<Rightarrow> 'a vote_mgr_scheme" where
  "OnConflict E C c s =
     (if cf_BlockHashes c = [] then s
      else castVoteLocked E C (cf_AccountAddress c) (cf_PreviousHash c) (cf_BlockHashes c)
             (flushPendingVotes E (cf_AccountAddress c) (cf_PreviousHash c) s))"

definition reaffirmFromState :: "env \<Rightarrow> vote_config \<Rightarrow> string \<Rightarrow> string \<Rightarrow> 'a vote_mgr_scheme \<Rightarrow> 'a vote_mgr_scheme" where
  "reaffirmFromState E C account prev s =
     (case vc_keyPair C of
        None \<Rightarrow> s
      | Some kp \<Rightarrow>
          let l = qm_ledger s; key = vote_key account prev
          in if GetVoteWeight E l (Address E kp) \<le> 0 then s
             else if \<not> revote_due E key s then s
             else
             let s1 = stamp_revote E key s; winner = finalizedChildAt l account prev
             in if winner = [] then s1
                else case buildVote E C kp l account prev winner True of
                       None \<Rightarrow> s1
                     | Some freshVote \<Rightarrow> VoteEmitter freshVote s1)"

definition ReceiveVote :: "env \<Rightarrow> vote_config \<Rightarrow> vote \<Rightarrow> 'a vote_mgr_scheme \<Rightarrow> unit result \<times> 'a vote_mgr_scheme" where
  "ReceiveVote E C v s =
     (let l = qm_ledger s; account = vt_ConflictAccount v; prev = vt_ConflictPrev v
      in case ValidateVote E l v of
           Inl e \<Rightarrow> if isConflictNotFound E l v then (Inr (), bufferVote v s) else (Inl e, s)
         | Inr _ \<Rightarrow>
             if positionResolved l account prev then (Inr (), reaffirmFromState E C account prev s)
             else (Inr (), castVoteLocked E C account prev [] (receiveVoteInner E v s)))"

definition VotesForPosition :: "env \<Rightarrow> vote_config \<Rightarrow> string \<Rightarrow> string \<Rightarrow> ledger \<Rightarrow> vote list" where
  "VotesForPosition E C account prev l =
     (let out = store_GetVotesByConflict (l_store l) account prev
      in case vc_keyPair C of
           None \<Rightarrow> out
         | Some kp \<Rightarrow>
             let winner = finalizedChildAt l account prev
             in if GetVoteWeight E l (Address E kp) \<le> 0 then out
                else if winner = [] then out
                else if list_ex (\<lambda>v. vt_RepPubKey v = PubKeyHex kp \<and> vt_Final v) out then out
                else case buildVote E C kp l account prev winner True of
                       None \<Rightarrow> out
                     | Some freshVote \<Rightarrow> out @ [freshVote])"

section \<open>The frontier sweep\<close>

definition hasVoteWeight :: "env \<Rightarrow> vote_config \<Rightarrow> ledger \<Rightarrow> bool" where
  "hasVoteWeight E C l =
     (case vc_keyPair C of None \<Rightarrow> False | Some kp \<Rightarrow> GetVoteWeight E l (Address E kp) > 0)"

definition pullVotesFor :: "env \<Rightarrow> vote_config \<Rightarrow> string \<Rightarrow> string \<Rightarrow> 'a vote_mgr_scheme \<Rightarrow> 'a vote_mgr_scheme" where
  "pullVotesFor E C account prev s =
     (let key = ''pull|'' @ vote_key account prev; stamp = mdef 0 (vm_lastRevoteNanos s) key
      in if stamp \<noteq> 0 \<and> i64 (now_ns E - stamp) < revoteBackoff then s
         else if \<not> vc_VotePullFn C account prev then s
         else stamp_revote E key s)"

definition pullChainVotes :: "env \<Rightarrow> vote_config \<Rightarrow> string \<Rightarrow> account_chain \<Rightarrow> nat \<Rightarrow> 'a vote_mgr_scheme \<Rightarrow> 'a vote_mgr_scheme" where
  "pullChainVotes E C account chain fh s =
     (case find (\<lambda>b. blk_Type b \<noteq> BlockGenesis) (drop fh chain) of
        None \<Rightarrow> s
      | Some lo \<Rightarrow>
          let hi = last chain; s1 = (if hi \<noteq> lo then pullVotesFor E C account (blk_Previous hi) s else s)
          in pullVotesFor E C account (blk_Previous lo) s1)"

definition evictStalePullStamps :: "env \<Rightarrow> 'a vote_mgr_scheme \<Rightarrow> 'a vote_mgr_scheme" where
  "evictStalePullStamps E s =
     (let cutoff = i64 (now_ns E - pullStampTTL)
      in s\<lparr>vm_lastRevoteNanos := filter (\<lambda>(key, stamp). \<not> (HasPrefix key ''pull|'' \<and> stamp < cutoff)) (vm_lastRevoteNanos s)\<rparr>)"

definition sweep_account :: "env \<Rightarrow> vote_config \<Rightarrow> bool \<Rightarrow> string \<Rightarrow> 'a vote_mgr_scheme \<Rightarrow> 'a vote_mgr_scheme" where
  "sweep_account E C pullOnly account s =
     (let fh = unat (FinalHeight (qm_ledger s) account); chain = chain_of (qm_ledger s) account
      in if pullOnly then pullChainVotes E C account chain fh s
         else fold (\<lambda>b s'. if blk_Type b = BlockGenesis then s'
                           else CastVote E C account (blk_Previous b) [blk_Hash b] s') (drop fh chain) s)"

definition sweepFrontiersOnce :: "env \<Rightarrow> vote_config \<Rightarrow> 'a vote_mgr_scheme \<Rightarrow> 'a vote_mgr_scheme" where
  "sweepFrontiersOnce E C s =
     (let pullOnly = \<not> hasVoteWeight E C (qm_ledger s); s1 = evictStalePullStamps E s
      in fold (sweep_account E C pullOnly) (frontier_accounts (qm_ledger s1)) s1)"

definition SweepFrontiers :: "env \<Rightarrow> vote_config \<Rightarrow> 'a vote_mgr_scheme \<Rightarrow> 'a vote_mgr_scheme" where
  "SweepFrontiers E C s = sweepFrontiersOnce E C s"

text \<open>The sweep of the quorum manager with the callback \<open>node/node.go\<close> installs.\<close>

definition sweep_with_revotes :: "env \<Rightarrow> vote_config \<Rightarrow> 'a vote_mgr_scheme \<Rightarrow> 'a vote_mgr_scheme" where
  "sweep_with_revotes E C s = sweepStaleConflicts E (\<lambda>account prev s'. CastVote E C account prev [] s') s"

end
