(* ===== verification/XE_Promotion.thy ===== *)
theory XE_Promotion
  imports XE_Safety
begin

text \<open>
  What a conflict promotion does to the ledger. The undos of a promotion are applied by
  the store in one step together with the winner, which its handler validated against the
  overlay. When the replaced blocks and the winner are payments (sends, receives, burns
  and mints), the result is that of undoing the blocks one by one and then adding the
  winner in the ordinary way, so the invariant of the ledger is kept.
\<close>

section \<open>Undoing a payment\<close>

lemma undone_payment_maps:
  assumes ok: "ledger_ok l" and ch: "mget (m_chains (l_store l)) a = Some c" and b: "b = last c"
    and u: "buildBlockUndo l a b (Some c) = Inr (u, ap)" and t: "unwindable (blk_Type b)"
  shows "m_leases (l_store (undone u ap l)) = m_leases (l_store l)"
    "m_pending (l_store (undone u ap l)) =
       (if blk_Type b = BlockSend then mdel (blk_Hash b) (m_pending (l_store l))
        else if blk_Type b = BlockReceive
        then case receive_pending l b of None \<Rightarrow> m_pending (l_store l)
             | Some ps \<Rightarrow> mput (ps_SendHash ps) ps (m_pending (l_store l))
        else m_pending (l_store l))"
proof -
  note us = undo_shape [OF u] and uf = undone_facts [OF ok ch b u]
  have h: "blk_Hash b \<noteq> []"
  proof -
    have "b \<in> set c" "chain_ok (l_store l) a c" using us(1) ch ok b by (auto simp: ledger_ok_def chains_ok_def)
    then have "mget (m_blocks (l_store l)) (blk_Hash b) = Some b" by (simp add: chain_ok_def list_all_iff)
    then show ?thesis using ok unfolding ledger_ok_def blocks_ok_def by blast
  qed
  have T: "undo_RestoreLease l b = None" "blk_Type b \<noteq> BlockLease" "blk_Type b \<noteq> BlockLeaseRenew"
    using t by (auto simp: unwindable_def undo_RestoreLease_def)
  show "m_leases (l_store (undone u ap l)) = m_leases (l_store l)"
    using T by (simp add: uf(14) applyUndoLocked_def undo_account_def us)
  show "m_pending (l_store (undone u ap l)) =
       (if blk_Type b = BlockSend then mdel (blk_Hash b) (m_pending (l_store l))
        else if blk_Type b = BlockReceive
        then case receive_pending l b of None \<Rightarrow> m_pending (l_store l)
             | Some ps \<Rightarrow> mput (ps_SendHash ps) ps (m_pending (l_store l))
        else m_pending (l_store l))"
    using t h T by (auto simp: uf(12) applyUndoLocked_def undo_pending_def Let_def us undo_AddPending_def unwindable_def
        split: option.splits)
qed

lemma receive_pending_send:
  assumes "ledger_ok l" "receive_pending l b = Some ps"
  obtains src where "mget (m_blocks (l_store l)) (blk_Source b) = Some src" "blk_Type src = BlockSend"
    "ps = send_pending src" "ps_SendHash ps = blk_Source b" "blk_Hash src = blk_Source b"
proof -
  from assms(2) obtain src where s: "mget (m_blocks (l_store l)) (blk_Source b) = Some src" "blk_Type src = BlockSend"
    and ps: "ps = \<lparr>ps_SendHash = blk_Hash src, ps_Source = blk_Account src, ps_Destination = blk_Destination src,
      ps_Amount = blk_Amount src, ps_Asset = assetOf src\<rparr>"
    by (auto simp: receive_pending_def store_GetBlock_def split: option.splits if_splits)
  have "blk_Hash src = blk_Source b" "IsValidAsset (blk_Asset src)"
    using assms(1) s(1) unfolding ledger_ok_def blocks_ok_def by blast+
  with that s ps show ?thesis by (simp add: send_pending_def)
qed

lemma released_onceD:
  "\<lbrakk>released_once l; on_chain l b; releases (blk_Type b)\<rbrakk> \<Longrightarrow> mhas (m_blocks (l_store l)) (blk_Source b)"
  "\<lbrakk>released_once l; on_chain l b; releases (blk_Type b)\<rbrakk> \<Longrightarrow> \<not> mhas (m_pending (l_store l)) (blk_Source b)"
  "\<lbrakk>released_once l; on_chain l b; on_chain l b'; releases (blk_Type b); releases (blk_Type b');
    blk_Source b = blk_Source b'\<rbrakk> \<Longrightarrow> b = b'"
  unfolding released_once_def by blast+

lemma undone_payment_ok:
  assumes ok: "ledger_ok l" and ch: "mget (m_chains (l_store l)) a = Some c" and b: "b = last c"
    and u: "buildBlockUndo l a b (Some c) = Inr (u, ap)" and t: "unwindable (blk_Type b)"
  shows "ledger_ok (undone u ap l)"
proof -
  note us = undo_shape [OF u] and uf = undone_facts [OF ok ch b u] and um = undone_payment_maps [OF ok ch b u t]
  let ?l = "undone u ap l"
  have cok: "chain_ok (l_store l) a c" using ok ch by (auto simp: ledger_ok_def chains_ok_def)
  have cs: "c = butlast c @ [b]" using us(1) b by simp
  have bin: "mget (m_blocks (l_store l)) (blk_Hash b) = Some b" and acc: "blk_Account b = a"
    using cok us(1) b by (auto simp: chain_ok_def list_all_iff)
  have "distinct (map blk_Hash c)" using cok by (simp add: chain_ok_def)
  then have off: "b \<notin> set (butlast c)" using cs by (metis distinct_map distinct_butlast not_distinct_conv_prefix)
  have sub: "on_chain l x \<and> x \<noteq> b" if "on_chain ?l x" for x
    using that off chain_of_Some [OF ch] acc
    by (auto simp: on_chain_def uf(6) dest: in_set_butlastD split: if_splits)
  have bon: "on_chain l b" using cs acc chain_of_Some [OF ch] by (simp add: on_chain_def) (metis in_set_conv_decomp)
  have pend: "mget (m_pending (l_store ?l)) h = mget (m_pending (l_store l)) h \<or>
      mget (m_pending (l_store ?l)) h = None \<and> h = blk_Hash b \<and> blk_Type b = BlockSend \<or>
      blk_Type b = BlockReceive \<and> h = blk_Source b \<and>
        (\<exists>src. mget (m_blocks (l_store l)) h = Some src \<and> blk_Type src = BlockSend \<and>
               mget (m_pending (l_store ?l)) h = Some (send_pending src))" for h
  proof (cases "receive_pending l b")
    case None
    then show ?thesis unfolding um(2) by simp
  next
    case (Some ps)
    then obtain src where "mget (m_blocks (l_store l)) (blk_Source b) = Some src" "blk_Type src = BlockSend"
        "ps = send_pending src" "ps_SendHash ps = blk_Source b"
      using receive_pending_send [OF ok] by metis
    with Some show ?thesis unfolding um(2) by (simp split: if_splits)
  qed
  have po: "mget (m_pending (l_store l)) h = Some ps \<Longrightarrow> \<exists>b. mget (m_blocks (l_store l)) h = Some b \<and>
       (blk_Type b = BlockSend \<and> ps = send_pending b \<or>
        blk_Type b = BlockLease \<and> (\<exists>n. ps = (send_pending b)\<lparr>ps_Amount := n\<rparr>))" for h ps
    using ok unfolding ledger_ok_def pending_ok_def by blast
  have "pending_ok ?l"
    unfolding pending_ok_def uf(1)
  proof (intro allI impI)
    fix h ps assume "mget (m_pending (l_store ?l)) h = Some ps"
    then show "\<exists>b. mget (m_blocks (l_store l)) h = Some b \<and>
       (blk_Type b = BlockSend \<and> ps = send_pending b \<or>
        blk_Type b = BlockLease \<and> (\<exists>n. ps = (send_pending b)\<lparr>ps_Amount := n\<rparr>))"
      using pend [of h] po [of h ps] by auto
  qed
  moreover have lease_pend: "mhas (m_pending (l_store ?l)) h \<longleftrightarrow> mhas (m_pending (l_store l)) h"
    if "mget (m_blocks (l_store l)) h = Some lb" "blk_Type lb = BlockLease" for h lb
    using pend [of h] that bin by (elim disjE) auto
  have "leases_ok ?l"
  proof -
    have lo: "leases_ok l" using ok by (simp add: ledger_ok_def)
    show ?thesis
      unfolding leases_ok_def um(1) uf(1)
    proof (intro conjI allI impI)
      fix h b' assume "mget (m_blocks (l_store l)) h = Some b'" "blk_Type b' \<noteq> BlockLease"
      then show "mget (m_leases (l_store l)) h = None" using lo unfolding leases_ok_def by blast
    next
      fix h ls assume h: "mget (m_leases (l_store l)) h = Some ls"
      then obtain lb where lb: "mget (m_blocks (l_store l)) h = Some lb" "lease_of ls lb"
        using lo unfolding leases_ok_def by blast
      then show "\<exists>b. mget (m_blocks (l_store l)) h = Some b \<and> lease_of ls b" by blast
      show "live ls \<Longrightarrow> \<not> ls_Settled ls" using lo h unfolding leases_ok_def by blast
      show "live ls = mhas (m_pending (l_store ?l)) h"
        using lo h lease_pend [OF lb(1)] lb(2) unfolding leases_ok_def lease_of_def by blast
    next
      fix h b' assume "mget (m_blocks (l_store l)) h = Some b'" "blk_Type b' = BlockLease"
        "mhas (m_pending (l_store ?l)) h"
      then show "mhas (m_leases (l_store l)) h" using lo lease_pend unfolding leases_ok_def by blast
    qed
  qed
  moreover have "released_once ?l"
  proof -
    have ro: "released_once l" using ok by (simp add: ledger_ok_def)
    have "\<not> mhas (m_pending (l_store ?l)) (blk_Source x)" if x: "on_chain ?l x" "releases (blk_Type x)" for x
    proof
      assume "mhas (m_pending (l_store ?l)) (blk_Source x)"
      moreover have "\<not> mhas (m_pending (l_store l)) (blk_Source x)"
        using released_onceD(2) [OF ro _ x(2)] sub [OF x(1)] by blast
      ultimately have "blk_Type b = BlockReceive" "blk_Source x = blk_Source b"
        using pend [of "blk_Source x"] by auto
      then have "x = b"
        using released_onceD(3) [OF ro _ bon x(2)] sub [OF x(1)] by (simp add: releases_def)
      then show False using sub [OF x(1)] by simp
    qed
    then show ?thesis
      unfolding released_once_def uf(1) using sub released_onceD(1) [OF ro] released_onceD(3) [OF ro] by blast
  qed
  moreover have "maps_wf ?l"
  proof -
    have "pending_index_ok (applyUndoLocked u (l_store l))"
    proof (rule index_undo)
      show "pending_index_ok (l_store l)" using ok by (simp add: ledger_ok_def maps_wf_def)
      fix ps ps' assume p: "u_AddPending u = Some ps" "mget (m_pending (l_store l)) (ps_SendHash ps) = Some ps'"
      then have "receive_pending l b = Some ps" "blk_Type b = BlockReceive"
        using t by (auto simp: us undo_AddPending_def unwindable_def)
      then have "mget (m_pending (l_store l)) (blk_Source b) = Some ps'"
        using p(2) receive_pending_send [OF ok] by metis
      moreover have "\<not> mhas (m_pending (l_store l)) (blk_Source b)"
        using released_onceD(2) [OF _ bon] ok \<open>blk_Type b = BlockReceive\<close> by (simp add: ledger_ok_def releases_def)
      ultimately show "ps_Destination ps' = ps_Destination ps" by simp
    qed
    then have "pending_index_ok (l_store ?l)" using pending_index_cong uf(12,13) by metis
    then show ?thesis
      using ok uf(4) unfolding ledger_ok_def maps_wf_def
      by (simp add: uf(1,9,10) um uf(15,16) applyUndo_simps(3,4) split: option.splits)
  qed
  ultimately show ?thesis using uf(3) undone_common [OF ok ch b u] by (simp add: ledger_ok_def)
qed


section \<open>Undoing one by one\<close>

text \<open>The undo of a payment reads only the blocks and the leases, which no undo of a payment changes.\<close>

lemma build_payment_cong:
  assumes "m_blocks (l_store l') = m_blocks (l_store l)" "m_leases (l_store l') = m_leases (l_store l)"
    "unwindable (blk_Type b)"
  shows "buildBlockUndo l' a b co = buildBlockUndo l a b co"
proof -
  have r: "undo_RestoreLease l' b = None" "undo_RestoreLease l b = None"
    using assms(3) by (auto simp: undo_RestoreLease_def unwindable_def)
  have p: "undo_AddPending l' b = undo_AddPending l b"
    using assms(1,3) by (auto simp: undo_AddPending_def unwindable_def receive_pending_def store_GetBlock_def)
  have x: "xusdBalanceOnChain (l_store l') c = xusdBalanceOnChain (l_store l) c" for c
    using assms(2) by (simp add: xusdBalanceOnChain_def settle_stake_def store_GetLease_def cong: if_cong)
  show ?thesis unfolding buildBlockUndo_def r p x ..
qed

lemma payment_repRevert:
  assumes "buildBlockUndo l a b (Some c) = Inr (u, ap)" "unwindable (blk_Type b)"
  shows "ua_repRevert ap = None"
proof -
  have r: "undo_RestoreLease l b = None" using assms(2) by (auto simp: undo_RestoreLease_def unwindable_def)
  from assms show ?thesis
    unfolding buildBlockUndo_def Let_def r by (auto simp: undo_repRevert_def split: if_splits)
qed

lemma cache_store:
  "setAssetBalance a s v (l\<lparr>l_store := m\<rparr>) = (setAssetBalance a s v l)\<lparr>l_store := m\<rparr>"
  "deleteAccountBalances a (l\<lparr>l_store := m\<rparr>) = (deleteAccountBalances a l)\<lparr>l_store := m\<rparr>"
  "subAssetBalance a s v (l\<lparr>l_store := m\<rparr>) = (subAssetBalance a s v l)\<lparr>l_store := m\<rparr>"
  "undo_delegation ap (l\<lparr>l_store := m\<rparr>) = (undo_delegation ap l)\<lparr>l_store := m\<rparr>"
  by (simp_all add: setAssetBalance_def deleteAccountBalances_def subAssetBalance_def)
    (cases "mget (l_weights l) (mdef [] (l_delegation l) (ua_account ap))"; simp add: undo_delegation_def Let_def)

lemma run_apply_store:
  assumes "ua_repRevert ap = None"
  shows "run_apply ap (l\<lparr>l_store := m\<rparr>) = (run_apply ap l)\<lparr>l_store := m\<rparr>"
proof -
  define keyed where "keyed l = (let l1 = (if ua_deleteKeysetAccount ap \<noteq> []
      then l\<lparr>l_keysets := mdel (ua_deleteKeysetAccount ap) (l_keysets l)\<rparr> else l)
    in if ua_deleteAccountKeyAccount ap \<noteq> []
       then l1\<lparr>l_accountKeys := mdel (ua_deleteAccountKeyAccount ap) (l_accountKeys l1)\<rparr> else l1)" for l :: ledger
  have k: "keyed (l\<lparr>l_store := m\<rparr>) = (keyed l)\<lparr>l_store := m\<rparr>" by (simp add: keyed_def Let_def)
  have "run_apply ap l = undo_delegation ap (let l3 = (if ua_deleteAccount ap
      then deleteAccountBalances (ua_account ap) (keyed l)
      else setAssetBalance (ua_account ap) (ua_asset ap) (ua_parentBal ap) (keyed l))
    in case ua_assetDebit ap of None \<Rightarrow> l3
       | Some d \<Rightarrow> subAssetBalance (ad_Account d) (ad_Asset d) (ad_Amount d) l3)" for l
    unfolding run_apply_def keyed_def Let_def assms option.case ..
  then show ?thesis by (cases "ua_assetDebit ap") (simp_all add: k cache_store Let_def)
qed

text \<open>
  \<open>l'\<close> is what the cascade \<open>cb\<close> makes of \<open>l\<close>: the undos applied one after the other. It
  agrees with what the overlay shows of \<open>l\<close>.
\<close>

definition undone_by :: "ledger \<Rightarrow> cascade_build \<Rightarrow> ledger \<Rightarrow> bool" where
  "undone_by l cb l' \<longleftrightarrow>
     ledger_ok l' \<and> l_store l' = fold applyUndoLocked (cb_undos cb) (l_store l) \<and>
     l' = (fold run_apply (cb_memApplies cb) l)\<lparr>l_store := l_store l'\<rparr> \<and>
     m_blocks (l_store l') = m_blocks (l_store l) \<and> m_leases (l_store l') = m_leases (l_store l) \<and>
     (\<forall>a. case mget (cb_chains cb) a of
            None \<Rightarrow> mget (m_chains (l_store l')) a = mget (m_chains (l_store l)) a
          | Some c \<Rightarrow> chain_of l' a = c \<and> unat (FinalHeight l a) \<le> length c \<and>
                      (\<exists>d. mget (m_chains (l_store l)) a = Some (c @ d))) \<and>
     list_all (\<lambda>ap. ua_repRevert ap = None) (cb_memApplies cb) \<and>
     (\<forall>h. getPendingSendOverlay (l\<lparr>l_activeCascade := Some cb\<rparr>) h = mget (m_pending (l_store l')) h) \<and>
     cb_restoreLease cb = [] \<and> cb_deleteLease cb = {} \<and>
     (\<forall>a. (if a \<in> cb_delegated cb then mdef [] (cb_delegation cb) a else mdef [] (l_delegation l) a) =
          mdef [] (l_delegation l') a)"

lemma addUndo_simps:
  "cb_winnerHash (addUndo u ap cb) = cb_winnerHash cb" "cb_undos (addUndo u ap cb) = cb_undos cb @ [u]"
  "cb_memApplies (addUndo u ap cb) = cb_memApplies cb @ [ap]"
  "cb_chains (addUndo u ap cb) = mput (u_Account u) (u_Chain u) (cb_chains cb)"
  "u_RestoreDelegation u \<Longrightarrow> cb_delegation (addUndo u ap cb) = mput (u_Account u) (u_PrevRep u) (cb_delegation cb)"
  "u_RestoreDelegation u \<Longrightarrow> cb_delegated (addUndo u ap cb) = insert (u_Account u) (cb_delegated cb)"
  "u_RestoreLease u = None \<Longrightarrow> u_DeleteLeaseHash u = [] \<Longrightarrow> cb_restoreLease (addUndo u ap cb) = cb_restoreLease cb"
  "u_RestoreLease u = None \<Longrightarrow> u_DeleteLeaseHash u = [] \<Longrightarrow> cb_deleteLease (addUndo u ap cb) = cb_deleteLease cb"
  by (simp_all add: addUndo_def Let_def split: option.splits)

lemma addUndo_pending_maps:
  "cb_addPending (addUndo u ap cb) =
     (let m = (case u_AddPending u of None \<Rightarrow> cb_addPending cb | Some ps \<Rightarrow> mput (ps_SendHash ps) ps (cb_addPending cb))
      in if u_DeletePendingID u \<noteq> [] then mdel (u_DeletePendingID u) m else m)"
  "cb_delPending (addUndo u ap cb) =
     (let d = (case u_AddPending u of None \<Rightarrow> cb_delPending cb | Some ps \<Rightarrow> cb_delPending cb - {ps_SendHash ps})
      in if u_DeletePendingID u \<noteq> [] then insert (u_DeletePendingID u) d else d)"
  by (simp_all add: addUndo_def Let_def split: option.splits)

text \<open>How an undo changes the overlay of the pending sends.\<close>

lemma addUndo_pending:
  "getPendingSendOverlay (l\<lparr>l_activeCascade := Some (addUndo u ap cb)\<rparr>) h =
     (if u_DeletePendingID u \<noteq> [] \<and> h = u_DeletePendingID u then None
      else case u_AddPending u of
             Some ps \<Rightarrow> if h = ps_SendHash ps then Some ps
                        else getPendingSendOverlay (l\<lparr>l_activeCascade := Some cb\<rparr>) h
           | None \<Rightarrow> getPendingSendOverlay (l\<lparr>l_activeCascade := Some cb\<rparr>) h)"
  by (cases "u_AddPending u"; cases "mget (cb_addPending cb) h")
    (simp_all add: addUndo_pending_maps Let_def getPendingSendOverlay_def)

lemma undone_by_new:
  "ledger_ok l \<Longrightarrow> undone_by l (newCascadeBuild h) l"
  by (simp add: undone_by_def newCascadeBuild_def getPendingSendOverlay_def store_GetPendingSend_def)

lemma undone_by_step:
  assumes U: "undone_by l cb l'" and ch: "mget (m_chains (l_store l')) a = Some c"
    and b: "mget (m_blocks (l_store l)) (blk_Hash b) = Some b" and t: "unwindable (blk_Type b)"
    and u: "buildBlockUndo l a b (Some c) = Inr (u, ap)" and f: "unat (FinalHeight l a) < length c"
  shows "undone_by l (addUndo u ap cb) (undone u ap l')"
proof -
  have ok: "ledger_ok l'" and st: "l_store l' = fold applyUndoLocked (cb_undos cb) (l_store l)"
    and me: "l' = (fold run_apply (cb_memApplies cb) l)\<lparr>l_store := l_store l'\<rparr>"
    and bl: "m_blocks (l_store l') = m_blocks (l_store l)" and le: "m_leases (l_store l') = m_leases (l_store l)"
    and chs: "\<And>a. case mget (cb_chains cb) a of
            None \<Rightarrow> mget (m_chains (l_store l')) a = mget (m_chains (l_store l)) a
          | Some c \<Rightarrow> chain_of l' a = c \<and> unat (FinalHeight l a) \<le> length c \<and>
                      (\<exists>d. mget (m_chains (l_store l)) a = Some (c @ d))"
    and rv: "list_all (\<lambda>ap. ua_repRevert ap = None) (cb_memApplies cb)"
    and pe: "\<And>h. getPendingSendOverlay (l\<lparr>l_activeCascade := Some cb\<rparr>) h = mget (m_pending (l_store l')) h"
    and rl: "cb_restoreLease cb = []" "cb_deleteLease cb = {}"
    and de: "\<And>a. (if a \<in> cb_delegated cb then mdef [] (cb_delegation cb) a else mdef [] (l_delegation l) a) =
          mdef [] (l_delegation l') a"
    using U unfolding undone_by_def by blast+
  have u': "buildBlockUndo l' a b (Some c) = Inr (u, ap)" using build_payment_cong [OF bl le t] u by simp
  note us = undo_shape [OF u']
  have "last c \<in> set c" "chain_ok (l_store l') a c" using us(1) ch ok by (auto simp: ledger_ok_def chains_ok_def)
  then have "mget (m_blocks (l_store l')) (blk_Hash (last c)) = Some (last c)" by (simp add: chain_ok_def list_all_iff)
  then have lb: "b = last c" using b unfolding bl us(2) by (simp only: option.inject)
  note uf = undone_facts [OF ok ch lb u'] and um = undone_payment_maps [OF ok ch lb u' t]
  have rr: "ua_repRevert ap = None" by (rule payment_repRevert [OF u t])
  have un: "undone u ap l' = (run_apply ap l')\<lparr>l_store := applyUndoLocked u (l_store l')\<rparr>"
    by (simp add: undone_def run_apply_store [OF rr])
  have rs: "u_RestoreLease u = None" "u_DeleteLeaseHash u = []" using t by (auto simp: us undo_RestoreLease_def unwindable_def)
  show ?thesis
    unfolding undone_by_def
  proof (intro conjI allI)
    show "ledger_ok (undone u ap l')" by (rule undone_payment_ok [OF ok ch lb u' t])
    show "l_store (undone u ap l') = fold applyUndoLocked (cb_undos (addUndo u ap cb)) (l_store l)"
      by (simp add: un st addUndo_simps)
    show "undone u ap l' = (fold run_apply (cb_memApplies (addUndo u ap cb)) l)\<lparr>l_store := l_store (undone u ap l')\<rparr>"
      unfolding un by (subst me) (simp add: addUndo_simps run_apply_store [OF rr])
    show "m_blocks (l_store (undone u ap l')) = m_blocks (l_store l)" by (simp add: uf(1) bl)
    show "m_leases (l_store (undone u ap l')) = m_leases (l_store l)" by (simp add: um(1) le)
    show "list_all (\<lambda>ap. ua_repRevert ap = None) (cb_memApplies (addUndo u ap cb))"
      using rv rr by (simp add: addUndo_simps)
    show "cb_restoreLease (addUndo u ap cb) = []" "cb_deleteLease (addUndo u ap cb) = {}"
      using rs rl by (simp_all add: addUndo_simps)
    show "(if x \<in> cb_delegated (addUndo u ap cb) then mdef [] (cb_delegation (addUndo u ap cb)) x else mdef [] (l_delegation l) x) =
          mdef [] (l_delegation (undone u ap l')) x" for x
      using de [of x] by (auto simp: addUndo_simps us uf(9) set_rep_get mdef_def)
    show "case mget (cb_chains (addUndo u ap cb)) x of
            None \<Rightarrow> mget (m_chains (l_store (undone u ap l'))) x = mget (m_chains (l_store l)) x
          | Some c \<Rightarrow> chain_of (undone u ap l') x = c \<and> unat (FinalHeight l x) \<le> length c \<and>
                      (\<exists>d. mget (m_chains (l_store l)) x = Some (c @ d))" for x
    proof (cases "x = a")
      case True
      have "\<exists>d. mget (m_chains (l_store l)) a = Some (c @ d)"
        using chs [of a] ch chain_of_Some [OF ch] by (auto split: option.splits)
      then have "\<exists>d. mget (m_chains (l_store l)) a = Some (butlast c @ d)"
        using us(1) by (metis append_assoc append_butlast_last_id)
      then show ?thesis using True f by (simp add: addUndo_simps us uf(6))
    next
      case False
      have "mget (m_chains (l_store (undone u ap l'))) x = mget (m_chains (l_store l')) x"
        using False by (simp add: uf(15) applyUndo_simps us)
      then show ?thesis using False chs [of x] by (simp add: addUndo_simps us uf(6) split: option.splits)
    qed
    show "getPendingSendOverlay (l\<lparr>l_activeCascade := Some (addUndo u ap cb)\<rparr>) h = mget (m_pending (l_store (undone u ap l'))) h" for h
    proof -
      have "blk_Hash b \<noteq> []" using ok b bl unfolding ledger_ok_def blocks_ok_def by metis
      then show ?thesis
        using t unfolding addUndo_pending pe um(2)
        by (auto simp: us undo_AddPending_def unwindable_def split: option.splits)
    qed
  qed
qed


lemma above_final_index:
  assumes ok: "ledger_ok l" and sh: "short_chains l" and st: "above_final l st"
    and c: "mget (m_chains (l_store l)) (cs_account st) = Some (c @ d)" "c \<noteq> []" "blk_Hash (last c) = blk_Hash (cs_b st)"
  shows "unat (FinalHeight l (cs_account st)) < length c" "mget (m_blocks (l_store l)) (blk_Hash (cs_b st)) = Some (cs_b st)"
proof -
  have cok: "chain_ok (l_store l) (cs_account st) (c @ d)" using ok c(1) by (auto simp: ledger_ok_def chains_ok_def)
  obtain i where i: "i < length (c @ d)" "(c @ d) ! i = cs_b st" "FinalHeight l (cs_account st) < of_nat (i + 1)"
    using st c(1) by (auto simp: above_final_def store_GetAccountChain_def)
  have dist: "distinct (map blk_Hash (c @ d))" using cok by (simp add: chain_ok_def)
  have lc: "length c - 1 < length (c @ d)" "(c @ d) ! (length c - 1) = last c"
    using c(2) by (cases c; simp add: last_conv_nth nth_append)+
  have "map blk_Hash (c @ d) ! i = map blk_Hash (c @ d) ! (length c - 1)"
    using i(1,2) lc c(3) by (simp only: nth_map)
  then have "i = length c - 1" using dist i(1) lc(1) by (simp only: nth_eq_iff_index_eq length_map)
  then have "i + 1 = length c" using c(2) by (cases c) simp_all
  moreover have "length (c @ d) < 2 ^ 64" using sh c(1) unfolding short_chains_def store_GetAccountChain_def by blast
  ultimately show "unat (FinalHeight l (cs_account st)) < length c"
    using i(3) by (simp add: word_less_nat_alt unat_of_nat)
  have "cs_b st \<in> set (c @ d)" using i(1,2) by (metis nth_mem)
  then show "mget (m_blocks (l_store l)) (blk_Hash (cs_b st)) = Some (cs_b st)"
    using cok by (simp add: chain_ok_def list_all_iff)
qed

lemma build_cascade_undone_by:
  assumes "ledger_ok l" "short_chains l" "build_cascade l plan snapshots cb = Inr cb'" "undone_by l cb l'"
    "list_all (undoable l) plan" "\<And>a. mget snapshots a = mget (cb_chains cb) a"
  shows "\<exists>l''. undone_by l cb' l'' \<and> cb_winnerHash cb' = cb_winnerHash cb"
  using assms(3-6)
proof (induction plan arbitrary: snapshots cb l')
  case Nil
  then show ?case by auto
next
  case (Cons st sts)
  let ?a = "cs_account st" and ?b = "cs_b st"
  from Cons.prems(1) obtain c u ap where
    snap: "(case mget snapshots ?a of Some snap \<Rightarrow> Some snap | None \<Rightarrow> store_GetAccountChain (l_store l) ?a) = Some c"
    and u: "buildBlockUndo l ?a ?b (Some c) = Inr (u, ap)"
    and rest: "build_cascade l sts (mput ?a (u_Chain u) snapshots) (addUndo u ap cb) = Inr cb'"
    by (auto split: option.splits sum.splits prod.splits)
  note us = undo_shape [OF u]
  have chs: "case mget (cb_chains cb) ?a of
            None \<Rightarrow> mget (m_chains (l_store l')) ?a = mget (m_chains (l_store l)) ?a
          | Some c \<Rightarrow> chain_of l' ?a = c \<and> unat (FinalHeight l ?a) \<le> length c \<and>
                      (\<exists>d. mget (m_chains (l_store l)) ?a = Some (c @ d))"
    using Cons.prems(2) unfolding undone_by_def by blast
  have ch: "mget (m_chains (l_store l')) ?a = Some c \<and> (\<exists>d. mget (m_chains (l_store l)) ?a = Some (c @ d))"
    using chs snap us(1) Cons.prems(4) [of ?a]
    by (auto simp: chain_of_def mdef_def store_GetAccountChain_def split: option.splits)
  then obtain d where d: "mget (m_chains (l_store l)) ?a = Some (c @ d)" by blast
  have g: "above_final l st" "unwindable (blk_Type ?b)" using Cons.prems(3) by (simp_all add: undoable_def)
  note af = above_final_index [OF assms(1,2) g(1) d us(1,2)]
  have "undone_by l (addUndo u ap cb) (undone u ap l')"
    by (rule undone_by_step [OF Cons.prems(2) _ af(2) g(2) u af(1)]) (use ch in blast)
  then have "\<exists>l''. undone_by l cb' l'' \<and> cb_winnerHash cb' = cb_winnerHash (addUndo u ap cb)"
    by (rule Cons.IH [OF rest]) (use Cons.prems(3,4) us(3) in \<open>simp_all add: addUndo_simps\<close>)
  then show ?case by (simp add: addUndo_simps)
qed


section \<open>The overlay shows the undone ledger\<close>

lemma run_apply_cascade:
  assumes "ua_repRevert ap = None"
  shows "run_apply ap (l\<lparr>l_activeCascade := x\<rparr>) = (run_apply ap l)\<lparr>l_activeCascade := x\<rparr>"
proof -
  have c: "setAssetBalance a s v (l\<lparr>l_activeCascade := x\<rparr>) = (setAssetBalance a s v l)\<lparr>l_activeCascade := x\<rparr>"
    "deleteAccountBalances a (l\<lparr>l_activeCascade := x\<rparr>) = (deleteAccountBalances a l)\<lparr>l_activeCascade := x\<rparr>"
    "getAssetBalance (l\<lparr>l_activeCascade := x\<rparr>) = getAssetBalance l" for a s v l
    by (simp_all add: setAssetBalance_def deleteAccountBalances_def getAssetBalance_def fun_eq_iff)
  have b: "subAssetBalance a s v (l\<lparr>l_activeCascade := x\<rparr>) = (subAssetBalance a s v l)\<lparr>l_activeCascade := x\<rparr>" for a s v l
    by (simp add: subAssetBalance_def c)
  have d: "undo_delegation ap (l\<lparr>l_activeCascade := x\<rparr>) = (undo_delegation ap l)\<lparr>l_activeCascade := x\<rparr>" for l
    by (cases "mget (l_weights l) (mdef [] (l_delegation l) (ua_account ap))"; simp add: undo_delegation_def Let_def)
  define keyed where "keyed l = (let l1 = (if ua_deleteKeysetAccount ap \<noteq> []
      then l\<lparr>l_keysets := mdel (ua_deleteKeysetAccount ap) (l_keysets l)\<rparr> else l)
    in if ua_deleteAccountKeyAccount ap \<noteq> []
       then l1\<lparr>l_accountKeys := mdel (ua_deleteAccountKeyAccount ap) (l_accountKeys l1)\<rparr> else l1)" for l :: ledger
  have k: "keyed (l\<lparr>l_activeCascade := x\<rparr>) = (keyed l)\<lparr>l_activeCascade := x\<rparr>" by (simp add: keyed_def Let_def)
  have "run_apply ap l = undo_delegation ap (let l3 = (if ua_deleteAccount ap
      then deleteAccountBalances (ua_account ap) (keyed l)
      else setAssetBalance (ua_account ap) (ua_asset ap) (ua_parentBal ap) (keyed l))
    in case ua_assetDebit ap of None \<Rightarrow> l3
       | Some d \<Rightarrow> subAssetBalance (ad_Account d) (ad_Asset d) (ad_Amount d) l3)" for l
    unfolding run_apply_def keyed_def Let_def assms option.case ..
  then show ?thesis by (cases "ua_assetDebit ap") (simp_all add: k c b d Let_def)
qed

lemma fold_run_apply:
  assumes "list_all (\<lambda>ap. ua_repRevert ap = None) aps"
  shows "fold run_apply aps (l\<lparr>l_activeCascade := x, l_store := m\<rparr>) =
    (fold run_apply aps l)\<lparr>l_activeCascade := x, l_store := m\<rparr>"
  using assms by (induction aps arbitrary: l) (simp_all add: run_apply_store run_apply_cascade)

lemma applyUndo_frame:
  "m_staged (applyUndoLocked u m) = m_staged m" "m_conflicts (applyUndoLocked u m) = m_conflicts m"
  by (auto simp: applyUndoLocked_def undo_account_def undo_pending_def undo_chain_def Let_def split: option.splits)

lemma fold_undo_frame:
  "m_staged (fold applyUndoLocked us m) = m_staged m" "m_conflicts (fold applyUndoLocked us m) = m_conflicts m"
  "m_finalHeight (fold applyUndoLocked us m) = m_finalHeight m"
  by (induction us arbitrary: m) (simp_all add: applyUndo_frame applyUndo_simps)

abbreviation overlaid :: "cascade_build \<Rightarrow> ledger \<Rightarrow> ledger" where
  "overlaid cb l \<equiv> l\<lparr>l_activeCascade := Some cb\<rparr>"

text \<open>
  An account whose chain was taken back altogether shows as an empty chain in the overlay
  and is absent from the undone ledger; everything else agrees.
\<close>

lemma overlay_chain:
  assumes "undone_by l cb l'"
  shows "getAccountChainOverlay (overlaid cb l) a = mget (m_chains (l_store l')) a \<or>
    getAccountChainOverlay (overlaid cb l) a = Some [] \<and> mget (m_chains (l_store l')) a = None"
proof -
  have ok: "chains_ok l'" and chs: "case mget (cb_chains cb) a of
            None \<Rightarrow> mget (m_chains (l_store l')) a = mget (m_chains (l_store l)) a
          | Some c \<Rightarrow> chain_of l' a = c \<and> unat (FinalHeight l a) \<le> length c \<and>
                      (\<exists>d. mget (m_chains (l_store l)) a = Some (c @ d))"
    using assms unfolding undone_by_def ledger_ok_def by blast+
  show ?thesis
    using chs chain_of_ok [OF ok, of a]
    by (auto simp: getAccountChainOverlay_def overlayChain_def store_GetAccountChain_def chain_of_def mdef_def
        split: option.splits)
qed

lemma overlay_chain_of:
  assumes "undone_by l cb l'"
  shows "(case getAccountChainOverlay (overlaid cb l) a of None \<Rightarrow> [] | Some c \<Rightarrow> c) = chain_of l' a"
  using overlay_chain [OF assms, of a] by (auto simp: chain_of_def mdef_def)

lemma overlay_balance:
  assumes "undone_by l cb l'" "ledger_ok l" "IsValidAsset s"
  shows "getAssetBalanceOverlay (overlaid cb l) a s = getAssetBalance l' a s"
proof -
  have ok': "ledger_ok l'" and chs: "case mget (cb_chains cb) a of
            None \<Rightarrow> mget (m_chains (l_store l')) a = mget (m_chains (l_store l)) a
          | Some c \<Rightarrow> chain_of l' a = c \<and> unat (FinalHeight l a) \<le> length c \<and>
                      (\<exists>d. mget (m_chains (l_store l)) a = Some (c @ d))"
    using assms(1) unfolding undone_by_def by blast+
  have g: "getAssetBalance l' a s = assetBalanceOnChain (chain_of l' a) s" "getAssetBalance l a s = assetBalanceOnChain (chain_of l a) s"
    using ok' assms(2,3) by (simp_all add: ledger_ok_def balances_ok_def)
  have lo: "leases_ok l" using assms(2) by (simp add: ledger_ok_def)
  show ?thesis
  proof (cases "mget (cb_chains cb) a")
    case None
    then have "chain_of l' a = chain_of l a" using chs by (simp add: chain_of_def mdef_def)
    then show ?thesis
      using None g by (simp add: getAssetBalanceOverlay_def overlayChain_def) (simp add: getAssetBalance_def)
  next
    case (Some c)
    then show ?thesis
      using chs g(1) assms(3) by (auto simp: getAssetBalanceOverlay_def overlayChain_def xusdBalanceOnChain_eq [OF lo] Let_def IsValidAsset_def)
  qed
qed

lemma overlay_views:
  assumes "undone_by l cb l'"
  shows "getPendingSendOverlay (overlaid cb l) h = mget (m_pending (l_store l')) h"
    "getLeaseOverlay (overlaid cb l) h = mget (m_leases (l_store l')) h"
    "contested (overlaid cb l) h = contested l' h"
    "with_delegation (overlaid cb l) c = with_delegation l' c"
proof -
  have st: "l_store l' = fold applyUndoLocked (cb_undos cb) (l_store l)"
    and bl: "m_blocks (l_store l') = m_blocks (l_store l)" and le: "m_leases (l_store l') = m_leases (l_store l)"
    and rl: "cb_restoreLease cb = []" "cb_deleteLease cb = {}" and ok': "ledger_ok l'"
    and de: "\<And>a. (if a \<in> cb_delegated cb then mdef [] (cb_delegation cb) a else mdef [] (l_delegation l) a) =
          mdef [] (l_delegation l') a"
    using assms unfolding undone_by_def by blast+
  show "getPendingSendOverlay (overlaid cb l) h = mget (m_pending (l_store l')) h"
    using assms unfolding undone_by_def by blast
  show "getLeaseOverlay (overlaid cb l) h = mget (m_leases (l_store l')) h"
    by (simp add: getLeaseOverlay_def rl store_GetLease_def le)
  have "m_staged (l_store l') = m_staged (l_store l)" "m_conflicts (l_store l') = m_conflicts (l_store l)"
    by (simp_all add: st fold_undo_frame)
  then show "contested (overlaid cb l) h = contested l' h"
    by (simp add: contested_def GetBlockOrStaged_def store_GetBlock_def store_GetStagedBlock_def store_GetConflict_def bl
        split: option.splits)
  have n: "l_activeCascade l' = None" using ok' by (simp add: ledger_ok_def)
  show "with_delegation (overlaid cb l) c = with_delegation l' c"
    using de [of "c_Account c"] n by (simp add: with_delegation_def overlayDelegationRep_def Let_def split: if_splits)
qed


section \<open>The winner\<close>

lemma overlay_prepare:
  assumes "undone_by l cb l'" "ledger_ok l"
  shows "prepareBlockWrite (overlaid cb l) b = prepareBlockWrite l' b"
proof -
  have ok': "ledger_ok l'" using assms(1) by (simp add: undone_by_def)
  have "IsValidAsset ''XE''" by (simp add: IsValidAsset_def)
  from overlay_balance [OF assms this, of "blk_Account b"] overlay_chain_of [OF assms(1), of "blk_Account b"]
  show ?thesis
    by (simp add: prepareBlockWrite_def Let_def overlay_simps [OF ok_cascade [OF ok']] chain_of_def mdef_def)
qed

lemma overlay_commit:
  assumes U: "undone_by l cb l'" and w: "cb_winnerHash cb = blk_Hash (c_Block c)"
    and r: "commitBlockWrite c p (overlaid cb l) = (Inr (), l2)"
  shows "commitBlockWrite c p l' = (Inr (), l2)"
proof -
  have ok': "ledger_ok l'" and st: "l_store l' = fold applyUndoLocked (cb_undos cb) (l_store l)"
    and me: "l' = (fold run_apply (cb_memApplies cb) l)\<lparr>l_store := l_store l'\<rparr>"
    and rv: "list_all (\<lambda>ap. ua_repRevert ap = None) (cb_memApplies cb)"
    using U unfolding undone_by_def by blast+
  have n: "l_activeCascade l' = None" using ok' by (simp add: ledger_ok_def)
  define c' where "c' = with_delegation l' c"
  have wd: "with_delegation (overlaid cb l) c = c'" unfolding c'_def by (rule overlay_views(4) [OF U])
  have h: "blk_Hash (c_Block c') = blk_Hash (c_Block c)" by (simp add: c'_def)
  from r obtain m where cc: "CommitCascade (cb_undos cb) c' (l_store l) = Inr m"
    and l2: "l2 = post_commit c' p (deactivateCascade (fold run_apply (cb_memApplies cb) ((overlaid cb l)\<lparr>l_store := m\<rparr>)))"
    unfolding commitBlockWrite_def wd Let_def using w h by (auto split: sum.splits)
  have am: "applyCommitLocked c' (l_store l') = Inr m"
    using cc unfolding CommitCascade_def st by (auto split: sum.splits)
  have "fold run_apply (cb_memApplies cb) ((overlaid cb l)\<lparr>l_store := m\<rparr>) =
      (fold run_apply (cb_memApplies cb) l)\<lparr>l_activeCascade := Some cb, l_store := m\<rparr>"
    by (rule fold_run_apply [OF rv])
  moreover have "(fold run_apply (cb_memApplies cb) l)\<lparr>l_store := m, l_activeCascade := None\<rparr> = l'\<lparr>l_store := m\<rparr>"
  proof -
    have "l_activeCascade (fold run_apply (cb_memApplies cb) l) = None"
      using n arg_cong [where f = l_activeCascade, OF me] by simp
    then have "(fold run_apply (cb_memApplies cb) l)\<lparr>l_store := m, l_activeCascade := None\<rparr> =
        (fold run_apply (cb_memApplies cb) l)\<lparr>l_store := m\<rparr>"
      by (intro ledger.equality) simp_all
    also have "\<dots> = l'\<lparr>l_store := m\<rparr>" using arg_cong [where f = "\<lambda>x. x\<lparr>l_store := m\<rparr>", OF me] by simp
    finally show ?thesis .
  qed
  ultimately have "l2 = post_commit c' p (l'\<lparr>l_store := m\<rparr>)" by (simp add: l2 deactivateCascade_def)
  then show ?thesis
    by (simp add: commitBlockWrite_def c'_def [symmetric] Let_def n am)
qed


text \<open>The commit a payment handler builds from the overlay is the one it builds from the undone ledger.\<close>

lemma overlay_spend:
  assumes U: "undone_by l cb l'" and ok: "ledger_ok l" and v: "IsValidAsset (blk_Asset b)"
    and s: "blk_Amount b \<noteq> 0" "blk_Amount b \<le> getAssetBalanceOverlay (overlaid cb l) (blk_Account b) (blk_Asset b)"
  shows "getAccountChainOverlay (overlaid cb l) (blk_Account b) = mget (m_chains (l_store l')) (blk_Account b)"
proof -
  have ok': "ledger_ok l'" using U by (simp add: undone_by_def)
  have "mget (m_chains (l_store l')) (blk_Account b) \<noteq> None"
    using s unopened_balance [OF ok' _ v, where a = "blk_Account b"] unfolding overlay_balance [OF U ok v]
    by (cases "mget (m_chains (l_store l')) (blk_Account b)") (simp_all add: word_le_0_iff)
  then show ?thesis using overlay_chain [OF U, of "blk_Account b"] by auto
qed

lemma overlay_send:
  assumes U: "undone_by l cb l'" and ok: "ledger_ok l" and v: "IsValidAsset (blk_Asset b)"
    and s: "send_commit b (overlaid cb l) = Inr r"
  shows "send_commit b l' = Inr r"
proof -
  have ok': "ledger_ok l'" using U by (simp add: undone_by_def)
  note n = ok_cascade [OF ok'] and ob = overlay_balance [OF U ok v] and op = overlay_prepare [OF U ok]
  have "blk_Amount b \<noteq> 0" "blk_Amount b \<le> getAssetBalanceOverlay (overlaid cb l) (blk_Account b) (blk_Asset b)"
    using s by (auto simp: send_commit_def Let_def not_less split: if_splits sum.splits)
  note sp = overlay_spend [OF U ok v this]
  from s show ?thesis unfolding send_commit_def overlay_simps [OF n] ob op sp .
qed

lemma overlay_burn:
  assumes U: "undone_by l cb l'" and ok: "ledger_ok l" and v: "IsValidAsset (blk_Asset b)"
    and s: "burn_commit b (overlaid cb l) = Inr r"
  shows "burn_commit b l' = Inr r"
proof -
  have ok': "ledger_ok l'" using U by (simp add: undone_by_def)
  note n = ok_cascade [OF ok'] and ob = overlay_balance [OF U ok v] and op = overlay_prepare [OF U ok]
  have "blk_Amount b \<noteq> 0" "blk_Amount b \<le> getAssetBalanceOverlay (overlaid cb l) (blk_Account b) (blk_Asset b)"
    using s by (auto simp: burn_commit_def Let_def not_less split: if_splits sum.splits)
  note sp = overlay_spend [OF U ok v this]
  from s show ?thesis unfolding burn_commit_def overlay_simps [OF n] ob op sp .
qed

lemma overlay_receive:
  assumes U: "undone_by l cb l'" and ok: "ledger_ok l" and v: "IsValidAsset (blk_Asset b)"
    and s: "receive_commit b (overlaid cb l) = Inr r"
  shows "receive_commit b l' = Inr r"
proof -
  have ok': "ledger_ok l'" using U by (simp add: undone_by_def)
  note n = ok_cascade [OF ok'] and ob = overlay_balance [OF U ok v] and op = overlay_prepare [OF U ok]
  have e: "isLiveLeaseEscrow (overlaid cb l) h = isLiveLeaseEscrow l' h" for h
    by (simp add: isLiveLeaseEscrow_def overlay_views [OF U] overlay_simps [OF n])
  note s' = s [unfolded receive_commit_def ob op overlay_views [OF U] e]
  from overlay_chain [OF U, of "blk_Account b"] show ?thesis
  proof
    assume sp: "getAccountChainOverlay (overlaid cb l) (blk_Account b) = mget (m_chains (l_store l')) (blk_Account b)"
    from s' show ?thesis unfolding receive_commit_def overlay_simps [OF n] sp .
  next
    assume a: "getAccountChainOverlay (overlaid cb l) (blk_Account b) = Some [] \<and>
      mget (m_chains (l_store l')) (blk_Account b) = None"
    then have z: "getAssetBalance l' (blk_Account b) (blk_Asset b) = 0" using unopened_balance [OF ok' _ v] by blast
    obtain c p where "prepareBlockWrite l' b = (c, p)" by (cases "prepareBlockWrite l' b")
    then show ?thesis
      using s' a z unfolding receive_commit_def overlay_simps [OF n]
      by (cases "mget (m_pending (l_store l')) (blk_Source b)") (simp_all add: Let_def Frontier_def split: if_splits)
  qed
qed

lemma overlay_mint:
  assumes U: "undone_by l cb l'" and ok: "ledger_ok l" and v: "IsValidAsset (blk_Asset b)"
    and s: "mint_commit E b (overlaid cb l) = Inr r"
  shows "mint_commit E b l' = Inr r"
proof -
  have ok': "ledger_ok l'" using U by (simp add: undone_by_def)
  note n = ok_cascade [OF ok'] and ob = overlay_balance [OF U ok v] and op = overlay_prepare [OF U ok]
  note s' = s [unfolded mint_commit_def ob op]
  from overlay_chain [OF U, of "blk_Account b"] show ?thesis
  proof
    assume sp: "getAccountChainOverlay (overlaid cb l) (blk_Account b) = mget (m_chains (l_store l')) (blk_Account b)"
    from s' show ?thesis unfolding mint_commit_def overlay_simps [OF n] sp .
  next
    assume a: "getAccountChainOverlay (overlaid cb l) (blk_Account b) = Some [] \<and>
      mget (m_chains (l_store l')) (blk_Account b) = None"
    then have z: "getAssetBalance l' (blk_Account b) (blk_Asset b) = 0" using unopened_balance [OF ok' _ v] by blast
    show ?thesis
      using s' a z unfolding mint_commit_def overlay_simps [OF n]
      by (simp add: Let_def Frontier_def check_extends_def split: if_splits)
  qed
qed


definition payment_handler :: "env \<Rightarrow> block \<Rightarrow> ledger \<Rightarrow> unit result \<times> ledger" where
  "payment_handler E b =
     (if blk_Type b = BlockSend then validateAndAddSend b else if blk_Type b = BlockReceive then validateAndAddReceive b
      else if blk_Type b = BlockBurn then validateAndAddBurn b else validateAndAddMint E b)"

lemma dispatch_payment:
  assumes "unwindable (blk_Type b)" "verifyBlockCredential E b l = (Inr x, l1)"
  shows "dispatchValidateAndAdd E b s l = payment_handler E b l1"
  using assms by (auto simp: dispatchValidateAndAdd_def payment_handler_def unwindable_def)

lemma finish_overlay:
  assumes "undone_by l cb l'" "finish r (overlaid cb l) = (Inr (), l2)"
    "\<And>c p. r = Inr (c, p) \<Longrightarrow> r' = Inr (c, p) \<and> cb_winnerHash cb = blk_Hash (c_Block c)"
  shows "finish r' l' = (Inr (), l2)"
  using assms overlay_commit [OF assms(1)] by (auto simp: finish_def split: sum.splits)

lemma finish_reject:
  assumes "finish r (overlaid cb l) = (Inl e, l2)"
  shows "l2 = overlaid cb l"
  using assms by (auto simp: finish_def commitBlockWrite_def Let_def wrap_def split: sum.splits if_splits option.splits)

lemma commit_block_simps:
  "send_commit b l = Inr (c, p) \<Longrightarrow> c_Block c = b" "burn_commit b l = Inr (c, p) \<Longrightarrow> c_Block c = b"
  "receive_commit b l = Inr (c, p) \<Longrightarrow> c_Block c = b" "mint_commit E b l = Inr (c, p) \<Longrightarrow> c_Block c = b"
  by (auto simp: send_commit_def burn_commit_def receive_commit_def mint_commit_def prepareBlockWrite_def Let_def
      split: sum.splits option.splits if_splits)

lemma payment_overlay:
  assumes U: "undone_by l cb l'" and ok: "ledger_ok l" and v: "IsValidAsset (blk_Asset b)"
    and t: "unwindable (blk_Type b)" and w: "cb_winnerHash cb = blk_Hash b"
  shows "payment_handler E b (overlaid cb l) = (Inr (), l2) \<Longrightarrow> payment_handler E b l' = (Inr (), l2)"
    "payment_handler E b (overlaid cb l) = (Inl e, l2) \<Longrightarrow> l2 = overlaid cb l"
proof -
  note o = overlay_send [OF U ok v] overlay_burn [OF U ok v] overlay_receive [OF U ok v] overlay_mint [OF U ok v, where E = E]
  show "payment_handler E b l' = (Inr (), l2)" if "payment_handler E b (overlaid cb l) = (Inr (), l2)"
    using that t w
    unfolding payment_handler_def validateAndAddSend_def validateAndAddReceive_def validateAndAddBurn_def validateAndAddMint_def
    by (auto simp: unwindable_def intro!: finish_overlay [OF U] dest: o commit_block_simps split: if_splits)
  show "l2 = overlaid cb l" if "payment_handler E b (overlaid cb l) = (Inl e, l2)"
    using that finish_reject
    unfolding payment_handler_def validateAndAddSend_def validateAndAddReceive_def validateAndAddBurn_def validateAndAddMint_def
    by (auto split: if_splits)
qed

lemma finish_writes:
  assumes "finish r l = (Inr (), l2)"
  obtains c p where "r = Inr (c, p)" "commitBlockWrite c p l = (Inr (), l2)"
  using assms by (auto simp: finish_def split: sum.splits)

lemma payment_writes:
  assumes "ledger_ok l" "fresh b l" "unwindable (blk_Type b)" "payment_handler E b l = (Inr (), l2)"
  obtains c p where "commit_ok l b c p" "commitBlockWrite c p l = (Inr (), l2)"
proof -
  consider "blk_Type b = BlockSend" | "blk_Type b = BlockReceive" | "blk_Type b = BlockBurn" | "blk_Type b = BlockMint"
    using assms(3) by (auto simp: unwindable_def)
  then show thesis
  proof cases
    case 1
    then have "finish (send_commit b l) l = (Inr (), l2)" using assms(4) by (simp add: payment_handler_def validateAndAddSend_def)
    then show thesis by (rule finish_writes) (rule that [OF send_commit_ok [OF assms(1,2) 1]])
  next
    case 2
    then have "finish (receive_commit b l) l = (Inr (), l2)" using assms(4) by (simp add: payment_handler_def validateAndAddReceive_def)
    then show thesis by (rule finish_writes) (rule that [OF receive_commit_ok [OF assms(1,2) 2]])
  next
    case 3
    then have "finish (burn_commit b l) l = (Inr (), l2)" using assms(4) by (simp add: payment_handler_def validateAndAddBurn_def)
    then show thesis by (rule finish_writes) (rule that [OF burn_commit_ok [OF assms(1,2) 3]])
  next
    case 4
    then have "finish (mint_commit E b l) l = (Inr (), l2)" using assms(4) by (simp add: payment_handler_def validateAndAddMint_def)
    then show thesis by (rule finish_writes) (rule that [OF mint_commit_ok [OF assms(1,2) 4]])
  qed
qed

section \<open>The promotion\<close>

lemma credential_store: "l_store (snd (verifyBlockCredential E b l)) = l_store l"
proof -
  have k: "l_store (snd (GetAccountKey a l)) = l_store l" for a
    by (auto simp: GetAccountKey_def setAccountKey_def Let_def split: option.splits)
  have r: "l_store (snd (resolveMissingKeyset a l)) = l_store l" for a
    by (auto simp: resolveMissingKeyset_def setKeyset_def split: option.splits)
  show ?thesis
    using k [of "blk_Account b"] r [of "blk_Account b"]
    by (auto simp: verifyBlockCredential_def Let_def split_def split: sum.splits option.splits prod.splits)
qed

lemma build_store_cong:
  assumes "l_store l' = l_store l"
  shows "buildBlockUndo l' a b co = buildBlockUndo l a b co"
proof -
  have "undo_AddPending l' b = undo_AddPending l b"
    unfolding undo_AddPending_def receive_pending_def escrowPendingOf_def assms ..
  moreover have "undo_RestoreLease l' b = undo_RestoreLease l b"
    unfolding undo_RestoreLease_def priorLease_def priorLeasePopRenewal_def assms ..
  ultimately show ?thesis unfolding buildBlockUndo_def assms by (simp only:)
qed

lemma build_cascade_store_cong:
  assumes "l_store l' = l_store l"
  shows "build_cascade l' plan snapshots cb = build_cascade l plan snapshots cb"
proof (induction plan arbitrary: snapshots cb)
  case (Cons st sts)
  show ?case unfolding build_cascade.simps assms build_store_cong [OF assms] Cons.IH ..
qed simp

lemma core_cascade:
  assumes "core l' = core (overlaid cb l)" "l_activeCascade l = None"
  shows "core (l'\<lparr>l_activeCascade := None\<rparr>) = core l"
  using assms by (simp add: core_def Let_def)

text \<open>
  A promotion either leaves the ledger as it was, or leads to a ledger that is reached by
  undoing the planned blocks one by one and then adding the winner.
\<close>

definition promoted :: "ledger \<Rightarrow> block \<Rightarrow> ledger \<Rightarrow> bool" where
  "promoted l b l2 \<longleftrightarrow>
     (\<exists>l1 cb l' c p. core l1 = core l \<and> undone_by l1 cb l' \<and> commit_ok l' b c p \<and> commitBlockWrite c p l' = (Inr (), l2))"

lemma run_cascade_promotes:
  assumes ok: "ledger_ok l" and sh: "short_chains l"
    and cb: "build_cascade l plan [] (newCascadeBuild (blk_Hash b)) = Inr cb" and p: "list_all (undoable l) plan"
    and b: "unwindable (blk_Type b)" "IsValidAsset (blk_Asset b)" "mget (m_blocks (l_store l)) (blk_Hash b) = None"
  shows "isl (fst (run_cascade E b cb l)) \<and> core (snd (run_cascade E b cb l)) = core l \<or>
    fst (run_cascade E b cb l) = Inr () \<and> promoted l b (snd (run_cascade E b cb l))"
proof -
  note n = ok_cascade [OF ok]
  have act: "activateCascade cb l = Inr (overlaid cb l)" by (simp add: activateCascade_def n)
  obtain r lo1 where V: "verifyBlockCredential E b (overlaid cb l) = (r, lo1)" by (cases "verifyBlockCredential E b (overlaid cb l)")
  have c1: "core lo1 = core (overlaid cb l)" and s1: "l_store lo1 = l_store l"
    using credential_core [of E b "overlaid cb l"] credential_store [of E b "overlaid cb l"] V by simp_all
  define l1 where "l1 = lo1\<lparr>l_activeCascade := None\<rparr>"
  have cl: "core l1 = core l" unfolding l1_def by (rule core_cascade [OF c1 n])
  have lo: "lo1 = overlaid cb l1"
    using core_eqD(13) [OF c1] by (intro ledger.equality) (simp_all add: l1_def)
  have ok1: "ledger_ok l1" using ledger_ok_core [OF cl] ok by simp
  have st1: "l_store l1 = l_store l" by (simp add: l1_def s1)
  have "undoable l1 = undoable l" by (simp add: fun_eq_iff undoable_def above_final_def FinalHeight_def st1)
  then have sh1: "short_chains l1" and p1: "list_all (undoable l1) plan"
    using sh p st1 by (simp_all add: short_chains_def)
  have "\<exists>l'. undone_by l1 cb l' \<and> cb_winnerHash cb = cb_winnerHash (newCascadeBuild (blk_Hash b))"
  proof (rule build_cascade_undone_by [OF ok1 sh1 _ undone_by_new [OF ok1] p1])
    show "build_cascade l1 plan [] (newCascadeBuild (blk_Hash b)) = Inr cb"
      using cb build_cascade_store_cong [OF st1] by simp
  qed (simp add: newCascadeBuild_def)
  then obtain l' where U: "undone_by l1 cb l'" and w: "cb_winnerHash cb = blk_Hash b" by (auto simp: newCascadeBuild_def)
  have same: "core (deactivateCascade lo1) = core l" using cl by (simp add: l1_def deactivateCascade_def)
  show ?thesis
  proof (cases r)
    case (Inl e)
    then have "isl (fst (run_cascade E b cb l))" "snd (run_cascade E b cb l) = deactivateCascade lo1"
      by (simp_all add: run_cascade_def act dispatchValidateAndAdd_def V wrap_def)
    then show ?thesis using same by simp
  next
    case (Inr x)
    note d = dispatch_payment [OF b(1) V [unfolded Inr], of True, unfolded lo]
    obtain r2 l2 where H: "payment_handler E b (overlaid cb l1) = (r2, l2)" by (cases "payment_handler E b (overlaid cb l1)")
    note po = payment_overlay [OF U ok1 b(2,1) w, where E = E]
    show ?thesis
    proof (cases r2)
      case (Inl e)
      then have "l2 = lo1" using po(2) H lo by simp
      then show ?thesis using Inl H same d by (simp add: run_cascade_def act wrap_def)
    next
      case I2: (Inr y)
      have pl: "payment_handler E b l' = (Inr (), l2)" using po(1) H I2 by simp
      have ok': "ledger_ok l'" and bl: "m_blocks (l_store l') = m_blocks (l_store l)"
        using U st1 unfolding undone_by_def by metis+
      have "blk_Hash b \<noteq> [] \<and> blk_Hash b \<noteq> ''0''"
        using credential_hash [of E b "overlaid cb l"] V Inr DecodeHash_nonempty by fastforce
      then have "fresh b l'" using b bl by (simp add: fresh_def)
      then obtain c p where co: "commit_ok l' b c p" and wr: "commitBlockWrite c p l' = (Inr (), l2)"
        by (rule payment_writes [OF ok' _ b(1) pl])
      then have adv: "advances (Some b) l' l2" by (rule advances.writes [OF settled.same [OF refl] _ _ refl])
      have "l_activeCascade l2 = None" using advances_ok [OF adv ok'] by (simp add: ledger_ok_def)
      then have "deactivateCascade l2 = l2" unfolding deactivateCascade_def by (intro ledger.equality) simp_all
      then have "run_cascade E b cb l = (Inr (), l2)" using H I2 d by (simp add: run_cascade_def act)
      moreover have "promoted l b l2" unfolding promoted_def using cl U co wr by blast
      ultimately show ?thesis by simp
    qed
  qed
qed


lemma undone_by_chain:
  assumes "undone_by l cb l'"
  shows "chain_of l' a = chain_of l a \<or>
    (\<exists>d. chain_of l a = chain_of l' a @ d) \<and> unat (FinalHeight l a) \<le> length (chain_of l' a)"
proof -
  have c: "case mget (cb_chains cb) a of
            None \<Rightarrow> mget (m_chains (l_store l')) a = mget (m_chains (l_store l)) a
          | Some c \<Rightarrow> chain_of l' a = c \<and> unat (FinalHeight l a) \<le> length c \<and>
                      (\<exists>d. mget (m_chains (l_store l)) a = Some (c @ d))"
    using assms unfolding undone_by_def by blast
  then show ?thesis by (cases "mget (cb_chains cb) a") (auto simp: chain_of_def mdef_def)
qed

lemma undone_by_prefix: "undone_by l cb l' \<Longrightarrow> \<exists>d. chain_of l a = chain_of l' a @ d"
  using undone_by_chain [of l cb l' a] by auto

lemma undone_by_final:
  "undone_by l cb l' \<Longrightarrow> unat (FinalHeight l a) \<le> length (chain_of l a) \<Longrightarrow> unat (FinalHeight l a) \<le> length (chain_of l' a)"
  using undone_by_chain [of l cb l' a] by auto

lemma promotedD:
  assumes "promoted l b l2"
  obtains l1 cb l' where "core l1 = core l" "undone_by l1 cb l'" "ledger_ok l'" "advances (Some b) l' l2"
    "blk_Previous b = Frontier (chain_of l' (blk_Account b))"
    "\<forall>a. chain_of l2 a = (if a = blk_Account b then chain_of l' a @ [b] else chain_of l' a)"
proof -
  obtain l1 cb l' c p where "core l1 = core l" and U: "undone_by l1 cb l'" and co: "commit_ok l' b c p"
    and wr: "commitBlockWrite c p l' = (Inr (), l2)"
    using assms unfolding promoted_def by blast
  have ok': "ledger_ok l'" using U unfolding undone_by_def by blast
  show thesis
    by (rule that [OF \<open>core l1 = core l\<close> U ok' advances.writes [OF settled.same [OF refl] co wr refl]])
      (use co written_chain_of [OF ok_cascade [OF ok'] wr co] in \<open>simp_all add: commit_ok_def extends_def\<close>)
qed

lemma promoted_ok: "promoted l b l2 \<Longrightarrow> ledger_ok l2"
  using advances_ok by (blast elim: promotedD)

lemma promoted_final_prefix:
  assumes P: "promoted l b l2" and sh: "short_chains l" and fo: "final_ok l"
  shows "FinalHeight l2 = FinalHeight l \<and> final_prefix l2 a = final_prefix l a \<and> final_ok l2"
proof -
  obtain l1 cb l' where c: "core l1 = core l" and U: "undone_by l1 cb l'" and adv: "advances (Some b) l' l2"
    using P by (rule promotedD)
  have ok': "ledger_ok l'" and st: "l_store l' = fold applyUndoLocked (cb_undos cb) (l_store l1)"
    using U unfolding undone_by_def by blast+
  note fh1 = FinalHeight_core [OF c] and ch1 = core_eqD(15) [OF c]
  have fh': "FinalHeight l' = FinalHeight l1"
    by (simp add: FinalHeight_def store_GetFinalHeight_def st fold_undo_frame fun_eq_iff)
  have pre: "(\<exists>d. chain_of l1 x = chain_of l' x @ d) \<and> unat (FinalHeight l x) \<le> length (chain_of l' x)" for x
    using undone_by_prefix [OF U, of x] undone_by_final [OF U, of x] fo ch1 fh1 by (auto simp: final_ok_def)
  have fo': "final_ok l'" using pre fh' fh1 by (simp add: final_ok_def)
  have fp': "final_prefix l' x = final_prefix l x" for x
    using pre [of x] unfolding final_prefix_def fh' fh1 ch1 [symmetric] by (auto simp: take_append)
  have "short_chains l'"
    unfolding short_chains_def
  proof (intro allI impI)
    fix x d assume "store_GetAccountChain (l_store l') x = Some d"
    then have "chain_of l' x = d" "d \<noteq> []"
      using ok' by (auto simp: store_GetAccountChain_def chain_of_def mdef_def ledger_ok_def chains_ok_def chain_ok_def)
    then obtain e where e: "chain_of l x = d @ e" "d \<noteq> []" using pre [of x] ch1 by auto
    then have "store_GetAccountChain (l_store l) x = Some (d @ e)"
      by (auto simp: chain_of_def mdef_def store_GetAccountChain_def split: option.splits)
    then have "length (d @ e) < 2 ^ 64" using sh unfolding short_chains_def by blast
    then show "length d < 2 ^ 64" by simp
  qed
  from advances_final_prefix [OF adv ok' this fo', of a] fp' [of a] fh' fh1 show ?thesis by simp
qed

section \<open>A swap\<close>

text \<open>
  A fork between payments: the block to replace and its replacement are sends, receives,
  burns or mints, and the replacement was never stored.
\<close>

definition payment_fork :: "ledger \<Rightarrow> string \<Rightarrow> string \<Rightarrow> block \<Rightarrow> bool" where
  "payment_fork l account oldHash b \<longleftrightarrow>
     unwindable (blk_Type b) \<and> IsValidAsset (blk_Asset b) \<and> mget (m_blocks (l_store l)) (blk_Hash b) = None \<and>
     list_all (\<lambda>x. blk_Hash x = oldHash \<longrightarrow> unwindable (blk_Type x)) (chain_of l account)"

lemma swap_effect:
  assumes ok: "ledger_ok l" and sh: "short_chains l" and pf: "payment_fork l account oldHash b"
  shows "isl (fst (swapBlockLocked E account oldHash (blk_Hash b) b l)) \<and>
      core (snd (swapBlockLocked E account oldHash (blk_Hash b) b l)) = core l \<or>
    fst (swapBlockLocked E account oldHash (blk_Hash b) b l) = Inr () \<and>
      promoted l b (snd (swapBlockLocked E account oldHash (blk_Hash b) b l))"
proof -
  have "isl r \<and> core l' = core l \<or> r = Inr () \<and> promoted l b l'"
    if e: "swapBlockLocked E account oldHash (blk_Hash b) b l = (r, l')" for r l'
  proof (cases "isl r \<and> l' = l")
    case False
    with e obtain chain idx plan cb where c: "store_GetAccountChain (l_store l) account = Some chain"
      and i: "first_index (\<lambda>x. blk_Hash x = oldHash) chain = Some idx"
      and f: "\<not> of_nat (idx + 1) \<le> store_GetFinalHeight (l_store l) account"
      and p: "swap_plan (plan_fuel l) l account chain idx = Some (Inr plan)"
      and cb: "build_cascade l plan [] (newCascadeBuild (blk_Hash b)) = Inr cb"
      and r: "run_cascade E b cb l = (r, l')"
      by (auto simp: swapBlockLocked_def split: option.splits if_splits sum.splits)
    have idx: "idx < length chain" "blk_Hash (chain ! idx) = oldHash" using first_index_SomeD [OF i] by simp_all
    obtain plan' where p': "plan = plan' @ [\<lparr>cs_account = account, cs_b = chain ! idx\<rparr>]" "list_all (undoable l) plan'"
      "above_final l \<lparr>cs_account = account, cs_b = chain ! idx\<rparr>"
      by (rule swap_plan_steps [OF c idx(1) sh f p])
    have "chain_of l account = chain" using c by (simp add: chain_of_def mdef_def store_GetAccountChain_def)
    then have "unwindable (blk_Type (chain ! idx))" using pf idx by (auto simp: payment_fork_def list_all_iff)
    then have "undoable l \<lparr>cs_account = account, cs_b = chain ! idx\<rparr>" using p'(3) by (simp add: undoable_def)
    then have "list_all (undoable l) plan" using p' by simp
    with run_cascade_promotes [OF ok sh cb, of E] r pf show ?thesis by (auto simp: payment_fork_def)
  qed simp
  then show ?thesis by (cases "swapBlockLocked E account oldHash (blk_Hash b) b l") simp
qed

lemma linked_nth: "linked p c \<Longrightarrow> i < length c \<Longrightarrow> blk_Previous (c ! i) = (if i = 0 then p else blk_Hash (c ! (i - 1)))"
  by (induction c arbitrary: p i) (auto simp: nth_Cons split: nat.splits)

lemma prefix_position:
  assumes "chain_ok m a (p @ d)" "\<And>x. x \<in> set (p @ d) \<Longrightarrow> blk_Hash x \<noteq> ''0''" "i < length (p @ d)"
    "blk_Previous ((p @ d) ! i) = Frontier p"
  shows "length p = i"
proof -
  let ?c = "p @ d"
  have l: "linked ''0'' ?c" and ds: "distinct (map blk_Hash ?c)" using assms(1) by (simp_all add: chain_ok_def)
  have pr: "blk_Previous (?c ! i) = (if i = 0 then ''0'' else blk_Hash (?c ! (i - 1)))" by (rule linked_nth [OF l assms(3)])
  have fr: "Frontier p = (if length p = 0 then ''0'' else blk_Hash (?c ! (length p - 1)))"
    by (cases "p = []") (simp_all add: Frontier_def last_conv_nth nth_append)
  have z: "blk_Hash (?c ! k) \<noteq> ''0''" if "k < length ?c" for k using assms(2) [OF nth_mem [OF that]] .
  have lt: "i - 1 < length ?c" "length p - 1 < length ?c" using assms(3) by auto
  have "i = 0 \<longleftrightarrow> length p = 0"
    using pr fr assms(4) z [OF lt(1)] z [OF lt(2)] by (cases "i = 0"; cases "length p = 0") simp_all
  show ?thesis
  proof (cases "i = 0")
    case False
    with \<open>i = 0 \<longleftrightarrow> length p = 0\<close> have "map blk_Hash ?c ! (i - 1) = map blk_Hash ?c ! (length p - 1)"
      using pr fr assms(3,4) by (simp add: nth_append split: if_splits)
    then have "i - 1 = length p - 1" using ds assms(3) by (subst (asm) nth_eq_iff_index_eq) auto
    then show ?thesis using False \<open>i = 0 \<longleftrightarrow> length p = 0\<close> by linarith
  qed (use \<open>i = 0 \<longleftrightarrow> length p = 0\<close> in simp)
qed

end
