(* ===== verification/XE_Swap.thy ===== *)
theory XE_Swap
  imports XE_Promotion
begin

text \<open>
  What a promotion does to the ledger, for forks between payments: \<open>swapBlockLocked\<close> of
  \<open>core/ledger.go\<close> either changes nothing or puts the winner in the place of the loser.
\<close>

section \<open>A fork of the sample network\<close>

text \<open>
  The owner of the genesis account signed a second transfer at the same position. The first
  one has already been received by its destination.
\<close>

definition sample_fork :: block where
  "sample_fork = sample_transfer\<lparr>blk_Balance := GenesisSupply - 500, blk_Amount := 500, blk_Hash := sample_hex 2\<rparr>"

lemma sample_fork_simps [simp]:
  "blk_Type sample_fork = BlockSend" "blk_Account sample_fork = sample_hex 8" "blk_Previous sample_fork = sample_hex 56"
  "blk_Signatures sample_fork = []" "blk_PubKey sample_fork = []" "blk_Hash sample_fork = sample_hex 2"
  "blk_Asset sample_fork = ''XE''" "blk_Timestamp sample_fork = 1"
  "blk_Amount sample_fork = 500" "blk_Balance sample_fork = GenesisSupply - 500" "blk_Destination sample_fork = sample_hex 9"
  "blk_Signature sample_fork = hex_EncodeToString (replicate 64 1)" "blk_Representative sample_fork = []"
  "blk_Memo sample_fork = []" "blk_MSKeyset sample_fork = None"
  by (simp_all add: sample_fork_def)

lemma sample_plan:
  "swap_plan (plan_fuel sample_ledger2) sample_ledger2 (sample_hex 8) [sample_genesis, sample_transfer] 1 =
     Some (Inr [\<lparr>cs_account = sample_hex 9, cs_b = sample_receive\<rparr>, \<lparr>cs_account = sample_hex 8, cs_b = sample_transfer\<rparr>])"
  by (simp add: swap_plan_def planCascade_def plan_fuel_def chain_hashes_def store_GetPendingSend_def store_GetBlock_def
     store_GetAccountChain_def FinalHeight_def store_GetFinalHeight_def unwindable_def mdef_def)

lemma sample_cascade:
  obtains cb where "build_cascade sample_ledger2
      [\<lparr>cs_account = sample_hex 9, cs_b = sample_receive\<rparr>, \<lparr>cs_account = sample_hex 8, cs_b = sample_transfer\<rparr>]
      [] (newCascadeBuild (sample_hex 2)) = Inr cb"
    "cb_chains cb = [(sample_hex 9, []), (sample_hex 8, [sample_genesis])]" "cb_winnerHash cb = sample_hex 2"
proof -
  obtain u1 a1 where r: "buildBlockUndo sample_ledger2 (sample_hex 9) sample_receive (Some [sample_receive]) = Inr (u1, a1)"
    and u1: "u_Chain u1 = []" "u_Account u1 = sample_hex 9"
    by (simp add: buildBlockUndo_def reverses_lease_def Let_def)
  obtain u2 a2 where t: "buildBlockUndo sample_ledger2 (sample_hex 8) sample_transfer (Some [sample_genesis, sample_transfer]) = Inr (u2, a2)"
    and u2: "u_Chain u2 = [sample_genesis]" "u_Account u2 = sample_hex 8"
    by (simp add: buildBlockUndo_def reverses_lease_def Let_def)
  show thesis
    by (rule that [of "addUndo u2 a2 (addUndo u1 a1 (newCascadeBuild (sample_hex 2)))"])
      (simp_all add: store_GetAccountChain_def r t u1 u2 addUndo_simps newCascadeBuild_def)
qed

lemma write_keys:
  assumes "l_activeCascade l = None" "commitBlockWrite c p l = (Inr (), l')"
  shows "l_keysets l' = l_keysets l \<and>
    l_accountKeys l' = (if c_PutAccountKey c = [] then l_accountKeys l else mput (c_Account c) (c_PutAccountKey c) (l_accountKeys l))"
proof -
  have f: "l_keysets (updateDelegation a q b x) = l_keysets x" "l_accountKeys (updateDelegation a q b x) = l_accountKeys x" for a q b x
    by (simp_all add: updateDelegation_def Let_def)
  have "c_PutAccountKey (with_delegation l c) = c_PutAccountKey c" "c_Account (with_delegation l c) = c_Account c"
    by (simp_all add: with_delegation_def Let_def)
  then show ?thesis
    using assms by (auto simp: commitBlockWrite_def Let_def post_commit_def f addAssetBalance_def setAssetBalance_def split: sum.splits option.splits)
qed

lemma sample_ledger2_more:
  "l_keysets sample_ledger2 = []" "mget (l_accountKeys sample_ledger2) (sample_hex 8) = Some (sample_hex 7)"
proof -
  have "finish (send_commit sample_transfer sample_ledger) sample_ledger = (Inr (), sample_ledger1)"
    using sample_transfer_added(2) by (simp add: validateAndAddSend_def)
  then have w: "commitBlockWrite ((base_commit sample_ledger sample_transfer)\<lparr>c_AddPending := Some (send_pending sample_transfer)\<rparr>)
      GenesisSupply sample_ledger = (Inr (), sample_ledger1)"
    by (simp add: sample_transfer_commit finish_def)
  have "c_PutAccountKey (base_commit sample_ledger sample_transfer) = []"
    "c_Account (base_commit sample_ledger1 sample_receive) = sample_hex 9"
    by (simp_all add: base_commit_def prepareBlockWrite_def Let_def)
  then show "l_keysets sample_ledger2 = []" "mget (l_accountKeys sample_ledger2) (sample_hex 8) = Some (sample_hex 7)"
    using write_keys [OF sample_ledger_simps(6) w] write_keys [OF sample_ledger1_simps(6) sample_receive_added(2)] by simp_all
qed

lemma sample_fork_credential:
  "verifyBlockCredential sample_env sample_fork (overlaid cb sample_ledger2) = (Inr (), overlaid cb sample_ledger2)"
  by (simp add: verifyBlockCredential_def ValidatePubKeyDeclaration_def GetKeyset_def GetAccountKey_def sample_ledger2_more
      VerifyBlockSignatureWith_def DecodeHash_def sample_VerifyHexSignature)

lemma cascade_write_succeeds:
  assumes "c_ExpectLeaseHash c = []" "cb_winnerHash cb = blk_Hash (c_Block c)"
  shows "fst (commitBlockWrite c p (overlaid cb l)) = Inr ()"
proof -
  have "c_ExpectLeaseHash (with_delegation l' c) = []" "c_Block (with_delegation l' c) = c_Block c" for l'
    using assms by (simp_all add: with_delegation_def Let_def split: option.splits)
  then show ?thesis using assms by (simp add: commitBlockWrite_def Let_def CommitCascade_def applyCommitLocked_def expect_lease_def)
qed

lemma sample_swap: "fst (swapBlockLocked sample_env (sample_hex 8) (sample_hex 1) (sample_hex 2) sample_fork sample_ledger2) = Inr ()"
proof -
  obtain cb where cb: "build_cascade sample_ledger2
      [\<lparr>cs_account = sample_hex 9, cs_b = sample_receive\<rparr>, \<lparr>cs_account = sample_hex 8, cs_b = sample_transfer\<rparr>]
      [] (newCascadeBuild (sample_hex 2)) = Inr cb"
    and ch: "cb_chains cb = [(sample_hex 9, []), (sample_hex 8, [sample_genesis])]" and w: "cb_winnerHash cb = sample_hex 2"
    by (rule sample_cascade)
  have bal: "assetBalanceOnChain [sample_genesis] ''XE'' = GenesisSupply"
    by (simp add: assetBalanceOnChain_def assetOf_def sample_genesis_def zero_block_def)
  obtain c p where c: "send_commit sample_fork (overlaid cb sample_ledger2) = Inr (c, p)"
    and e: "c_ExpectLeaseHash c = []" "c_Block c = sample_fork"
    by (simp add: send_commit_def check_extends_def getAccountChainOverlay_def getAssetBalanceOverlay_def
      overlayChain_def ch Frontier_def bal GenesisSupply_def prepareBlockWrite_def Let_def ValidateMemo_def)
  have "fst (validateAndAddSend sample_fork (overlaid cb sample_ledger2)) = Inr ()"
    using cascade_write_succeeds [OF e(1), of cb p sample_ledger2] w e by (simp add: validateAndAddSend_def c finish_def)
  then have "fst (run_cascade sample_env sample_fork cb sample_ledger2) = Inr ()"
    by (auto simp: run_cascade_def activateCascade_def dispatchValidateAndAdd_def sample_fork_credential split: prod.splits sum.splits)
  moreover have "store_GetAccountChain (l_store sample_ledger2) (sample_hex 8) = Some [sample_genesis, sample_transfer]"
    "first_index (\<lambda>b. blk_Hash b = sample_hex 1) [sample_genesis, sample_transfer] = Some 1"
    "\<not> (of_nat (1 + 1) :: u64) \<le> store_GetFinalHeight (l_store sample_ledger2) (sample_hex 8)"
    by (simp_all add: store_GetAccountChain_def store_GetFinalHeight_def mdef_def word_le_nat_alt)
  ultimately show ?thesis
    unfolding swapBlockLocked_def by (simp only: option.case sample_plan cb sum.case if_False)
qed

lemma sample_ledger2_ok: "ledger_ok sample_ledger2" "short_chains sample_ledger2" "final_ok sample_ledger2"
  using reachable_ledger_ok [OF sample_reachable2]
  by (auto simp: short_chains_def store_GetAccountChain_def final_ok_def FinalHeight_def store_GetFinalHeight_def chain_of_def mdef_def)

lemma sample_payment_fork: "payment_fork sample_ledger2 (sample_hex 8) (sample_hex 1) sample_fork"
  by (simp add: payment_fork_def unwindable_def IsValidAsset_def chain_of_def mdef_def)

section \<open>Properties\<close>

text \<open>
  C9. A promotion is all or nothing and keeps the ledger's invariant: where it fails, the
  ledger is what it was; where it succeeds, the undo of the loser, of everything above it
  and of the receives its sends reached, and the winner's own effects, leave chains,
  balances, weights, pending sends and leases consistent.
\<close>

theorem swapBlockLocked_keeps_invariant:
  assumes "ledger_ok l" "short_chains l" "payment_fork l account oldHash b"
    "swapBlockLocked E account oldHash (blk_Hash b) b l = (r, l')"
  shows "ledger_ok l' \<and> (isl r \<longrightarrow> core l' = core l)"
  using swap_effect [OF assms(1-3), of E] ledger_ok_core [of l' l] promoted_ok [of l b l'] assms(1,4) by auto

theorem swapBlockLocked_keeps_invariant_witness:
  "\<exists>l'. swapBlockLocked sample_env (sample_hex 8) (sample_hex 1) (sample_hex 2) sample_fork sample_ledger2 = (Inr (), l') \<and> ledger_ok l'"
proof -
  obtain l' where s: "swapBlockLocked sample_env (sample_hex 8) (sample_hex 1) (blk_Hash sample_fork) sample_fork sample_ledger2 = (Inr (), l')"
    using sample_swap by (cases "swapBlockLocked sample_env (sample_hex 8) (sample_hex 1) (sample_hex 2) sample_fork sample_ledger2") auto
  from swapBlockLocked_keeps_invariant [OF sample_ledger2_ok(1,2) sample_payment_fork s] s show ?thesis by auto
qed





end
