(* ===== verification/XE_Ballot.thy ===== *)
theory XE_Ballot
  imports XE_Votes XE_Swap
begin

text \<open>
  What block processing leaves alone. Votes, locks, final heights, conflicts and staged
  blocks are written by the quorum and vote managers only: whatever block is offered,
  swapped or undone, the handlers and the rollback keep all five.
\<close>

definition ballot where
  "ballot l = (m_votes (l_store l), m_finalVotes (l_store l), m_finalHeight (l_store l),
     m_conflicts (l_store l), m_staged (l_store l))"

lemma ballotD:
  assumes "ballot l' = ballot l"
  shows "m_votes (l_store l') = m_votes (l_store l)" "m_finalVotes (l_store l') = m_finalVotes (l_store l)"
    "m_finalHeight (l_store l') = m_finalHeight (l_store l)" "m_conflicts (l_store l') = m_conflicts (l_store l)"
    "m_staged (l_store l') = m_staged (l_store l)" "FinalHeight l' = FinalHeight l"
  using assms by (simp_all add: ballot_def FinalHeight_def store_GetFinalHeight_def fun_eq_iff)

lemma ballot_same [simp]: "ballot (l\<lparr>l_store := l_store l\<rparr>) = ballot l"
  by (simp add: ballot_def)

section \<open>Reads and in-memory updates\<close>

lemma ballot_balances [simp]:
  "ballot (setAssetBalance a s v l) = ballot l" "ballot (addAssetBalance a s v l) = ballot l"
  "ballot (subAssetBalance a s v l) = ballot l" "ballot (deleteAccountBalances a l) = ballot l"
  by (simp_all add: ballot_def setAssetBalance_def addAssetBalance_def subAssetBalance_def deleteAccountBalances_def)

lemma ballot_reputation [simp]: "ballot (reputation_Apply ev l) = ballot l" "ballot (reputation_Revert ev l) = ballot l"
  by (simp_all add: ballot_def reputation_Apply_def reputation_Revert_def Let_def)

lemma ballot_delegation [simp]: "ballot (updateDelegation a p b l) = ballot l" "ballot (undo_delegation ap l) = ballot l"
  by (auto simp: ballot_def updateDelegation_def undo_delegation_def Let_def split: option.splits)

lemma ballot_caches [simp]:
  "ballot (setKeyset a ks l) = ballot l" "ballot (setAccountKey a k l) = ballot l"
  "ballot (put_keyset_of b l) = ballot l" "ballot (deactivateCascade l) = ballot l" "ballot (overlaid cb l) = ballot l"
  "ballot (snd (verifyBlockCredential E b l)) = ballot l"
  using credential_store [of E b l]
  by (auto simp: ballot_def setKeyset_def setAccountKey_def put_keyset_of_def deactivateCascade_def split: option.splits)

lemma ballot_record [simp]:
  "ballot (l\<lparr>l_blockCount := n\<rparr>) = ballot l" "ballot (l\<lparr>l_accountKeys := k\<rparr>) = ballot l" "ballot (l\<lparr>l_keysets := ks\<rparr>) = ballot l"
  "ballot (l\<lparr>l_delegation := d\<rparr>) = ballot l" "ballot (l\<lparr>l_weights := w\<rparr>) = ballot l"
  "ballot (l\<lparr>l_assetBalances := x\<rparr>) = ballot l" "ballot (l\<lparr>l_reputation := r\<rparr>) = ballot l"
  by (simp_all add: ballot_def)

section \<open>Commits and undos\<close>

lemma ballot_apply:
  assumes "applyCommitLocked c m = Inr m'"
  shows "ballot (l\<lparr>l_store := m'\<rparr>) = ballot (l\<lparr>l_store := m\<rparr>)"
  using assms by (auto simp: applyCommitLocked_def ballot_def commit_account_def split: sum.splits)

lemma ballot_undo: "ballot (l\<lparr>l_store := applyUndoLocked u m\<rparr>) = ballot (l\<lparr>l_store := m\<rparr>)"
  by (auto simp: applyUndoLocked_def undo_account_def undo_pending_def undo_chain_def ballot_def Let_def split: option.splits)

lemma ballot_undos: "ballot (l\<lparr>l_store := fold applyUndoLocked us m\<rparr>) = ballot (l\<lparr>l_store := m\<rparr>)"
  by (induction us arbitrary: m) (simp_all add: ballot_undo)

lemma ballot_run_apply [simp]: "ballot (run_apply ap l) = ballot l"
  by (simp add: run_apply_def Let_def split: option.split)

lemma ballot_run_applies [simp]: "ballot (fold run_apply aps l) = ballot l"
  by (induction aps arbitrary: l) simp_all

lemma ballot_post_commit [simp]: "ballot (post_commit c p l) = ballot l"
  by (simp add: post_commit_def Let_def split: option.split)

lemma ballot_cascade:
  assumes "CommitCascade us c m = Inr m'"
  shows "ballot (l\<lparr>l_store := m'\<rparr>) = ballot (l\<lparr>l_store := m\<rparr>)"
  using assms ballot_apply [of c "fold applyUndoLocked us m" m' l] ballot_undos [where l = l and us = us and m = m]
  by (auto simp: CommitCascade_def split: sum.splits)

lemma ballot_write [simp]: "ballot (snd (commitBlockWrite c p l)) = ballot l"
  using ballot_apply [of "with_delegation l c" "l_store l" _ l] ballot_cascade [of _ "with_delegation l c" "l_store l" _ l]
  by (simp add: commitBlockWrite_def Let_def split: option.split sum.split)

lemma ballot_finish [simp]: "ballot (snd (finish r l)) = ballot l"
  by (simp add: finish_def split: sum.split prod.split)

lemma ballot_and_then: "(\<And>l. ballot (f l) = ballot l) \<Longrightarrow> ballot (snd (and_then r f)) = ballot (snd r)"
  by (simp add: and_then_def split: sum.split)

lemma ballot_undoBlockApply [simp]: "ballot (snd (undoBlockApply a b l)) = ballot l"
  using ballot_undo [where l = l and m = "l_store l"]
  by (auto simp: undoBlockApply_def ballot_same split: sum.splits)

section \<open>Handlers\<close>

lemma ballot_cancel: "ballot (snd (cancel_resolve E b l)) = ballot l"
proof -
  have "ballot l1 = ballot l" if "undoBlockApply a x l = (r, l1)" for a x r l1
    using ballot_undoBlockApply [of a x l] that by simp
  then show ?thesis
    by (auto simp: cancel_resolve_def resolveCancelWinsOverAccept_def Let_def split: option.splits sum.splits prod.splits)
qed

lemma ballot_genesis: "ballot (snd (validateAndAddGenesis E b l)) = ballot l"
proof -
  have "ballot l1 = ballot l" if "LoadGenesisBlock E l = (r, l1)" for r l1
    using that by (auto simp: LoadGenesisBlock_def ballot_def Let_def split: sum.splits)
  then show ?thesis by (auto simp: validateAndAddGenesis_def addBlockLocked_def split: sum.splits prod.splits)
qed

lemma ballot_handlers:
  "ballot (snd (validateAndAddSend b l)) = ballot l" "ballot (snd (validateAndAddReceive b l)) = ballot l"
  "ballot (snd (validateAndAddBurn b l)) = ballot l" "ballot (snd (validateAndAddMint E b l)) = ballot l"
  "ballot (snd (validateAndAddMultisigOpen E b l)) = ballot l" "ballot (snd (validateAndAddMultisigUpdate b l)) = ballot l"
  "ballot (snd (validateAndAddLease E b l)) = ballot l" "ballot (snd (validateAndAddLeaseAccept E b s l)) = ballot l"
  "ballot (snd (validateAndAddLeaseSettle E b s l)) = ballot l" "ballot (snd (validateAndAddLeaseForceSettle E b s l)) = ballot l"
  "ballot (snd (validateAndAddLeaseRenew E b s l)) = ballot l"
  by (simp_all add: validateAndAddSend_def validateAndAddReceive_def validateAndAddBurn_def validateAndAddMint_def
      validateAndAddMultisigOpen_def validateAndAddMultisigUpdate_def validateAndAddLease_def validateAndAddLeaseAccept_def
      validateAndAddLeaseSettle_def validateAndAddLeaseForceSettle_def validateAndAddLeaseRenew_def ballot_and_then
      split: sum.split prod.split)

lemma ballot_lease_cancel: "ballot (snd (validateAndAddLeaseCancel E b l)) = ballot l"
proof -
  have "ballot l1 = ballot l" if "cancel_resolve E b l = (r, l1)" for r l1
    using ballot_cancel [of E b l] that by simp
  then show ?thesis
    by (auto simp: validateAndAddLeaseCancel_def ballot_and_then split: sum.splits prod.splits)
qed

lemma ballot_dispatch [simp]: "ballot (snd (dispatchValidateAndAdd E b s l)) = ballot l"
proof -
  have "ballot l1 = ballot l" if "verifyBlockCredential E b l = (r, l1)" for r l1
    using ballot_caches(6) [of E b l] that by simp
  then show ?thesis
    by (auto simp: dispatchValidateAndAdd_def ballot_handlers ballot_genesis ballot_lease_cancel
        split: sum.splits prod.splits block_type.splits)
qed

lemma ballot_swap [simp]: "ballot (snd (swapBlockLocked E a h h' b l)) = ballot l"
proof -
  have "ballot l1 = ballot (overlaid cb l)" if "dispatchValidateAndAdd E b True (overlaid cb l) = (r, l1)" for r l1 cb
    using ballot_dispatch [of E b True "overlaid cb l"] that by simp
  then have "ballot (snd (run_cascade E b cb l)) = ballot l" for cb
    by (auto simp: run_cascade_def activateCascade_def split: sum.splits prod.splits option.splits if_splits)
  then show ?thesis by (auto simp: swapBlockLocked_def split: option.splits sum.splits)
qed

lemma ballot_staged [simp]: "ballot (snd (ValidateStagedBlock E b p l)) = ballot l"
  using credential_store [of E b l]
  by (auto simp: ValidateStagedBlock_def ballot_def split: sum.splits prod.splits)

section \<open>A restart\<close>

lemma ballot_fold:
  assumes "\<And>x l. ballot (f x l) = ballot l"
  shows "ballot (fold f xs l) = ballot l"
  by (induction xs arbitrary: l) (simp_all add: assms)

lemma ballot_rebuild1:
  "ballot (rebuild_delegation1 e l) = ballot l" "ballot (rebuild_account a l) = ballot l" "ballot (rebuild_keyset1 a l) = ballot l"
  "ballot (rebuild_key1 a l) = ballot l" "ballot (rebuild_lease_reputation ls l) = ballot l"
  "ballot (rebuild_cancel_reputation b l) = ballot l"
  by (auto simp: rebuild_delegation1_def rebuild_account_def rebuild_keyset1_def rebuild_key1_def rebuild_lease_reputation_def
      rebuild_cancel_reputation_def Let_def split: option.splits prod.splits)

lemma ballot_prune1: "ballot (prune1 a l) = ballot l"
  using ballot_undo [where l = l and m = "l_store l"] by (simp add: prune1_def)

lemma ballot_rebuild: "ballot (rebuild l) = ballot l"
proof -
  have r: "ballot (rebuildReputation l) = ballot l" for l
    unfolding rebuildReputation_def Let_def
    by (subst ballot_fold) (auto simp: ballot_fold ballot_rebuild1 split: option.splits)
  show ?thesis
    by (simp add: rebuild_def pruneChainlessAccounts_def initBlockCount_def rebuildAccountKeys_def rebuildKeysets_def
        rebuildAssetBalances_def rebuildDelegation_def ballot_fold ballot_prune1 ballot_rebuild1 r)
qed

lemma ballot_restart:
  assumes "\<not> store_IsEmpty (l_store l)" "NewLedger E T (l_store l) = Inr l'"
  shows "ballot l' = ballot l"
proof -
  obtain T' where "l' = rebuild (empty_ledger (l_store l) T')" using NewLedger_on_store [OF assms] by blast
  then have "ballot l' = ballot (empty_ledger (l_store l) T')" by (simp add: ballot_rebuild)
  then show ?thesis by (simp add: ballot_def empty_ledger_def)
qed

end
