(* ===== verification/XE_Tally.thy ===== *)
theory XE_Tally
  imports XE_Ballot
begin

text \<open>
  The tally of \<open>core/quorum.go\<close>: what a winner's support amounts to, why two blocks cannot
  both reach the quorum unless representatives sign both, and what the tally changes.
\<close>

section \<open>The weight of a block\<close>

text \<open>A final vote counts for a block that is known and stands at the position.\<close>

definition counts :: "ledger \<Rightarrow> string \<Rightarrow> string \<Rightarrow> string \<Rightarrow> vote \<Rightarrow> bool" where
  "counts l account previous h v \<longleftrightarrow>
     vt_Final v \<and> vt_BlockHash v = h \<and>
     (case GetBlockOrStaged l h of None \<Rightarrow> False | Some b \<Rightarrow> blk_Account b = account \<and> blk_Previous b = previous)"

definition final_weight :: "ledger \<Rightarrow> string \<Rightarrow> string \<Rightarrow> vote list \<Rightarrow> string \<Rightarrow> int" where
  "final_weight l account previous votes h = (\<Sum>v \<leftarrow> filter (counts l account previous h) votes. big (vt_Weight v))"

lemma count_final_weight:
  "mdef 0 (count_final l a p v ws) h = mdef 0 ws h + (if counts l a p h v then big (vt_Weight v) else 0)"
  by (auto simp: count_final_def counts_def mdef_def split: option.splits)

lemma weightByBlock_fold:
  "mdef 0 (fold (count_final l a p) votes ws) h = mdef 0 ws h + final_weight l a p votes h"
proof (induction votes arbitrary: ws)
  case (Cons v vs)
  then show ?case by (simp add: count_final_weight final_weight_def)
qed (simp add: final_weight_def)

lemma weightByBlock_weight: "mdef 0 (weightByBlock l a p votes) h = final_weight l a p votes h"
  unfolding weightByBlock_def weightByBlock_fold by (simp add: mdef_def)

lemma final_weight_nonneg: "0 \<le> final_weight l a p votes h"
  unfolding final_weight_def by (intro sum_list_nonneg) auto

lemma count_final_keys: "keys (count_final l a p v ws) \<subseteq> insert (vt_BlockHash v) (keys ws)"
  by (auto simp: count_final_def split: option.splits)

lemma fold_final_keys: "keys (fold (count_final l a p) votes ws) \<subseteq> vt_BlockHash ` set votes \<union> keys ws"
proof (induction votes arbitrary: ws)
  case (Cons v vs)
  from Cons.IH [of "count_final l a p v ws"] count_final_keys [of l a p v ws] show ?case by simp blast
qed simp

lemma weightByBlock_hashes: "keys (weightByBlock l a p votes) \<subseteq> vt_BlockHash ` set votes"
  using fold_final_keys [of l a p votes "[]"] by (simp add: weightByBlock_def keys_def)

section \<open>Quorums overlap\<close>

text \<open>The representatives whose final vote counts for a block.\<close>

definition backers :: "ledger \<Rightarrow> string \<Rightarrow> string \<Rightarrow> vote list \<Rightarrow> string \<Rightarrow> string set" where
  "backers l account previous votes h = vt_RepPubKey ` set (filter (counts l account previous h) votes)"

lemma final_weight_backers:
  assumes "distinct (map vt_RepPubKey votes)" "\<And>v. v \<in> set votes \<Longrightarrow> big (vt_Weight v) = w (vt_RepPubKey v)"
  shows "final_weight l a p votes h = (\<Sum>r\<in>backers l a p votes h. w r)"
proof -
  let ?vs = "filter (counts l a p h) votes"
  have d: "distinct (map vt_RepPubKey ?vs)" using assms(1) by (simp add: distinct_map_filter)
  have "final_weight l a p votes h = (\<Sum>v\<leftarrow>?vs. w (vt_RepPubKey v))"
    unfolding final_weight_def using assms(2) by (intro arg_cong [where f = sum_list] map_cong) auto
  also have "\<dots> = (\<Sum>r\<leftarrow>map vt_RepPubKey ?vs. w r)" by (simp add: comp_def)
  also have "\<dots> = (\<Sum>r\<in>backers l a p votes h. w r)"
    unfolding backers_def set_map [symmetric] by (rule sum_list_distinct_conv_sum_set [OF d])
  finally show ?thesis .
qed

lemma sum_overlap:
  fixes w :: "'a \<Rightarrow> int"
  assumes "finite R" "A \<subseteq> R" "B \<subseteq> R" "\<And>r. r \<in> R \<Longrightarrow> 0 \<le> w r"
  shows "sum w A + sum w B \<le> sum w R + sum w (A \<inter> B)"
proof -
  have f: "finite A" "finite B" using assms finite_subset by blast+
  have "sum w (A \<union> B) \<le> sum w R" using assms by (intro sum_mono2) auto
  then show ?thesis using sum.union_inter [OF f, of w] by simp
qed


section \<open>The tally\<close>

text \<open>A tally may fill the ledger's key caches; it changes nothing else of the node.\<close>

definition caches_only :: "'a quorum_mgr_scheme \<Rightarrow> 'a quorum_mgr_scheme \<Rightarrow> bool" where
  "caches_only q q' \<longleftrightarrow>
     l_store (qm_ledger q') = l_store (qm_ledger q) \<and> core (qm_ledger q') = core (qm_ledger q) \<and>
     quorum_mgr.more q' = quorum_mgr.more q"

lemma caches_only_refl [simp]: "caches_only q q"
  by (simp add: caches_only_def)

lemma caches_only_trans [trans]: "caches_only q q' \<Longrightarrow> caches_only q' q'' \<Longrightarrow> caches_only q q''"
  by (simp add: caches_only_def)

lemma staged_caches: "l_store (snd (ValidateStagedBlock E b p l)) = l_store l \<and> core (snd (ValidateStagedBlock E b p l)) = core l"
  using credential_store [of E b l] credential_core [of E b l]
  by (auto simp: ValidateStagedBlock_def split: sum.splits prod.splits)

lemma promotable_caches: "caches_only q (snd (promotable E a p h q))"
proof -
  have "l_store l1 = l_store l \<and> core l1 = core l" if "ValidateStagedBlock E b x l = (r, l1)" for b x l r l1
    using staged_caches [of E b x l] that by simp
  then show ?thesis by (auto simp: promotable_def Let_def caches_only_def split: sum.splits option.splits prod.splits)
qed

lemma lowest_promotable_sound:
  assumes "lowest_promotable E a p hs best q = (w, q')"
  shows "(w = best \<or> w \<in> set hs) \<and> caches_only q q'"
  using assms
proof (induction hs arbitrary: best q)
  case (Cons h hs)
  obtain ok q1 where P: "promotable E a p h q = (ok, q1)" by (cases "promotable E a p h q")
  have "caches_only q q1" using promotable_caches [of q E a p h] P by simp
  moreover have "(w = (if ok \<and> (best = [] \<or> h < best) then h else best) \<or> w \<in> set hs) \<and> caches_only q1 q'"
    by (rule Cons.IH) (use Cons.prems P in simp)
  ultimately show ?case using caches_only_trans by (auto split: if_splits)
qed simp

lemma pickWinner_sound:
  assumes "pickWinner E a p prevFinalized candidates h q = (w, q')"
  shows "(w = [] \<or> w = h \<or> prevFinalized \<and> w \<in> set candidates) \<and> caches_only q q'"
proof (cases "h = [] \<or> \<not> prevFinalized")
  case False
  obtain ok q1 where P: "promotable E a p h q = (ok, q1)" by (cases "promotable E a p h q")
  have c: "caches_only q q1" using promotable_caches [of q E a p h] P by simp
  show ?thesis
    using assms False P c caches_only_trans [OF c] lowest_promotable_sound [of E a p candidates "[]" q1 w q']
    by (auto simp: pickWinner_def split: if_splits)
qed (use assms in \<open>auto simp: pickWinner_def\<close>)

lemma first_winner_sound:
  assumes "first_winner E a p prevFinalized candidates T weights hs q = (w, q')"
  shows "caches_only q q' \<and> (w \<noteq> [] \<longrightarrow>
    (\<exists>h\<in>set hs. mdef 0 weights h * quorumDenominator \<ge> T * quorumNumerator \<and> (w = h \<or> prevFinalized \<and> w \<in> set candidates)))"
  using assms
proof (induction hs arbitrary: q)
  case (Cons h hs)
  show ?case
  proof (cases "mdef 0 weights h * quorumDenominator \<ge> T * quorumNumerator")
    case True
    obtain w1 q1 where P: "pickWinner E a p prevFinalized candidates h q = (w1, q1)"
      by (cases "pickWinner E a p prevFinalized candidates h q")
    note s = pickWinner_sound [OF P]
    show ?thesis
    proof (cases "w1 = []")
      case False
      then show ?thesis using Cons.prems True P s by auto
    next
      case e: True
      then have "first_winner E a p prevFinalized candidates T weights hs q1 = (w, q')" using Cons.prems True P by simp
      from Cons.IH [OF this] s show ?thesis using caches_only_trans by (meson list.set_intros(2))
    qed
  next
    case False
    then have "first_winner E a p prevFinalized candidates T weights hs q = (w, q')" using Cons.prems by simp
    from Cons.IH [OF this] show ?thesis by (meson list.set_intros(2))
  qed
qed simp

lemma withhold_caches: "caches_only q (withhold E a p votes c q)"
  by (auto simp: withhold_def shouldLogWithhold_def Let_def caches_only_def split: option.splits)

lemma finalTally_caches: "caches_only q (snd (finalTally E a p q))"
proof -
  have f: "caches_only q q1" if "first_winner E a p pf cs T ws hs q = (w, q1)" for pf cs T ws hs w q1
    using first_winner_sound [OF that] by simp
  show ?thesis
    using f caches_only_trans [OF f withhold_caches] by (auto simp: finalTally_def Let_def split: prod.splits)
qed

lemma finalTally_sound:
  assumes "finalTally E a p q = (Some r, q')"
  defines "votes \<equiv> store_GetVotesByConflict (l_store (qm_ledger q)) a p"
    and "conflict \<equiv> store_GetConflict (l_store (qm_ledger q)) a p"
  shows "tally_total E (qm_ledger q) conflict \<noteq> 0" "qr_WinnerHash r \<noteq> []"
    "r = buildResultFrom a p (qr_WinnerHash r) (candidateSet votes conflict)"
    "\<exists>h\<in>keys (weightByBlock (qm_ledger q) a p votes).
       final_weight (qm_ledger q) a p votes h * quorumDenominator \<ge> tally_total E (qm_ledger q) conflict * quorumNumerator \<and>
       (qr_WinnerHash r = h \<or> (p = ''0'' \<or> IsFinalized (qm_ledger q) a p) \<and> qr_WinnerHash r \<in> set (candidateSet votes conflict))"
proof -
  define T where "T = tally_total E (qm_ledger q) conflict"
  define ws where "ws = weightByBlock (qm_ledger q) a p votes"
  obtain w q1 where F: "first_winner E a p (p = ''0'' \<or> IsFinalized (qm_ledger q) a p) (candidateSet votes conflict) T ws
      (sort (map fst ws)) q = (w, q1)"
    by (cases "first_winner E a p (p = ''0'' \<or> IsFinalized (qm_ledger q) a p) (candidateSet votes conflict) T ws (sort (map fst ws)) q")
  have t: "T \<noteq> 0" and w: "w \<noteq> []" and r: "r = buildResultFrom a p w (candidateSet votes conflict)"
    using assms(1) F unfolding finalTally_def Let_def votes_def [symmetric] conflict_def [symmetric] T_def [symmetric] ws_def [symmetric]
    by (auto split: if_splits)
  have rw: "qr_WinnerHash r = w" using r by (simp add: buildResultFrom_def)
  show "tally_total E (qm_ledger q) conflict \<noteq> 0" "qr_WinnerHash r \<noteq> []"
    "r = buildResultFrom a p (qr_WinnerHash r) (candidateSet votes conflict)"
    using t w r rw by (simp_all add: T_def)
  from first_winner_sound [OF F] w obtain h where "h \<in> set (map fst ws)" "mdef 0 ws h * quorumDenominator \<ge> T * quorumNumerator"
    "w = h \<or> (p = ''0'' \<or> IsFinalized (qm_ledger q) a p) \<and> w \<in> set (candidateSet votes conflict)"
    by auto
  then show "\<exists>h\<in>keys (weightByBlock (qm_ledger q) a p votes).
       final_weight (qm_ledger q) a p votes h * quorumDenominator \<ge> tally_total E (qm_ledger q) conflict * quorumNumerator \<and>
       (qr_WinnerHash r = h \<or> (p = ''0'' \<or> IsFinalized (qm_ledger q) a p) \<and> qr_WinnerHash r \<in> set (candidateSet votes conflict))"
    using rw unfolding keys_def T_def [symmetric] weightByBlock_weight [symmetric] ws_def [symmetric] by auto
qed

lemma winner_candidate:
  assumes "finalTally E a p q = (Some r, q')"
  shows "qr_WinnerHash r \<in> set (candidateSet (store_GetVotesByConflict (l_store (qm_ledger q)) a p)
    (store_GetConflict (l_store (qm_ledger q)) a p))"
  using finalTally_sound(4) [OF assms] weightByBlock_hashes by (fastforce simp: candidateSet_def)

end
