(* ===== verification/XE_Progress.thy ===== *)
theory XE_Progress
  imports XE_Tally
begin

text \<open>
  What only grows. A node's lock on a position (\<open>PutFinalVoteIfAbsent\<close>) is written once and
  the final height of an account never goes down, over every operation of the quorum
  manager, the vote manager and the ledger, in any order.
\<close>

definition progress :: "'a quorum_mgr_scheme \<Rightarrow> 'a quorum_mgr_scheme \<Rightarrow> bool" where
  "progress q q' \<longleftrightarrow>
     mget (m_finalVotes (l_store (qm_ledger q))) \<subseteq>\<^sub>m mget (m_finalVotes (l_store (qm_ledger q'))) \<and>
     (\<forall>a. FinalHeight (qm_ledger q) a \<le> FinalHeight (qm_ledger q') a)"

lemma progress_refl [simp]: "progress q q"
  by (simp add: progress_def)

lemma progress_trans [trans]: "progress q q' \<Longrightarrow> progress q' q'' \<Longrightarrow> progress q q''"
  unfolding progress_def by (meson map_le_trans order_trans)

lemma progress_same:
  assumes "m_finalVotes (l_store (qm_ledger q')) = m_finalVotes (l_store (qm_ledger q))"
    "m_finalHeight (l_store (qm_ledger q')) = m_finalHeight (l_store (qm_ledger q))"
  shows "progress q q'"
  using assms by (simp add: progress_def FinalHeight_def store_GetFinalHeight_def)

lemma progress_ballot: "ballot (qm_ledger q') = ballot (qm_ledger q) \<Longrightarrow> progress q q'"
  by (rule progress_same; erule ballotD)

lemma progress_caches: "caches_only q q' \<Longrightarrow> progress q q'"
  unfolding caches_only_def by (intro progress_same) simp_all

lemma progress_fold:
  assumes "\<And>x q. progress q (f x q)"
  shows "progress q (fold f xs q)"
proof (induction xs arbitrary: q)
  case (Cons x xs)
  from progress_trans [OF assms Cons.IH] show ?case by simp
qed simp

lemma progress_left:
  assumes "progress q' q''" "qm_ledger q' = qm_ledger q"
  shows "progress q q''"
  using assms by (simp add: progress_def)

section \<open>The quorum manager\<close>

lemma progress_request [simp]: "progress q (request r q)"
  by (intro progress_same) (simp_all add: request_def)

lemma reject_frame [simp]:
  "m_finalVotes (rejectBlocks hs m) = m_finalVotes m" "m_finalHeight (rejectBlocks hs m) = m_finalHeight m"
proof -
  have "m_finalVotes (rejectBlocks hs m) = m_finalVotes m \<and> m_finalHeight (rejectBlocks hs m) = m_finalHeight m"
    unfolding rejectBlocks_def by (induction hs arbitrary: m) (simp_all add: store_SetBlockStatus_def)
  then show "m_finalVotes (rejectBlocks hs m) = m_finalVotes m" "m_finalHeight (rejectBlocks hs m) = m_finalHeight m" by simp_all
qed

lemma unstage_frame [simp]:
  "m_finalVotes (fold store_DeleteStagedBlock hs m) = m_finalVotes m"
  "m_finalHeight (fold store_DeleteStagedBlock hs m) = m_finalHeight m"
proof -
  have "m_finalVotes (fold store_DeleteStagedBlock hs m) = m_finalVotes m \<and> m_finalHeight (fold store_DeleteStagedBlock hs m) = m_finalHeight m"
    by (induction hs arbitrary: m) (simp_all add: store_DeleteStagedBlock_def)
  then show "m_finalVotes (fold store_DeleteStagedBlock hs m) = m_finalVotes m"
    "m_finalHeight (fold store_DeleteStagedBlock hs m) = m_finalHeight m" by simp_all
qed

lemma progress_cleanup: "progress q (cleanupResolvedConflict r q)"
  by (intro progress_same)
    (simp_all add: cleanupResolvedConflict_def request_def Let_def store_DeleteConflict_def store_DeleteVotesForConflict_def
      store_DeleteStagedBlock_def)

lemma progress_finalize: "progress q (finalize_winner r q)"
proof -
  let ?q = "on_store (\<lambda>m. finalizeBlock (qr_WinnerHash r) (raise_final_height r m (qm_ledger q))) q"
  have "progress q ?q"
    by (auto simp: progress_def finalizeBlock_def store_SetBlockStatus_def raise_final_height_def store_SetFinalHeight_def
        FinalHeight_def store_GetFinalHeight_def mdef_def split: sum.splits)
  from progress_trans [OF this progress_cleanup] show ?thesis unfolding finalize_winner_def .
qed

lemma progress_swap_losers: "progress q (snd (swap_losers E r w hs q))"
proof (induction hs arbitrary: q)
  case (Cons h hs)
  have "ballot l2 = ballot l" if "swapBlockLocked E a h h' w l = (x, l2)" for a h h' l x l2
    using ballot_swap [of E a h h' w l] that by simp
  note b = ballotD(2,3) [OF this]
  show ?case
    using Cons.IH by (auto simp: Let_def store_SaveStagedBlock_def b intro!: progress_same split: sum.splits option.splits prod.splits)
qed simp

lemma progress_append: "ballot (snd (appendStagedWinner E r w l)) = ballot l"
proof -
  have "ballot l1 = ballot l" if "dispatchValidateAndAdd E w True l = (x, l1)" for x l1
    using ballot_dispatch [of E w True l] that by simp
  then show ?thesis by (auto simp: appendStagedWinner_def Let_def split: sum.splits prod.splits)
qed

lemma progress_promote: "progress q (snd (promote_winner E r w q))"
proof -
  let ?b = "parent_balance (qm_ledger q) (qr_ConflictAccount r) (qr_ConflictPrev r) w"
  obtain x l1 where V: "ValidateStagedBlock E w ?b (qm_ledger q) = (x, l1)" by (cases "ValidateStagedBlock E w ?b (qm_ledger q)")
  have v: "progress q (q\<lparr>qm_ledger := l1\<rparr>)" using ballot_staged [of E w ?b "qm_ledger q"] V by (intro progress_ballot) simp
  obtain y q2 where S: "swap_losers E r w (qr_LoserHashes r) (q\<lparr>qm_ledger := l1\<rparr>) = (y, q2)"
    by (cases "swap_losers E r w (qr_LoserHashes r) (q\<lparr>qm_ledger := l1\<rparr>)")
  have s: "progress q q2" using progress_trans [OF v progress_swap_losers] S by (metis snd_conv)
  obtain z l3 where A: "appendStagedWinner E r w (qm_ledger q2) = (z, l3)" by (cases "appendStagedWinner E r w (qm_ledger q2)")
  have "progress q2 (q2\<lparr>qm_ledger := l3\<rparr>)" using progress_append [of E r w "qm_ledger q2"] A by (intro progress_ballot) simp
  from progress_trans [OF s this] v s V S A show ?thesis
    by (auto simp: promote_winner_def split: sum.splits bool.splits)
qed

lemma progress_confirm: "progress q (snd (confirmConflict E r q))"
proof -
  have "progress q q1" if "promote_winner E r w q = (x, q1)" for w x q1 using progress_promote [of q E r w] that by simp
  then show ?thesis
    by (auto simp: confirmConflict_def progress_cleanup progress_finalize intro: progress_trans [OF _ progress_finalize]
        split: option.splits sum.splits prod.splits bool.splits)
qed

lemma progress_tally: "finalTally E a p q = (x, q1) \<Longrightarrow> progress q q1"
  using progress_caches [OF finalTally_caches [of q E a p]] by simp

lemma progress_Retally: "progress q (Retally E a p q)"
  using progress_trans [OF progress_tally progress_confirm] progress_tally [of E a p q]
  by (auto simp: Retally_def split: prod.splits option.splits)

lemma progress_OnVote: "progress q (OnVote E v q)"
  unfolding OnVote_def by (rule progress_Retally)

lemma progress_tally_and_confirm: "progress q (snd (tally_and_confirm E a p q))"
  using progress_trans [OF progress_tally progress_confirm] progress_tally [of E a p q]
  by (auto simp: tally_and_confirm_def split: prod.splits option.splits)

lemma progress_delete:
  "progress q (on_store (store_DeleteConflict a p) q)"
  "progress q (on_store (\<lambda>m. store_DeleteConflict a p (store_DeleteVotesForConflict a p m)) q)"
  "progress q (trim_conflict c hs q)"
  by (intro progress_same; simp add: store_DeleteConflict_def store_DeleteVotesForConflict_def trim_conflict_def store_SaveConflict_def)+

lemma progress_orphaned: "progress q (snd (dropConflictIfOrphaned c q))"
  by (simp add: dropConflictIfOrphaned_def progress_delete)

lemma progress_resolved: "progress q (snd (dropConflictIfResolved c q))"
  by (simp add: dropConflictIfResolved_def Let_def progress_cleanup)

lemma progress_if: "(c \<Longrightarrow> progress q x) \<Longrightarrow> (\<not> c \<Longrightarrow> progress q y) \<Longrightarrow> progress q (if c then x else y)"
  by simp

lemmas progress_requested =
  progress_trans [OF progress_request progress_delete(1)] progress_trans [OF progress_request progress_delete(2)]
  progress_trans [OF progress_request progress_delete(3)]
  progress_trans [OF _ progress_tally_and_confirm]

lemma progress_evict: "progress q (snd (evictPhantomsAndResolve E c q))"
  unfolding evictPhantomsAndResolve_def Let_def split_def if_distrib [where f = snd] snd_conv
  by (intro progress_if progress_refl progress_requested progress_request progress_delete)

lemma progress_sweep_conflict:
  assumes "\<And>a p q. progress q (f a p q)"
  shows "progress q (sweep_conflict E f c q)"
proof -
  obtain r1 q1 where R: "dropConflictIfResolved c q = (r1, q1)" by (cases "dropConflictIfResolved c q")
  obtain r2 q2 where O: "dropConflictIfOrphaned c q1 = (r2, q2)" by (cases "dropConflictIfOrphaned c q1")
  let ?go = "if now_ns E - cf_DetectedAt c \<ge> phantomEvictionDelay then evictPhantomsAndResolve E c q2
             else (now_ns E - cf_DetectedAt c \<ge> staleConflictAge, q2)"
  obtain go q3 where G: "?go = (go, q3)" by (cases ?go)
  obtain found q5 where T: "tally_and_confirm E (cf_AccountAddress c) (cf_PreviousHash c) (f (cf_AccountAddress c) (cf_PreviousHash c) q3) = (found, q5)"
    by (cases "tally_and_confirm E (cf_AccountAddress c) (cf_PreviousHash c) (f (cf_AccountAddress c) (cf_PreviousHash c) q3)")
  have p1: "progress q q1" using progress_resolved [of q c] R by simp
  have p2: "progress q q2" using progress_trans [OF p1 progress_orphaned [of q1 c]] O by simp
  have p3: "progress q q3" using progress_trans [OF p2 progress_evict [of q2 E c]] p2 G by (auto split: if_splits)
  have p5: "progress q q5"
    using progress_trans [OF progress_trans [OF p3 assms] progress_tally_and_confirm] T by (metis snd_conv)
  from progress_trans [OF p5 progress_request] p1 p2 p3 p5 show ?thesis
    unfolding sweep_conflict_def R Let_def prod.case O G T by simp
qed

lemma progress_sweep:
  assumes "\<And>a p q. progress q (f a p q)"
  shows "progress q (sweepStaleConflicts E f q)"
  unfolding sweepStaleConflicts_def by (rule progress_fold) (rule progress_sweep_conflict [OF assms])


section \<open>The vote manager\<close>

lemma progress_put_vote: "progress q (on_store (store_PutVote v) q)"
  by (intro progress_same) (simp_all add: store_PutVote_def)

lemma progress_emit: "progress s (VoteEmitter v s)" "progress s (stamp_revote E key s)"
  by (intro progress_same; simp add: VoteEmitter_def stamp_revote_def)+

lemma progress_lock:
  "store_PutFinalVoteIfAbsent a p h (l_store (qm_ledger q)) = ((locked, written), m) \<Longrightarrow> progress q (on_store (\<lambda>_. m) q)"
  by (auto simp: store_PutFinalVoteIfAbsent_def progress_def Let_def map_le_def dom_def FinalHeight_def store_GetFinalHeight_def
      split: option.splits)

lemma progress_emitFinal: "progress s (emitFinalLocked E C kp a p h s)"
proof -
  obtain locked written m where P: "store_PutFinalVoteIfAbsent a p h (l_store (qm_ledger s)) = ((locked, written), m)"
    by (cases "store_PutFinalVoteIfAbsent a p h (l_store (qm_ledger s))") auto
  note l = progress_lock [OF P]
  note v = progress_trans [OF l progress_put_vote]
  note e = progress_trans [OF progress_trans [OF v progress_OnVote] progress_emit(1)]
  show ?thesis unfolding emitFinalLocked_def P Let_def prod.case using l v e by (simp split: option.split)
qed

lemma progress_schedule: "progress s (scheduleStabilityRedrive E a p r s)"
  by (intro progress_same) (simp_all add: scheduleStabilityRedrive_def Let_def)

lemma progress_maybeLock: "progress s (maybeLockLocked E C kp a p h s)"
  by (simp add: maybeLockLocked_def Let_def progress_schedule progress_emitFinal split: prod.split)

lemma progress_preference: "progress s (emit_preference E C kp a p h s)"
proof -
  note e = progress_trans [OF progress_trans [OF progress_trans [OF progress_put_vote progress_OnVote] progress_emit(1)] progress_emit(2)]
  show ?thesis by (simp add: emit_preference_def Let_def e split: option.split)
qed

lemma progress_reaffirm_own: "progress s (reaffirm_own E C kp a p v s)"
  by (simp add: reaffirm_own_def Let_def progress_trans [OF progress_emit(2) progress_emit(1)] progress_emit split: option.split)

lemma note1_ledger [simp]: "qm_ledger (note1 E key h s) = qm_ledger s"
  by (simp add: note1_def Let_def)

lemma fold_note1_ledger [simp]: "qm_ledger (fold (note1 E key) hs s) = qm_ledger s"
  by (induction hs arbitrary: s) simp_all

lemma progress_note: "progress s (noteHeldCandidatesLocked E a p hs s)"
  by (intro progress_same) (simp_all add: noteHeldCandidatesLocked_def Let_def)

lemma progress_cast_preference: "progress s (cast_preference E C kp a p cs s)"
  by (simp add: cast_preference_def Let_def progress_note
      progress_trans [OF progress_note progress_trans [OF progress_preference progress_maybeLock]] split: option.split)

lemma progress_cast: "progress s (CastVote E C a p seed s)" "progress s (castVoteLocked E C a p seed s)"
proof -
  show "progress s (castVoteLocked E C a p seed s)"
    by (simp add: castVoteLocked_def Let_def progress_reaffirm_own progress_emitFinal progress_cast_preference split: option.split)
  then show "progress s (CastVote E C a p seed s)" by (simp add: CastVote_def)
qed

lemma progress_block_added: "progress s (OnBlockAdded E C b s)"
  by (simp add: OnBlockAdded_def progress_cast)

lemma progress_redrive: "progress s (stability_redrive E C key s)"
proof -
  have "progress s (s\<lparr>vm_pendingStabilityRedrive := x\<rparr>)" for x by (intro progress_same) simp_all
  from this progress_trans [OF this progress_cast(1)] show ?thesis
    by (simp add: stability_redrive_def Let_def split: option.split prod.split)
qed

lemma progress_receiveInner: "progress s (receiveVoteInner E v s)"
proof -
  let ?v = "v\<lparr>vt_Weight := vote_weight E (qm_ledger s) (vt_ConflictAccount v) (vt_ConflictPrev v) (RepAccount E v)\<rparr>"
  let ?s = "on_store (store_PutVote ?v) s"
  have "progress s (?s\<lparr>vm_lastRevoteNanos := x\<rparr>)" for x by (intro progress_same) (simp_all add: store_PutVote_def)
  from progress_trans [OF this progress_OnVote] show ?thesis unfolding receiveVoteInner_def Let_def by (simp split: option.split)
qed

lemma progress_flush: "progress s (flushPendingVotes E a p s)"
proof -
  have i: "progress s (s\<lparr>vm_pendingVotes := x\<rparr>)" for x by (intro progress_same) simp_all
  show ?thesis
    unfolding flushPendingVotes_def Let_def
    by (rule progress_trans [OF i progress_fold]) (simp add: progress_receiveInner split: sum.split)
qed

lemma progress_conflict: "progress s (OnConflict E C c s)"
  by (simp add: OnConflict_def progress_trans [OF progress_flush progress_cast(2)])

lemma progress_reaffirm: "progress s (reaffirmFromState E C a p s)"
  by (simp add: reaffirmFromState_def Let_def progress_emit progress_trans [OF progress_emit(2) progress_emit(1)] split: option.split)

lemma progress_receive: "progress s (snd (ReceiveVote E C v s))"
proof -
  have "progress s (bufferVote v s)" by (intro progress_same) (simp_all add: bufferVote_def Let_def)
  then show ?thesis
    by (simp add: ReceiveVote_def Let_def progress_reaffirm progress_trans [OF progress_receiveInner progress_cast(2)] split: sum.split)
qed

lemma progress_pull: "progress s (pullVotesFor E C a p s)"
  by (simp add: pullVotesFor_def Let_def progress_emit)

lemma progress_sweep_account: "progress s (sweep_account E C pullOnly a s)"
proof -
  have p: "progress s (pullChainVotes E C a c n s)" for c n
    by (simp add: pullChainVotes_def Let_def progress_pull progress_trans [OF progress_pull progress_pull] split: option.split)
  show ?thesis unfolding sweep_account_def Let_def by (simp add: p progress_fold progress_cast)
qed

lemma progress_frontiers: "progress s (SweepFrontiers E C s)"
proof -
  have "progress s (evictStalePullStamps E s)" by (intro progress_same) (simp_all add: evictStalePullStamps_def Let_def)
  then show ?thesis
    unfolding SweepFrontiers_def sweepFrontiersOnce_def Let_def
    by (rule progress_trans [OF _ progress_fold]) (rule progress_sweep_account)
qed

lemma progress_stale: "progress s (sweep_with_revotes E C s)"
  unfolding sweep_with_revotes_def by (rule progress_sweep) (rule progress_cast)

lemma progress_close: "progress s (vm_Close s)"
  by (intro progress_same) (simp_all add: vm_Close_def)

section \<open>A running node\<close>

lemma record_frame:
  "m_finalVotes (snd (recordConflict E a p h h' m)) = m_finalVotes m" "m_finalHeight (snd (recordConflict E a p h h' m)) = m_finalHeight m"
  by (auto simp: recordConflict_def Let_def store_SaveConflict_def split: option.splits)

lemma stage_frame:
  "m_finalVotes (l_store (stage_conflict E b h l)) = m_finalVotes (l_store l)"
  "m_finalHeight (l_store (stage_conflict E b h l)) = m_finalHeight (l_store l)"
  using record_frame [of E "blk_Account b" "blk_Previous b" h "blk_Hash b" "l_store l"]
  by (auto simp: stage_conflict_def Let_def store_SaveConflict_def store_SaveStagedBlock_def split: option.splits prod.splits)

lemma add_conflicting_frame:
  "m_finalVotes (l_store (snd (add_conflicting E b h c l))) = m_finalVotes (l_store l)"
  "m_finalHeight (l_store (snd (add_conflicting E b h c l))) = m_finalHeight (l_store l)"
proof -
  have "l_store l1 = l_store l" if "ValidateStagedBlock E b x l = (r, l1)" for x r l1
    using staged_caches [of E b x l] that by simp
  then show "m_finalVotes (l_store (snd (add_conflicting E b h c l))) = m_finalVotes (l_store l)"
    "m_finalHeight (l_store (snd (add_conflicting E b h c l))) = m_finalHeight (l_store l)"
    by (auto simp: add_conflicting_def Let_def stage_frame split: sum.splits prod.splits)
qed

lemma progress_addBlock: "progress s (s\<lparr>qm_ledger := snd (addBlock E b sk (qm_ledger s))\<rparr>)"
proof -
  define l where "l = qm_ledger s"
  have v: "l_store l1 = l_store l" if "verifyBlockCredential E x l = (r, l1)" for x r l1
    using credential_store [of E x l] that by simp
  have d: "m_finalVotes (l_store l2) = m_finalVotes (l_store l1)" "m_finalHeight (l_store l2) = m_finalHeight (l_store l1)"
    if "dispatchValidateAndAdd E x sk l1 = (r, l2)" for x r l1 l2
    using ballotD(2,3) [OF ballot_dispatch [of E x sk l1]] that by simp_all
  have "m_finalVotes (l_store (snd (addBlock E b sk l))) = m_finalVotes (l_store l) \<and>
    m_finalHeight (l_store (snd (addBlock E b sk l))) = m_finalHeight (l_store l)"
    unfolding addBlock_def Let_def by (auto simp: add_conflicting_frame v d split: sum.splits prod.splits)
  then show ?thesis by (intro progress_same) (simp_all add: l_def)
qed

text \<open>
  The steps of a node: blocks reach the ledger, and the vote manager, which holds the
  quorum manager, is driven by blocks, conflicts, votes, timers and sweeps. The time and
  the outcome of external calls may differ from step to step; the key pair does not.
\<close>

inductive node_step :: "key_pair option \<Rightarrow> vote_mgr \<Rightarrow> vote_mgr \<Rightarrow> bool" for kp where
  block: "node_step kp s (s\<lparr>qm_ledger := snd (addBlock E b sk (qm_ledger s))\<rparr>)"
| block_added: "vc_keyPair C = kp \<Longrightarrow> node_step kp s (OnBlockAdded E C b s)"
| conflict: "vc_keyPair C = kp \<Longrightarrow> node_step kp s (OnConflict E C c s)"
| vote: "vc_keyPair C = kp \<Longrightarrow> node_step kp s (snd (ReceiveVote E C v s))"
| redrive: "vc_keyPair C = kp \<Longrightarrow> node_step kp s (stability_redrive E C key s)"
| frontiers: "vc_keyPair C = kp \<Longrightarrow> node_step kp s (SweepFrontiers E C s)"
| stale: "vc_keyPair C = kp \<Longrightarrow> node_step kp s (sweep_with_revotes E C s)"
| prune: "node_step kp s (pruneOrphanedConflicts s)"
| closed: "node_step kp s (vm_Close s)"
| restarted: "\<not> store_IsEmpty (l_store (qm_ledger s)) \<Longrightarrow> NewLedger E T (l_store (qm_ledger s)) = Inr l \<Longrightarrow>
    node_step kp s (NewVoteManager l)"

lemma progress_restart:
  assumes "\<not> store_IsEmpty (l_store (qm_ledger s))" "NewLedger E T (l_store (qm_ledger s)) = Inr l"
  shows "progress s (NewVoteManager l)"
  using ballot_restart [OF assms]
  by (intro progress_ballot) (simp add: NewVoteManager_def NewQuorumManager_def quorum_mgr.extend_def)

lemma progress_step: "node_step kp s s' \<Longrightarrow> progress s s'"
  by (induction rule: node_step.induct)
    (simp_all add: progress_addBlock progress_block_added progress_conflict progress_receive progress_redrive progress_frontiers
      progress_stale progress_close progress_restart pruneOrphanedConflicts_def progress_fold progress_orphaned)

lemma progress_run: "(node_step kp)\<^sup>*\<^sup>* s s' \<Longrightarrow> progress s s'"
  by (induction rule: rtranclp_induct) (auto intro: progress_trans progress_step)

text \<open>
  C5. Over the whole life of a node, in whatever order blocks, votes, conflicts, timers,
  sweeps and restarts come: the block it locked its final vote on at a position never changes, and no
  account's final height ever goes down.
\<close>

theorem node_run_monotone:
  assumes "(node_step kp)\<^sup>*\<^sup>* s s'"
  shows "(store_GetFinalVote (l_store (qm_ledger s)) account previous = Some h \<longrightarrow>
      store_GetFinalVote (l_store (qm_ledger s')) account previous = Some h) \<and>
    FinalHeight (qm_ledger s) account \<le> FinalHeight (qm_ledger s') account"
  using progress_run [OF assms] by (auto simp: progress_def store_GetFinalVote_def map_le_def dom_def)

definition sample_locked :: vote_mgr where
  "sample_locked =
     NewVoteManager (sample_ledger\<lparr>l_store := (l_store sample_ledger)
       \<lparr>m_finalVotes := [(sample_hex 8 @ ''|'' @ sample_hex 56, sample_hex 1)]\<rparr>\<rparr>)"

theorem node_run_monotone_witness:
  "store_GetFinalVote (l_store (snd (addBlock sample_env sample_transfer True (qm_ledger sample_locked)))) (sample_hex 8) (sample_hex 56)
     = Some (sample_hex 1) \<and>
   1 \<le> FinalHeight (snd (addBlock sample_env sample_transfer True (qm_ledger sample_locked))) (sample_hex 8)"
proof -
  let ?s' = "sample_locked\<lparr>qm_ledger := snd (addBlock sample_env sample_transfer True (qm_ledger sample_locked))\<rparr>"
  have l: "qm_ledger sample_locked = sample_ledger\<lparr>l_store := (l_store sample_ledger)
       \<lparr>m_finalVotes := [(sample_hex 8 @ ''|'' @ sample_hex 56, sample_hex 1)]\<rparr>\<rparr>"
    by (simp add: sample_locked_def NewVoteManager_def NewQuorumManager_def quorum_mgr.extend_def)
  have "(node_step None)\<^sup>*\<^sup>* sample_locked ?s'" by (rule r_into_rtranclp) (rule node_step.block)
  from node_run_monotone [OF this, of "sample_hex 8" "sample_hex 56" "sample_hex 1"] show ?thesis
    by (simp add: l store_GetFinalVote_def FinalHeight_def store_GetFinalHeight_def mdef_def)
qed

end
