(* ===== verification/XE_Finality.thy ===== *)
theory XE_Finality
  imports XE_Progress
begin

text \<open>
  Finality: what a tally, and the promotion it starts, do to the ledger. The final blocks
  of every account are a prefix of what they are afterwards, and the ledger stays in its
  invariant.
\<close>

section \<open>Elections between payments\<close>

definition payment_election :: "ledger \<Rightarrow> string \<Rightarrow> string \<Rightarrow> bool" where
  "payment_election l account previous \<longleftrightarrow>
     (let hs = set (candidateSet (store_GetVotesByConflict (l_store l) account previous) (store_GetConflict (l_store l) account previous))
      in \<forall>h\<in>hs. \<forall>w. store_GetStagedBlock (l_store l) h = Some w \<longrightarrow> isl (GetBlockHeight l account h) \<longrightarrow>
           blk_Hash w = h \<and> (\<forall>h'\<in>hs. payment_fork l account h' w))"

definition keeps_final :: "ledger \<Rightarrow> ledger \<Rightarrow> bool" where
  "keeps_final l l' \<longleftrightarrow> ledger_ok l' \<and> final_ok l' \<and> (\<forall>a. \<exists>d. final_prefix l' a = final_prefix l a @ d)"

lemma keeps_final_trans: "keeps_final l l' \<Longrightarrow> keeps_final l' l'' \<Longrightarrow> keeps_final l l''"
  unfolding keeps_final_def by (metis append_assoc)

lemma keeps_final_core:
  assumes "core l' = core l" "ledger_ok l" "final_ok l"
  shows "keeps_final l l'"
  using assms ledger_ok_core [OF assms(1)] FinalHeight_core [OF assms(1)] final_prefix_core [OF assms(1)] core_eqD(15) [OF assms(1)]
  by (simp add: keeps_final_def final_ok_def)

lemma keeps_final_advances:
  assumes "advances bo l l'" "ledger_ok l" "short_chains l" "final_ok l"
  shows "keeps_final l l'"
  using advances_ok [OF assms(1,2)] advances_final_prefix [OF assms] by (simp add: keeps_final_def)

lemma keeps_final_promoted:
  assumes "promoted l b l'" "short_chains l" "final_ok l"
  shows "keeps_final l l'"
  using promoted_ok [OF assms(1)] promoted_final_prefix [OF assms] by (simp add: keeps_final_def)

lemma payment_fork_core:
  assumes "core l' = core l"
  shows "payment_fork l' = payment_fork l"
  using core_eqD(1) [OF assms] core_eqD(15) [OF assms] by (simp add: payment_fork_def fun_eq_iff)

lemma short_chains_core: "core l' = core l \<Longrightarrow> short_chains l' = short_chains l"
  by (drule core_eqD(2)) (simp add: short_chains_def store_GetAccountChain_def)

lemma final_ok_core: "core l' = core l \<Longrightarrow> final_ok l' = final_ok l"
  using FinalHeight_core [of l' l] core_eqD(15) [of l' l] by (simp add: final_ok_def)

section \<open>Promotion\<close>

lemma swap_losers_final:
  assumes "swap_losers E r w hs q = (x, q')" "blk_Hash w = qr_WinnerHash r"
    "\<forall>h\<in>set hs. payment_fork (qm_ledger q) (qr_ConflictAccount r) h w"
    "ledger_ok (qm_ledger q)" "short_chains (qm_ledger q)" "final_ok (qm_ledger q)"
  shows "(x = Inr False \<longrightarrow> q' = q) \<and> keeps_final (qm_ledger q) (qm_ledger q')"
  using assms(1,3)
proof (induction hs)
  case Nil
  then show ?case using keeps_final_core [OF refl assms(4,6)] by simp
next
  case (Cons h hs)
  show ?case
  proof (cases "isl (GetBlockHeight (qm_ledger q) (qr_ConflictAccount r) h) \<or> store_GetBlock (l_store (qm_ledger q)) h = None")
    case True
    then show ?thesis using Cons by (auto split: sum.splits option.splits)
  next
    case False
    then obtain n b where n: "GetBlockHeight (qm_ledger q) (qr_ConflictAccount r) h = Inr n"
      and b: "store_GetBlock (l_store (qm_ledger q)) h = Some b" by (cases "GetBlockHeight (qm_ledger q) (qr_ConflictAccount r) h") auto
    let ?l = "qm_ledger (on_store (store_SaveStagedBlock b) q)"
    have c: "core ?l = core (qm_ledger q)" by (simp add: core_def Let_def store_SaveStagedBlock_def)
    obtain y l2 where S: "swapBlockLocked E (qr_ConflictAccount r) h (blk_Hash w) w ?l = (y, l2)"
      by (cases "swapBlockLocked E (qr_ConflictAccount r) h (blk_Hash w) w ?l")
    have ok: "ledger_ok ?l" "short_chains ?l" "final_ok ?l" "payment_fork ?l (qr_ConflictAccount r) h w"
      using assms(4-6) ledger_ok_core [OF c] short_chains_core [OF c] final_ok_core [OF c] payment_fork_core [OF c] Cons.prems(2) by simp_all
    have "keeps_final ?l l2"
      using swap_effect [OF ok(1,2,4), of E] S keeps_final_core [OF _ ok(1,3), of l2] keeps_final_promoted [OF _ ok(2,3), of w l2] by auto
    from keeps_final_trans [OF keeps_final_core [OF c assms(4,6)] this]
    have k: "keeps_final (qm_ledger q) l2" .
    have "x \<noteq> Inr False" "qm_ledger q' = l2"
      using Cons.prems(1) n b S assms(2) by (auto simp: Let_def wrap_def split: sum.splits if_splits)
    with k show ?thesis by simp
  qed
qed

lemma append_final:
  assumes "IsValidAsset (blk_Asset w)" "mget (m_blocks (l_store l)) (blk_Hash w) = None"
    "ledger_ok l" "short_chains l" "final_ok l"
  shows "keeps_final l (snd (appendStagedWinner E r w l))"
proof -
  obtain x l1 where D: "dispatchValidateAndAdd E w True l = (x, l1)" by (cases "dispatchValidateAndAdd E w True l")
  have "keeps_final l l1"
  proof (cases "fst (verifyBlockCredential E w l)")
    case (Inl e)
    then have "l1 = snd (verifyBlockCredential E w l)" using D by (auto simp: dispatchValidateAndAdd_def split: prod.splits sum.splits)
    then show ?thesis using keeps_final_core [OF credential_core assms(3,5)] by simp
  next
    case (Inr u)
    then have "blk_Hash w \<noteq> [] \<and> blk_Hash w \<noteq> ''0''"
      using credential_hash [of E w l] DecodeHash_nonempty by fastforce
    then have "fresh w l" using assms(1,2) by (simp add: fresh_def)
    from keeps_final_advances [OF dispatch_advances [OF assms(3) this, of E True] assms(3-5)] D show ?thesis by simp
  qed
  moreover have "keeps_final l l" by (rule keeps_final_core [OF refl assms(3,5)])
  ultimately show ?thesis using D by (auto simp: appendStagedWinner_def Let_def split: sum.splits)
qed

lemma promote_final:
  assumes "blk_Hash w = qr_WinnerHash r" "IsValidAsset (blk_Asset w)" "mget (m_blocks (l_store (qm_ledger q))) (blk_Hash w) = None"
    "\<forall>h\<in>set (qr_LoserHashes r). payment_fork (qm_ledger q) (qr_ConflictAccount r) h w"
    "ledger_ok (qm_ledger q)" "short_chains (qm_ledger q)" "final_ok (qm_ledger q)"
  shows "keeps_final (qm_ledger q) (qm_ledger (snd (promote_winner E r w q)))"
proof -
  let ?l = "qm_ledger q"
  let ?b = "parent_balance ?l (qr_ConflictAccount r) (qr_ConflictPrev r) w"
  obtain x l1 where V: "ValidateStagedBlock E w ?b ?l = (x, l1)" by (cases "ValidateStagedBlock E w ?b ?l")
  have c: "core l1 = core ?l" using staged_caches [of E w ?b ?l] V by simp
  let ?q1 = "q\<lparr>qm_ledger := l1\<rparr>"
  obtain y q2 where S: "swap_losers E r w (qr_LoserHashes r) ?q1 = (y, q2)" by (cases "swap_losers E r w (qr_LoserHashes r) ?q1")
  have ok: "ledger_ok l1" "short_chains l1" "final_ok l1" and pf: "payment_fork l1 = payment_fork ?l"
    using assms(5-7) ledger_ok_core [OF c] short_chains_core [OF c] final_ok_core [OF c] payment_fork_core [OF c] by simp_all
  have k1: "keeps_final ?l l1" by (rule keeps_final_core [OF c assms(5,7)])
  have s: "(y = Inr False \<longrightarrow> q2 = ?q1) \<and> keeps_final l1 (qm_ledger q2)"
    using swap_losers_final [OF S assms(1)] assms(4) ok pf by simp
  have k2: "keeps_final ?l (qm_ledger q2)" using keeps_final_trans [OF k1] s by blast
  obtain z l3 where A: "appendStagedWinner E r w (qm_ledger q2) = (z, l3)" by (cases "appendStagedWinner E r w (qm_ledger q2)")
  have k3: "keeps_final ?l l3" if "y = Inr False"
    using keeps_final_trans [OF k1 append_final [OF assms(2) _ ok, of E r]] A s that core_eqD(1) [OF c] assms(3) by simp
  have k0: "keeps_final ?l ?l" by (rule keeps_final_core [OF refl assms(5,7)])
  show ?thesis
    using k0 k1 k2 k3 by (auto simp: promote_winner_def V S A split: sum.splits bool.splits)
qed

section \<open>Finalization\<close>

lemma cleanup_core: "core (qm_ledger (cleanupResolvedConflict r q)) = core (qm_ledger q)"
proof -
  have r: "core (l\<lparr>l_store := rejectBlocks hs m\<rparr>) = core (l\<lparr>l_store := m\<rparr>)" for l :: ledger and hs m
    unfolding rejectBlocks_def by (induction hs arbitrary: m) (simp_all add: core_def Let_def store_SetBlockStatus_def)
  have d: "core (l\<lparr>l_store := fold store_DeleteStagedBlock hs m\<rparr>) = core (l\<lparr>l_store := m\<rparr>)" for l :: ledger and hs m
    by (induction hs arbitrary: m) (simp_all add: core_def Let_def store_DeleteStagedBlock_def)
  have "core (l\<lparr>l_store := store_DeleteConflict a p (store_DeleteVotesForConflict a p m)\<rparr>) = core (l\<lparr>l_store := m\<rparr>)"
    "core (l\<lparr>l_store := store_DeleteStagedBlock h m\<rparr>) = core (l\<lparr>l_store := m\<rparr>)" "core (l\<lparr>l_store := l_store l\<rparr>) = core l" for l :: ledger and a p h m
    by (simp_all add: core_def Let_def store_DeleteConflict_def store_DeleteVotesForConflict_def store_DeleteStagedBlock_def)
  then show ?thesis by (simp add: cleanupResolvedConflict_def Let_def request_def r d)
qed

lemma ledger_ok_status:
  "ledger_ok (l\<lparr>l_store := (l_store l)\<lparr>m_blockStatus := st, m_finalHeight := fh\<rparr>\<rparr>) = ledger_ok l" (is "ledger_ok ?l = _")
proof -
  have "core (?l\<lparr>l_store := (l_store ?l)\<lparr>m_finalHeight := m_finalHeight (l_store l)\<rparr>\<rparr>) = core l" by (simp add: core_def Let_def)
  from ledger_ok_core [OF this] show ?thesis
    unfolding ledger_ok_def maps_wf_def blocks_ok_def chains_ok_def balances_ok_def
      delegation_ok_def pending_ok_def leases_ok_def released_once_def on_chain_def chain_of_def
      chain_ok_def balances_wf_def pending_index_ok_def by simp
qed

lemma raised_height:
  assumes "GetBlockHeight l a h = Inr n"
  shows "unat n \<le> length (chain_of l a)"
proof -
  obtain c i where c: "store_GetAccountChain (l_store l) a = Some c" "first_index (\<lambda>b. blk_Hash b = h) c = Some i" "n = of_nat (i + 1)"
    using assms by (auto simp: GetBlockHeight_def split: option.splits)
  then have "unat n \<le> i + 1" by (metis unat_of_nat mod_less_eq_dividend)
  also have "\<dots> \<le> length c" using first_index_SomeD [OF c(2)] by simp
  finally show ?thesis using c(1) by (simp add: chain_of_def mdef_def store_GetAccountChain_def)
qed

lemma finalize_final:
  assumes "ledger_ok (qm_ledger q)" "final_ok (qm_ledger q)"
  shows "keeps_final (qm_ledger q) (qm_ledger (finalize_winner r q))"
proof -
  let ?l = "qm_ledger q"
  let ?m = "finalizeBlock (qr_WinnerHash r) (raise_final_height r (l_store ?l) ?l)"
  let ?l1 = "?l\<lparr>l_store := ?m\<rparr>"
  have ch: "chain_of ?l1 = chain_of ?l"
    by (auto simp: chain_of_def finalizeBlock_def store_SetBlockStatus_def raise_final_height_def store_SetFinalHeight_def fun_eq_iff split: sum.splits)
  have fh: "FinalHeight ?l a \<le> FinalHeight ?l1 a \<and> unat (FinalHeight ?l1 a) \<le> length (chain_of ?l a)" for a
    using assms(2) raised_height [of ?l "qr_ConflictAccount r" "qr_WinnerHash r"]
    by (auto simp: FinalHeight_def store_GetFinalHeight_def mdef_def finalizeBlock_def store_SetBlockStatus_def raise_final_height_def
        store_SetFinalHeight_def final_ok_def split: sum.splits)
  have "?m = (l_store ?l)\<lparr>m_blockStatus := m_blockStatus ?m, m_finalHeight := m_finalHeight ?m\<rparr>"
    by (simp add: finalizeBlock_def store_SetBlockStatus_def raise_final_height_def store_SetFinalHeight_def split: sum.split)
  then have ok: "ledger_ok ?l1" using ledger_ok_status [where l = ?l and st = "m_blockStatus ?m" and fh = "m_finalHeight ?m"] assms(1) by simp
  have "final_ok ?l1" using fh ch by (simp add: final_ok_def)
  moreover have "\<exists>d. final_prefix ?l1 a = final_prefix ?l a @ d" for a
    using fh [of a] unfolding final_prefix_def ch word_le_nat_alt by (metis le_Suc_ex take_add)
  ultimately have k: "keeps_final ?l ?l1" using ok by (simp add: keeps_final_def)
  have "keeps_final ?l1 (qm_ledger (finalize_winner r q))"
    by (rule keeps_final_core [OF _ ok \<open>final_ok ?l1\<close>]) (simp add: finalize_winner_def cleanup_core)
  from keeps_final_trans [OF k this] show ?thesis .
qed


lemma confirm_final:
  assumes ok: "ledger_ok (qm_ledger q)" "short_chains (qm_ledger q)" "final_ok (qm_ledger q)"
    and pw: "\<And>w. store_GetStagedBlock (l_store (qm_ledger q)) (qr_WinnerHash r) = Some w \<Longrightarrow>
      isl (GetBlockHeight (qm_ledger q) (qr_ConflictAccount r) (qr_WinnerHash r)) \<Longrightarrow>
      blk_Hash w = qr_WinnerHash r \<and> IsValidAsset (blk_Asset w) \<and> mget (m_blocks (l_store (qm_ledger q))) (blk_Hash w) = None \<and>
      (\<forall>h\<in>set (qr_LoserHashes r). payment_fork (qm_ledger q) (qr_ConflictAccount r) h w)"
  shows "keeps_final (qm_ledger q) (qm_ledger (snd (confirmConflict E r q)))"
proof -
  have k: "keeps_final (qm_ledger q) (qm_ledger (cleanupResolvedConflict r q))"
    by (rule keeps_final_core [OF cleanup_core ok(1,3)])
  have f: "keeps_final (qm_ledger q) (qm_ledger (finalize_winner r q))" by (rule finalize_final [OF ok(1,3)])
  show ?thesis
  proof (cases "\<exists>w. store_GetStagedBlock (l_store (qm_ledger q)) (qr_WinnerHash r) = Some w \<and>
      isl (GetBlockHeight (qm_ledger q) (qr_ConflictAccount r) (qr_WinnerHash r))")
    case True
    then obtain w where w: "store_GetStagedBlock (l_store (qm_ledger q)) (qr_WinnerHash r) = Some w"
      and i: "isl (GetBlockHeight (qm_ledger q) (qr_ConflictAccount r) (qr_WinnerHash r))" by blast
    note p = pw [OF w i]
    obtain x q1 where P: "promote_winner E r w q = (x, q1)" by (cases "promote_winner E r w q")
    have "keeps_final (qm_ledger q) (qm_ledger (snd (promote_winner E r w q)))"
      by (rule promote_final [OF _ _ _ _ ok]) (use p in blast)+
    then have k1: "keeps_final (qm_ledger q) (qm_ledger q1)" using P by simp
    then have "keeps_final (qm_ledger q) (qm_ledger (finalize_winner r q1))"
      by (intro keeps_final_trans [OF k1 finalize_final]) (simp_all add: keeps_final_def)
    then show ?thesis
      using k k1 w i P by (auto simp: confirmConflict_def isl_def split: sum.splits bool.splits)
  next
    case False
    then show ?thesis using k f by (auto simp: confirmConflict_def split: option.splits sum.splits)
  qed
qed

lemma election_winner:
  assumes "finalTally E account previous q = (Some r, q1)" "payment_election (qm_ledger q) account previous"
    "store_GetStagedBlock (l_store (qm_ledger q)) (qr_WinnerHash r) = Some w"
    "isl (GetBlockHeight (qm_ledger q) account (qr_WinnerHash r))"
  shows "qr_ConflictAccount r = account" "blk_Hash w = qr_WinnerHash r"
    "\<forall>h\<in>insert (qr_WinnerHash r) (set (qr_LoserHashes r)). payment_fork (qm_ledger q) account h w"
proof -
  let ?cs = "candidateSet (store_GetVotesByConflict (l_store (qm_ledger q)) account previous) (store_GetConflict (l_store (qm_ledger q)) account previous)"
  have w: "qr_WinnerHash r \<in> set ?cs" by (rule winner_candidate [OF assms(1)])
  have r: "r = buildResultFrom account previous (qr_WinnerHash r) ?cs" by (rule finalTally_sound(3) [OF assms(1)])
  then show "qr_ConflictAccount r = account" by (metis buildResultFrom_def quorum_result.select_convs(1))
  have "set (qr_LoserHashes r) \<subseteq> set ?cs"
    by (subst r) (auto simp: buildResultFrom_def)
  then show "blk_Hash w = qr_WinnerHash r"
    "\<forall>h\<in>insert (qr_WinnerHash r) (set (qr_LoserHashes r)). payment_fork (qm_ledger q) account h w"
    using assms(2-4) w unfolding payment_election_def Let_def by blast+
qed

lemma GetBlockHeight_core: "core l' = core l \<Longrightarrow> GetBlockHeight l' = GetBlockHeight l"
  by (drule core_eqD(2)) (simp add: GetBlockHeight_def store_GetAccountChain_def fun_eq_iff)

lemma Retally_final:
  assumes "ledger_ok (qm_ledger q)" "short_chains (qm_ledger q)" "final_ok (qm_ledger q)"
    "payment_election (qm_ledger q) account previous"
  shows "keeps_final (qm_ledger q) (qm_ledger (Retally E account previous q))"
proof -
  obtain x q1 where F: "finalTally E account previous q = (x, q1)" by (cases "finalTally E account previous q")
  have c: "core (qm_ledger q1) = core (qm_ledger q)" and s: "l_store (qm_ledger q1) = l_store (qm_ledger q)"
    using finalTally_caches [of q E account previous] F by (simp_all add: caches_only_def)
  have k1: "keeps_final (qm_ledger q) (qm_ledger q1)" by (rule keeps_final_core [OF c assms(1,3)])
  show ?thesis
  proof (cases x)
    case None
    then show ?thesis using F k1 by (simp add: Retally_def)
  next
    case (Some r)
    have "keeps_final (qm_ledger q1) (qm_ledger (snd (confirmConflict E r q1)))"
    proof (rule confirm_final)
      show "ledger_ok (qm_ledger q1)" "short_chains (qm_ledger q1)" "final_ok (qm_ledger q1)"
        using assms ledger_ok_core [OF c] short_chains_core [OF c] final_ok_core [OF c] by simp_all
    next
      fix w assume w: "store_GetStagedBlock (l_store (qm_ledger q1)) (qr_WinnerHash r) = Some w"
        and i: "isl (GetBlockHeight (qm_ledger q1) (qr_ConflictAccount r) (qr_WinnerHash r))"
      have a: "qr_ConflictAccount r = account"
        using finalTally_sound(3) [OF F [unfolded Some]] by (metis buildResultFrom_def quorum_result.select_convs(1))
      note e = election_winner [OF F [unfolded Some] assms(4) w [unfolded s] i [unfolded a GetBlockHeight_core [OF c]]]
      then have "payment_fork (qm_ledger q) account (qr_WinnerHash r) w" by blast
      then show "blk_Hash w = qr_WinnerHash r \<and> IsValidAsset (blk_Asset w) \<and> mget (m_blocks (l_store (qm_ledger q1))) (blk_Hash w) = None \<and>
          (\<forall>h\<in>set (qr_LoserHashes r). payment_fork (qm_ledger q1) (qr_ConflictAccount r) h w)"
        using e(2,3) unfolding a s payment_fork_core [OF c] by (simp add: payment_fork_def)
    qed
    from keeps_final_trans [OF k1 this] show ?thesis using F Some by (simp add: Retally_def)
  qed
qed


section \<open>One winner per position\<close>

lemma final_weight_sum:
  assumes "h \<noteq> h'"
  shows "final_weight l a p votes h + final_weight l a p votes h' \<le> (\<Sum>v\<leftarrow>votes. big (vt_Weight v))"
proof (induction votes)
  case (Cons v vs)
  have "\<not> (counts l a p h v \<and> counts l a p h' v)" using assms by (auto simp: counts_def)
  then show ?case using Cons by (auto simp: final_weight_def intro: add_increasing [OF big_nonneg])
qed (simp add: final_weight_def)

lemma quorum_unique:
  assumes "0 < T" "(\<Sum>v\<leftarrow>votes. big (vt_Weight v)) \<le> T"
    "final_weight l a p votes h * quorumDenominator \<ge> T * quorumNumerator"
    "final_weight l a p votes h' * quorumDenominator \<ge> T * quorumNumerator"
  shows "h = h'"
proof (rule ccontr)
  assume "h \<noteq> h'"
  from final_weight_sum [OF this, of l a p votes] assms show False by (simp add: quorumDenominator_def quorumNumerator_def)
qed

lemma first_winner_unique:
  assumes "h \<in> set hs" "mdef 0 ws h * quorumDenominator \<ge> T * quorumNumerator"
    "\<And>h'. mdef 0 ws h' * quorumDenominator \<ge> T * quorumNumerator \<Longrightarrow> h' = h"
    "pickWinner E a p pf cs h q = (h, q)" "h \<noteq> []"
  shows "first_winner E a p pf cs T ws hs q = (h, q)"
  using assms(1)
proof (induction hs)
  case (Cons h' hs)
  show ?case
  proof (cases "h' = h")
    case True
    then show ?thesis using assms(2,4,5) by simp
  next
    case False
    then have "\<not> mdef 0 ws h' * quorumDenominator \<ge> T * quorumNumerator" using assms(3) by blast
    then show ?thesis using Cons False by simp
  qed
qed simp

text \<open>A block of the chain that stands right above the position's previous block.\<close>

definition stands_at :: "ledger \<Rightarrow> string \<Rightarrow> string \<Rightarrow> string \<Rightarrow> u64 \<Rightarrow> bool" where
  "stands_at l account previous h n \<longleftrightarrow>
     GetBlockHeight l account h = Inr n \<and> n \<noteq> 0 \<and>
     (if previous = ''0'' then n = 1 else \<exists>m. GetBlockHeight l account previous = Inr m \<and> n = m + 1)"

lemma stands_promotable: "stands_at (qm_ledger q) a p h n \<Longrightarrow> promotable E a p h q = (True, q)"
  by (auto simp: stands_at_def promotable_def Let_def split: if_splits)

lemma IsFinalized_height:
  "GetBlockHeight l a h = Inr n \<Longrightarrow> n \<noteq> 0 \<Longrightarrow> IsFinalized l a h \<longleftrightarrow> n \<le> FinalHeight l a"
  by (simp add: IsFinalized_def)

lemma IsFinalized_core:
  assumes "core l' = core l"
  shows "IsFinalized l' = IsFinalized l"
  unfolding fun_eq_iff IsFinalized_def GetBlockHeight_core [OF assms] FinalHeight_core [OF assms] by simp

lemma finalize_on_chain:
  assumes "GetBlockHeight (qm_ledger q) (qr_ConflictAccount r) (qr_WinnerHash r) = Inr n" "n \<noteq> 0"
  shows "IsFinalized (qm_ledger (finalize_winner r q)) (qr_ConflictAccount r) (qr_WinnerHash r)"
proof -
  let ?l1 = "(qm_ledger q)\<lparr>l_store := finalizeBlock (qr_WinnerHash r) (raise_final_height r (l_store (qm_ledger q)) (qm_ledger q))\<rparr>"
  have m: "m_chains (l_store ?l1) = m_chains (l_store (qm_ledger q))"
    by (simp add: assms finalizeBlock_def store_SetBlockStatus_def raise_final_height_def store_SetFinalHeight_def)
  then have "GetBlockHeight ?l1 (qr_ConflictAccount r) (qr_WinnerHash r) = Inr n"
    using assms(1) by (simp add: GetBlockHeight_def store_GetAccountChain_def)
  moreover have "n \<le> FinalHeight ?l1 (qr_ConflictAccount r)"
    by (auto simp: assms FinalHeight_def store_GetFinalHeight_def finalizeBlock_def store_SetBlockStatus_def raise_final_height_def
        store_SetFinalHeight_def mdef_def)
  ultimately have "IsFinalized ?l1 (qr_ConflictAccount r) (qr_WinnerHash r)" using assms(2) by (simp add: IsFinalized_height)
  then show ?thesis
    unfolding finalize_winner_def by (subst IsFinalized_core [OF cleanup_core]) simp
qed

section \<open>An election of the sample network\<close>

text \<open>
  The transfer is on the chain, its fork is staged, and a representative with 67 of 100
  units of weight has signed a final vote for the transfer.
\<close>

definition sample_vote :: vote where
  "sample_vote =
     \<lparr>vt_RepPubKey = sample_hex 7, vt_BlockHash = sample_hex 1, vt_ConflictAccount = sample_hex 8, vt_ConflictPrev = sample_hex 56,
      vt_Timestamp = 0, vt_Final = True, vt_Signature = [], vt_Weight = 67\<rparr>"

definition sample_conflict :: conflict where
  "sample_conflict =
     \<lparr>cf_AccountAddress = sample_hex 8, cf_PreviousHash = sample_hex 56, cf_BlockHashes = [sample_hex 1, sample_hex 2],
      cf_DetectedAt = 0, cf_WeightSnapshot = Some [(sample_hex 8, 67)], cf_TotalWeight = 100\<rparr>"

definition sample_election :: vote_mgr where
  "sample_election =
     NewVoteManager (sample_ledger1\<lparr>l_store := (l_store sample_ledger1)
       \<lparr>m_votes := [(memVoteKey (sample_hex 8) (sample_hex 56) (sample_hex 7), sample_vote)],
        m_conflicts := [(memConflictKey (sample_hex 8) (sample_hex 56), sample_conflict)],
        m_staged := [(sample_hex 2, sample_fork)]\<rparr>\<rparr>)"

lemma sample_election_ledger:
  "qm_ledger sample_election = sample_ledger1\<lparr>l_store := (l_store sample_ledger1)
       \<lparr>m_votes := [(memVoteKey (sample_hex 8) (sample_hex 56) (sample_hex 7), sample_vote)],
        m_conflicts := [(memConflictKey (sample_hex 8) (sample_hex 56), sample_conflict)],
        m_staged := [(sample_hex 2, sample_fork)]\<rparr>\<rparr>"
  by (simp add: sample_election_def NewVoteManager_def NewQuorumManager_def quorum_mgr.extend_def)

lemma sample_election_core: "core (qm_ledger sample_election) = core sample_ledger1"
  by (simp add: sample_election_ledger core_def Let_def)

lemma sample_election_votes:
  "store_GetVotesByConflict (l_store (qm_ledger sample_election)) (sample_hex 8) (sample_hex 56) = [sample_vote]"
  "store_GetConflict (l_store (qm_ledger sample_election)) (sample_hex 8) (sample_hex 56) = Some sample_conflict"
  by (simp_all add: sample_election_ledger store_GetVotesByConflict_def store_GetConflict_def memVoteKey_def HasPrefix_def)

lemma sample_election_candidates: "set (candidateSet [sample_vote] (Some sample_conflict)) = {sample_hex 1, sample_hex 2}"
  by (auto simp: candidateSet_def sample_vote_def sample_conflict_def)

lemma sample_election_ok:
  "ledger_ok (qm_ledger sample_election)" "short_chains (qm_ledger sample_election)" "final_ok (qm_ledger sample_election)"
  using ledger_ok_core [OF sample_election_core] sample_ledger1_ok short_chains_core [OF sample_election_core] final_ok_core [OF sample_election_core]
  by (auto simp: short_chains_def store_GetAccountChain_def final_ok_def FinalHeight_def store_GetFinalHeight_def chain_of_def mdef_def)

lemma sample_payment_election: "payment_election (qm_ledger sample_election) (sample_hex 8) (sample_hex 56)"
proof -
  have "payment_fork sample_ledger1 (sample_hex 8) h sample_fork" if "h \<in> {sample_hex 1, sample_hex 2}" for h
    using that by (auto simp: payment_fork_def unwindable_def IsValidAsset_def chain_of_def mdef_def)
  then show ?thesis
    unfolding payment_election_def Let_def sample_election_votes sample_election_candidates payment_fork_core [OF sample_election_core]
    by (auto simp: sample_election_ledger store_GetStagedBlock_def split: if_splits)
qed

lemma sample_election_weight:
  "final_weight (qm_ledger sample_election) (sample_hex 8) (sample_hex 56) [sample_vote] (sample_hex 1) = 67"
  "tally_total sample_env (qm_ledger sample_election) (Some sample_conflict) = 100"
  by (simp_all add: final_weight_def counts_def sample_vote_def GetBlockOrStaged_def store_GetBlock_def sample_election_ledger
      big_def tally_total_def sample_conflict_def)

lemma sample_election_stands: "stands_at (qm_ledger sample_election) (sample_hex 8) (sample_hex 56) (sample_hex 1) 2"
  by (simp add: stands_at_def GetBlockHeight_core [OF sample_election_core] GetBlockHeight_def store_GetAccountChain_def)


section \<open>Properties\<close>


lemma sample_tally: "\<exists>r q'. finalTally sample_env (sample_hex 8) (sample_hex 56) sample_election = (Some r, q') \<and> qr_WinnerHash r = sample_hex 1"
proof -
  let ?l = "qm_ledger sample_election"
  let ?ws = "weightByBlock ?l (sample_hex 8) (sample_hex 56) [sample_vote]"
  have ws: "?ws = [(sample_hex 1, 67)]"
    by (simp add: weightByBlock_def count_final_def sample_vote_def GetBlockOrStaged_def store_GetBlock_def sample_election_ledger mdef_def big_def)
  have "pickWinner sample_env (sample_hex 8) (sample_hex 56) pf cs (sample_hex 1) sample_election = (sample_hex 1, sample_election)" for pf cs
    using stands_promotable [OF sample_election_stands, of sample_env] by (simp add: pickWinner_def)
  then have "first_winner sample_env (sample_hex 8) (sample_hex 56) pf cs 100 ?ws (sort (map fst ?ws)) sample_election = (sample_hex 1, sample_election)" for pf cs
    by (simp add: ws mdef_def quorumDenominator_def quorumNumerator_def)
  then show ?thesis
    by (simp add: finalTally_def Let_def sample_election_votes sample_election_weight buildResultFrom_def)
qed




text \<open>
  C8. Finality only grows: a tally, and the promotion it may start, leave every account's
  final blocks a prefix of its final blocks afterwards and keep the ledger in its
  invariant, for elections between payments.
\<close>

theorem Retally_extends_final:
  assumes "ledger_ok (qm_ledger q)" "short_chains (qm_ledger q)" "final_ok (qm_ledger q)"
    "payment_election (qm_ledger q) account previous"
  shows "ledger_ok (qm_ledger (Retally E account previous q)) \<and> final_ok (qm_ledger (Retally E account previous q)) \<and>
    (\<exists>more. final_prefix (qm_ledger (Retally E account previous q)) a = final_prefix (qm_ledger q) a @ more)"
  using Retally_final [OF assms, of E] unfolding keeps_final_def by blast

theorem Retally_extends_final_witness:
  "ledger_ok (qm_ledger (Retally sample_env (sample_hex 8) (sample_hex 56) sample_election)) \<and>
   (\<exists>more. final_prefix (qm_ledger (Retally sample_env (sample_hex 8) (sample_hex 56) sample_election)) (sample_hex 8) = sample_genesis # more)"
proof -
  have "final_prefix (qm_ledger sample_election) (sample_hex 8) = [sample_genesis]"
    by (simp add: final_prefix_core [OF sample_election_core] final_prefix_def FinalHeight_def store_GetFinalHeight_def chain_of_def mdef_def)
  then show ?thesis
    using Retally_extends_final [OF sample_election_ok sample_payment_election, of sample_env "sample_hex 8"] by simp
qed

lemma Retally_confirms:
  assumes "stands_at (qm_ledger q) account previous h n" "h \<noteq> []"
    "store_GetVotesByConflict (l_store (qm_ledger q)) account previous = votes"
    "tally_total E (qm_ledger q) (store_GetConflict (l_store (qm_ledger q)) account previous) = totalWeight"
    "100 * final_weight (qm_ledger q) account previous votes h \<ge> 67 * totalWeight" "0 < totalWeight"
    "(\<Sum>v\<leftarrow>votes. big (vt_Weight v)) \<le> totalWeight"
  defines "r \<equiv> buildResultFrom account previous h (candidateSet votes (store_GetConflict (l_store (qm_ledger q)) account previous))"
  shows "Retally E account previous q =
    (if IsFinalized (qm_ledger q) account h then cleanupResolvedConflict r q else finalize_winner r q)"
proof -
  let ?l = "qm_ledger q"
  let ?ws = "weightByBlock ?l account previous votes"
  have n: "GetBlockHeight ?l account h = Inr n" "n \<noteq> 0" using assms(1) by (simp_all add: stands_at_def)
  have w: "mdef 0 ?ws h' * quorumDenominator \<ge> totalWeight * quorumNumerator \<longleftrightarrow> 100 * final_weight ?l account previous votes h' \<ge> 67 * totalWeight" for h'
    by (simp add: weightByBlock_weight quorumDenominator_def quorumNumerator_def mult.commute)
  have "0 < mdef 0 ?ws h" using assms(5,6) by (simp add: weightByBlock_weight)
  then have k: "h \<in> set (map fst ?ws)" by (auto simp: mdef_def dest: map_of_SomeD split: option.splits intro: rev_image_eqI)
  have p: "pickWinner E account previous pf cs h q = (h, q)" for pf cs
    using stands_promotable [OF assms(1), of E] by (simp add: pickWinner_def)
  have u: "h' = h" if "mdef 0 ?ws h' * quorumDenominator \<ge> totalWeight * quorumNumerator" for h'
    using quorum_unique [OF assms(6,7), of ?l account previous h' h] that assms(5) w
    by (simp add: quorumDenominator_def quorumNumerator_def weightByBlock_weight)
  have fw: "first_winner E account previous pf cs totalWeight ?ws (sort (map fst ?ws)) q = (h, q)" for pf cs
  proof (rule first_winner_unique [OF _ _ u p assms(2)])
    show "h \<in> set (sort (map fst ?ws))" using k by simp
    show "mdef 0 ?ws h * quorumDenominator \<ge> totalWeight * quorumNumerator" using w assms(5) by blast
  qed
  have F: "finalTally E account previous q = (Some r, q)"
    using assms(2,6) unfolding finalTally_def Let_def assms(3,4) fw prod.case r_def by simp
  have "qr_ConflictAccount r = account" "qr_WinnerHash r = h" by (simp_all add: r_def buildResultFrom_def)
  then show ?thesis by (simp add: Retally_def F confirmConflict_def n split: option.split)
qed




lemma fold_reject_status:
  "mget (m_blockStatus (fold (\<lambda>h. store_SetBlockStatus h StatusRejected) hs m)) h =
     (if h \<in> set hs then Some StatusRejected else mget (m_blockStatus m) h)"
  by (induction hs arbitrary: m) (auto simp: store_SetBlockStatus_def)

lemma fold_unstage_status: "m_blockStatus (fold store_DeleteStagedBlock hs m) = m_blockStatus m"
  by (induction hs arbitrary: m) (simp_all add: store_DeleteStagedBlock_def)

lemma cleanup_rejects:
  "h \<in> set (qr_LoserHashes r) \<Longrightarrow> mget (m_blockStatus (l_store (qm_ledger (cleanupResolvedConflict r q)))) h = Some StatusRejected"
  by (simp add: cleanupResolvedConflict_def Let_def request_def store_DeleteConflict_def store_DeleteVotesForConflict_def
      fold_unstage_status rejectBlocks_def fold_reject_status)


text \<open>
  The election above with a second vote: a representative with one unit of weight names the
  genesis block, which is final.
\<close>

definition stray_vote :: vote where
  "stray_vote = sample_vote\<lparr>vt_RepPubKey := sample_hex 6, vt_BlockHash := sample_hex 56, vt_Weight := 1\<rparr>"

definition stray_election :: vote_mgr where
  "stray_election =
     sample_election\<lparr>qm_ledger := (qm_ledger sample_election)\<lparr>l_store := store_PutVote stray_vote (l_store (qm_ledger sample_election))\<rparr>\<rparr>"

lemma stray_election_facts:
  "store_GetVotesByConflict (l_store (qm_ledger stray_election)) (sample_hex 8) (sample_hex 56) = [sample_vote, stray_vote]"
  "stands_at (qm_ledger stray_election) (sample_hex 8) (sample_hex 56) (sample_hex 1) 2"
  "tally_total sample_env (qm_ledger stray_election) (store_GetConflict (l_store (qm_ledger stray_election)) (sample_hex 8) (sample_hex 56)) = 100"
  "final_weight (qm_ledger stray_election) (sample_hex 8) (sample_hex 56) [sample_vote, stray_vote] (sample_hex 1) = 67"
proof -
  have c: "core (qm_ledger stray_election) = core (qm_ledger sample_election)"
    by (simp add: stray_election_def core_def Let_def store_PutVote_def)
  have k: "memVoteKey (sample_hex 8) (sample_hex 56) (sample_hex 7) \<noteq> memVoteKey (sample_hex 8) (sample_hex 56) (sample_hex 6)"
    by (simp add: memVoteKey_def)
  show "store_GetVotesByConflict (l_store (qm_ledger stray_election)) (sample_hex 8) (sample_hex 56) = [sample_vote, stray_vote]"
    using k by (simp add: stray_election_def store_PutVote_def sample_election_ledger store_GetVotesByConflict_def stray_vote_def
        sample_vote_def) (simp add: memVoteKey_def HasPrefix_def)
  show "stands_at (qm_ledger stray_election) (sample_hex 8) (sample_hex 56) (sample_hex 1) 2"
    using sample_election_stands by (simp add: stands_at_def GetBlockHeight_core [OF c])
  show "tally_total sample_env (qm_ledger stray_election) (store_GetConflict (l_store (qm_ledger stray_election)) (sample_hex 8) (sample_hex 56)) = 100"
    by (simp add: stray_election_def store_PutVote_def sample_election_ledger store_GetConflict_def tally_total_def sample_conflict_def big_def)
  show "final_weight (qm_ledger stray_election) (sample_hex 8) (sample_hex 56) [sample_vote, stray_vote] (sample_hex 1) = 67"
    by (simp add: final_weight_def counts_def sample_vote_def stray_vote_def GetBlockOrStaged_def store_GetBlock_def stray_election_def
        store_PutVote_def sample_election_ledger big_def)
qed


end
