(* ===== verification/XE_Lock.thy ===== *)
theory XE_Lock
  imports XE_Finality
begin

text \<open>
  The votes a node signs: a final vote follows the node's lock on the position, and a lock
  is taken only behind a stable supermajority (\<open>core/vote.go\<close>).
\<close>

section \<open>The quorum manager does not touch the vote manager's state\<close>

lemma more_quorum [simp]:
  "quorum_mgr.more (request r q) = quorum_mgr.more q"
  "quorum_mgr.more (cleanupResolvedConflict x q) = quorum_mgr.more q"
  "quorum_mgr.more (finalize_winner x q) = quorum_mgr.more q"
  by (simp_all add: request_def cleanupResolvedConflict_def finalize_winner_def Let_def)

lemma more_swap_losers: "quorum_mgr.more (snd (swap_losers E r w hs q)) = quorum_mgr.more q"
  by (induction hs) (auto simp: Let_def split: sum.splits option.splits prod.splits)

lemma more_promote: "quorum_mgr.more (snd (promote_winner E r w q)) = quorum_mgr.more q"
proof -
  have "quorum_mgr.more q2 = quorum_mgr.more q" if "swap_losers E r w hs (q\<lparr>qm_ledger := l1\<rparr>) = (y, q2)" for hs l1 y q2
    using more_swap_losers [of E r w hs "q\<lparr>qm_ledger := l1\<rparr>"] that by simp
  then show ?thesis by (auto simp: promote_winner_def split: sum.splits prod.splits bool.splits)
qed

lemma more_confirm: "quorum_mgr.more (snd (confirmConflict E r q)) = quorum_mgr.more q"
proof -
  have "quorum_mgr.more q1 = quorum_mgr.more q" if "promote_winner E r w q = (x, q1)" for w x q1
    using more_promote [of E r w q] that by simp
  then show ?thesis by (auto simp: confirmConflict_def split: option.splits sum.splits prod.splits bool.splits)
qed

lemma more_OnVote: "quorum_mgr.more (OnVote E v q) = quorum_mgr.more q"
proof -
  have t: "quorum_mgr.more q1 = quorum_mgr.more q" if "finalTally E a p q = (x, q1)" for a p x q1
    using finalTally_caches [of q E a p] that by (simp add: caches_only_def)
  then show ?thesis by (auto simp: OnVote_def Retally_def more_confirm split: prod.splits option.splits)
qed

lemma more_emitted:
  assumes "quorum_mgr.more s' = quorum_mgr.more (s :: vote_mgr)"
  shows "vm_emitted s' = vm_emitted s" "vm_lastNewCandidateNanos s' = vm_lastNewCandidateNanos s"
  using assms by (cases s; cases s'; simp)+

lemma OnVote_emitted [simp]: "vm_emitted (OnVote E v s) = vm_emitted (s :: vote_mgr)"
  by (rule more_emitted) (rule more_OnVote)

section \<open>What each step emits\<close>

text \<open>The votes that \<open>s'\<close> has emitted beyond those of \<open>s\<close> satisfy \<open>P\<close>.\<close>

definition emits :: "(vote \<Rightarrow> bool) \<Rightarrow> vote_mgr \<Rightarrow> vote_mgr \<Rightarrow> bool" where
  "emits P s s' \<longleftrightarrow> (\<exists>new. vm_emitted s' = vm_emitted s @ new \<and> list_all P new)"

lemma emits_same: "vm_emitted s' = vm_emitted s \<Longrightarrow> emits P s s'"
  by (simp add: emits_def)

lemma emits_one: "vm_emitted s' = vm_emitted s @ [v] \<Longrightarrow> P v \<Longrightarrow> emits P s s'"
  by (simp add: emits_def)

lemma emits_trans: "emits P s s' \<Longrightarrow> emits P s' s'' \<Longrightarrow> emits P s s''"
  unfolding emits_def by (metis append_assoc list_all_append)

lemma emits_mono: "emits P s s' \<Longrightarrow> (\<And>v. P v \<Longrightarrow> Q v) \<Longrightarrow> emits Q s s'"
  unfolding emits_def by (metis list.pred_mono_strong)

lemma buildVote_fields:
  assumes "buildVote E C kp l account prev h final = Some v"
  shows "vt_Final v = final" "vt_BlockHash v = h" "vt_ConflictAccount v = account" "vt_ConflictPrev v = prev"
    "vt_RepPubKey v = PubKeyHex kp"
  using assms by (auto simp: buildVote_def Let_def split: sum.splits)

text \<open>A final vote for the block the store has locked at the position.\<close>

definition locked_vote :: "vote_mgr \<Rightarrow> string \<Rightarrow> string \<Rightarrow> key_pair \<Rightarrow> vote \<Rightarrow> bool" where
  "locked_vote s account prev kp v \<longleftrightarrow>
     vt_Final v \<longrightarrow> vt_ConflictAccount v = account \<and> vt_ConflictPrev v = prev \<and> vt_RepPubKey v = PubKeyHex kp \<and>
       store_GetFinalVote (l_store (qm_ledger s)) account prev = Some (vt_BlockHash v)"

lemma locked_vote_progress: "progress s s' \<Longrightarrow> locked_vote s a p kp v \<Longrightarrow> locked_vote s' a p kp v"
  by (auto simp: locked_vote_def progress_def store_GetFinalVote_def map_le_def dom_def)

lemma lock_written:
  assumes "store_PutFinalVoteIfAbsent a p h m = ((locked, written), m')"
  shows "store_GetFinalVote m' a p = Some locked"
    "store_GetFinalVote m a p = None \<Longrightarrow> locked = h" "store_GetFinalVote m a p = Some h' \<Longrightarrow> locked = h'"
  using assms by (auto simp: store_PutFinalVoteIfAbsent_def store_GetFinalVote_def Let_def split: option.splits)

lemma emitFinal_lock:
  fixes s :: vote_mgr
  shows "store_GetFinalVote (l_store (qm_ledger (emitFinalLocked E C kp a p h s))) a p =
    Some (case store_GetFinalVote (l_store (qm_ledger s)) a p of None \<Rightarrow> h | Some h' \<Rightarrow> h')"
proof -
  obtain locked written m where P: "store_PutFinalVoteIfAbsent a p h (l_store (qm_ledger s)) = ((locked, written), m)"
    by (cases "store_PutFinalVoteIfAbsent a p h (l_store (qm_ledger s))") auto
  note v = progress_put_vote [where q = "on_store (\<lambda>_. m) s"]
  note e = progress_trans [OF progress_trans [OF v progress_OnVote] progress_emit(1)]
  have "progress (on_store (\<lambda>_. m) s) (emitFinalLocked E C kp a p h s)"
    unfolding emitFinalLocked_def P Let_def prod.case using v e by (simp split: option.split)
  then have "store_GetFinalVote (l_store (qm_ledger (emitFinalLocked E C kp a p h s))) a p = Some locked"
    using lock_written(1) [OF P] by (auto simp: progress_def store_GetFinalVote_def map_le_def dom_def)
  then show ?thesis using lock_written(2,3) [OF P] by (simp split: option.split)
qed

lemma emitFinal_emits:
  "emits (locked_vote (emitFinalLocked E C kp a p h s) a p kp) s (emitFinalLocked E C kp a p h s)"
proof -
  obtain locked written m where P: "store_PutFinalVoteIfAbsent a p h (l_store (qm_ledger s)) = ((locked, written), m)"
    by (cases "store_PutFinalVoteIfAbsent a p h (l_store (qm_ledger s))") auto
  let ?s1 = "on_store (\<lambda>_. m) s"
  show ?thesis
  proof (cases "vm_emitted (emitFinalLocked E C kp a p h s) = vm_emitted s")
    case False
    from False obtain v where v: "buildVote E C kp (qm_ledger ?s1) a p locked True = Some v"
      and e: "emitFinalLocked E C kp a p h s = VoteEmitter v (OnVote E v (on_store (store_PutVote v) ?s1))"
      unfolding emitFinalLocked_def P Let_def prod.case by (auto simp: VoteEmitter_def split: option.splits if_splits)
    have "progress ?s1 (emitFinalLocked E C kp a p h s)"
      unfolding e by (rule progress_trans [OF progress_trans [OF progress_put_vote progress_OnVote] progress_emit(1)])
    moreover have "locked_vote ?s1 a p kp v"
      using buildVote_fields [OF v] lock_written(1) [OF P] by (simp add: locked_vote_def)
    ultimately have "locked_vote (emitFinalLocked E C kp a p h s) a p kp v" by (rule locked_vote_progress)
    then show ?thesis by (rule emits_one [rotated]) (simp add: e VoteEmitter_def)
  qed (simp add: emits_same)
qed

lemma maybeLock_emits: "emits (locked_vote (maybeLockLocked E C kp a p h s) a p kp) s (maybeLockLocked E C kp a p h s)"
  using emitFinal_emits
  by (auto simp: maybeLockLocked_def Let_def scheduleStabilityRedrive_def intro!: emits_same split: prod.splits)

lemma preference_emits: "emits (\<lambda>v. \<not> vt_Final v) s (emit_preference E C kp a p h s)"
  by (auto simp: emit_preference_def Let_def stamp_revote_def VoteEmitter_def buildVote_fields intro: emits_same emits_one split: option.splits)

lemma fold_note1_emitted [simp]: "vm_emitted (fold (note1 E key) hs s) = vm_emitted s"
  by (induction hs arbitrary: s) (simp_all add: note1_def Let_def)

lemma note_emitted: "vm_emitted (noteHeldCandidatesLocked E a p hs s) = vm_emitted s"
  by (simp add: noteHeldCandidatesLocked_def Let_def)

lemma cast_preference_emits: "emits (locked_vote (cast_preference E C kp a p cs s) a p kp) s (cast_preference E C kp a p cs s)"
proof -
  let ?s1 = "noteHeldCandidatesLocked E a p cs s"
  have n: "emits P s ?s1" for P by (rule emits_same) (rule note_emitted)
  have "emits (locked_vote s' a p kp) s s'" if "s' = maybeLockLocked E C kp a p h (emit_preference E C kp a p h ?s1)" for s' h
    unfolding that
    by (rule emits_trans [OF emits_trans [OF n emits_mono [OF preference_emits]] maybeLock_emits]) (simp add: locked_vote_def)
  then show ?thesis using n by (auto simp: cast_preference_def Let_def split: option.splits)
qed


text \<open>A repetition of the final vote the store already holds from this node.\<close>

definition repeated_vote :: "vote_mgr \<Rightarrow> string \<Rightarrow> string \<Rightarrow> key_pair \<Rightarrow> vote \<Rightarrow> bool" where
  "repeated_vote s account prev kp v \<longleftrightarrow>
     (\<exists>e. store_GetVote (l_store (qm_ledger s)) account prev (PubKeyHex kp) = Some e \<and> vt_Final e \<and> vt_BlockHash v = vt_BlockHash e)"

lemma reaffirm_emits:
  assumes "store_GetVote (l_store (qm_ledger s)) a p (PubKeyHex kp) = Some e" "vt_Final e"
  shows "emits (repeated_vote s a p kp) s (reaffirm_own E C kp a p e s)"
proof -
  have "repeated_vote s a p kp v" if "buildVote E C kp l a p (vt_BlockHash e) True = Some v" for l v
    using buildVote_fields [OF that] assms by (auto simp: repeated_vote_def)
  then show ?thesis
    by (auto simp: reaffirm_own_def Let_def stamp_revote_def VoteEmitter_def intro: emits_same emits_one split: option.splits)
qed

lemma castVoteLocked_emits:
  fixes s :: vote_mgr
  assumes "vc_keyPair C = Some kp"
  shows "emits (\<lambda>v. locked_vote (castVoteLocked E C a p seed s) a p kp v \<or> repeated_vote s a p kp v) s (castVoteLocked E C a p seed s)"
proof -
  let ?l = "qm_ledger s"
  have "castVoteLocked E C a p seed s = s \<or>
      (\<exists>e. store_GetVote (l_store ?l) a p (PubKeyHex kp) = Some e \<and> vt_Final e \<and> castVoteLocked E C a p seed s = reaffirm_own E C kp a p e s) \<or>
      (\<exists>h. castVoteLocked E C a p seed s = emitFinalLocked E C kp a p h s) \<or>
      (\<exists>cs. castVoteLocked E C a p seed s = cast_preference E C kp a p cs s)"
    by (auto simp: castVoteLocked_def assms Let_def split: option.split)
  then consider (same) "castVoteLocked E C a p seed s = s"
    | (own) e where "store_GetVote (l_store ?l) a p (PubKeyHex kp) = Some e" "vt_Final e"
        "castVoteLocked E C a p seed s = reaffirm_own E C kp a p e s"
    | (locked) h where "castVoteLocked E C a p seed s = emitFinalLocked E C kp a p h s"
    | (fresh) cs where "castVoteLocked E C a p seed s = cast_preference E C kp a p cs s"
    by blast
  then show ?thesis
  proof cases
    case same
    then show ?thesis by (simp add: emits_same)
  next
    case own
    from emits_mono [OF reaffirm_emits [OF own(1,2)]] show ?thesis by (simp add: own(3))
  next
    case locked
    from emits_mono [OF emitFinal_emits] show ?thesis by (simp add: locked)
  next
    case fresh
    from emits_mono [OF cast_preference_emits] show ?thesis by (simp add: fresh)
  qed
qed

section \<open>A voting node\<close>

text \<open>
  A representative with all the weight, which has locked the transfer it has staged; and
  the same node before the lock, with a stored vote of 67 of 100 units.
\<close>

definition sample_keys :: key_pair where
  "sample_keys = \<lparr>kp_Public = replicate 32 7, kp_Private = []\<rparr>"

definition sample_config :: vote_config where
  "sample_config = \<lparr>vc_keyPair = Some sample_keys, vc_Sign = \<lambda>k m. [], vc_Sync = True, vc_VotePullFn = \<lambda>a p. False\<rparr>"

definition sample_voter :: vote_mgr where
  "sample_voter =
     NewVoteManager (sample_ledger\<lparr>l_store := (l_store sample_ledger)
       \<lparr>m_staged := [(sample_hex 1, sample_transfer)], m_finalVotes := [(sample_hex 8 @ ''|'' @ sample_hex 56, sample_hex 1)]\<rparr>\<rparr>)"

definition sample_undecided :: vote_mgr where
  "sample_undecided = sample_election\<lparr>vm_lastNewCandidateNanos := [(vote_key (sample_hex 8) (sample_hex 56), 1)]\<rparr>"

lemma sample_ledger_votes [simp]: "m_votes (l_store sample_ledger) = []"
  by (simp add: sample_ledger_def empty_ledger_def NewMemStore_def)

lemma sample_voter_ledger:
  "qm_ledger sample_voter = sample_ledger\<lparr>l_store := (l_store sample_ledger)
       \<lparr>m_staged := [(sample_hex 1, sample_transfer)], m_finalVotes := [(sample_hex 8 @ ''|'' @ sample_hex 56, sample_hex 1)]\<rparr>\<rparr>"
  "vm_emitted sample_voter = []"
  by (simp_all add: sample_voter_def NewVoteManager_def NewQuorumManager_def quorum_mgr.extend_def vote_mgr.fields_def)

section \<open>Properties\<close>

text \<open>
  C12. A node does not contradict its lock: every final vote a call of the vote caster
  signs is its own vote at that position for the block the store has locked, or repeats the
  final vote the store already held from it.
\<close>

theorem castVoteLocked_final_votes:
  fixes s :: vote_mgr
  assumes "vc_keyPair C = Some kp"
  shows "\<exists>new. vm_emitted (castVoteLocked E C account prev seed s) = vm_emitted s @ new \<and>
    (\<forall>v\<in>set new. vt_Final v \<longrightarrow>
       store_GetFinalVote (l_store (qm_ledger (castVoteLocked E C account prev seed s))) account prev = Some (vt_BlockHash v) \<or>
       (\<exists>e. store_GetVote (l_store (qm_ledger s)) account prev (PubKeyHex kp) = Some e \<and> vt_Final e \<and> vt_BlockHash e = vt_BlockHash v))"
  using castVoteLocked_emits [OF assms, of E account prev seed s]
  unfolding emits_def locked_vote_def repeated_vote_def list_all_iff by metis

lemma sample_voter_vote:
  "\<exists>v. vm_emitted (castVoteLocked sample_env sample_config (sample_hex 8) (sample_hex 56) [] sample_voter) = [v] \<and> vt_Final v"
proof -
  let ?l = "qm_ledger sample_voter"
  have a: "Address sample_env sample_keys = sample_hex 8" "PubKeyHex sample_keys = sample_hex 7"
    by (simp_all add: Address_def sample_keys_def sample_address PubKeyHex_def sample_hex_def)
  have w: "GetVoteWeight sample_env ?l (sample_hex 8) = 42000000000000"
    by (simp add: GetVoteWeight_def sample_voter_ledger eligibleAllowlistLocked_def configuredAllowlist_def repEligibleLocked_def weight_of_def sample_ledger_def mdef_def)
  have r: "\<not> positionResolved ?l (sample_hex 8) (sample_hex 56)"
    by (simp add: positionResolved_def GetBlockHeight_def store_GetAccountChain_def sample_voter_ledger FinalHeight_def store_GetFinalHeight_def mdef_def)
  have d: "depsFinalized ?l sample_transfer"
    by (simp add: depsFinalized_def blockDependencies_def IsFinalized_def GetBlockHeight_def store_GetAccountChain_def sample_voter_ledger
        FinalHeight_def store_GetFinalHeight_def mdef_def)
  obtain v where v: "buildVote sample_env sample_config sample_keys ?l (sample_hex 8) (sample_hex 56) (sample_hex 1) True = Some v"
    by (simp add: buildVote_def Let_def voteSigningBytes_def a hex32_def hex32_or_zero_def)
  have n: "store_GetVote (l_store ?l) (sample_hex 8) (sample_hex 56) (sample_hex 7) = None"
    "store_GetFinalVote (l_store ?l) (sample_hex 8) (sample_hex 56) = Some (sample_hex 1)"
    by (simp_all add: sample_voter_ledger store_GetVote_def store_GetFinalVote_def)
  have p: "store_PutFinalVoteIfAbsent (sample_hex 8) (sample_hex 56) (sample_hex 1) (l_store ?l) = ((sample_hex 1, False), l_store ?l)"
    by (simp add: store_PutFinalVoteIfAbsent_def sample_voter_ledger)
  have b: "GetBlockOrStaged ?l (sample_hex 1) = Some sample_transfer"
    by (simp add: GetBlockOrStaged_def store_GetBlock_def store_GetStagedBlock_def sample_voter_ledger)
  have "vc_keyPair sample_config = Some sample_keys" "vc_Sync sample_config" by (simp_all add: sample_config_def)
  then have "vm_emitted (castVoteLocked sample_env sample_config (sample_hex 8) (sample_hex 56) [] sample_voter) = [v]"
    by (simp add: castVoteLocked_def a w r n emitFinalLocked_def p b d v VoteEmitter_def sample_voter_ledger(2) Let_def)
  then show ?thesis using buildVote_fields(1) [OF v] by blast
qed

theorem castVoteLocked_final_votes_witness:
  "\<exists>v. vm_emitted (castVoteLocked sample_env sample_config (sample_hex 8) (sample_hex 56) [] sample_voter) = [v] \<and> vt_Final v \<and>
     store_GetFinalVote (l_store (qm_ledger (castVoteLocked sample_env sample_config (sample_hex 8) (sample_hex 56) [] sample_voter)))
       (sample_hex 8) (sample_hex 56) = Some (vt_BlockHash v)"
proof -
  obtain v where v: "vm_emitted (castVoteLocked sample_env sample_config (sample_hex 8) (sample_hex 56) [] sample_voter) = [v]" "vt_Final v"
    using sample_voter_vote by blast
  have k: "vc_keyPair sample_config = Some sample_keys" by (simp add: sample_config_def)
  have "store_GetVote (l_store (qm_ledger sample_voter)) (sample_hex 8) (sample_hex 56) (PubKeyHex sample_keys) = None"
    by (simp add: sample_voter_ledger store_GetVote_def)
  with castVoteLocked_final_votes [OF k, of sample_env "sample_hex 8" "sample_hex 56" "[]" sample_voter] v
  show ?thesis by (auto simp: sample_voter_ledger(2))
qed

text \<open>
  C13. A lock is not taken lightly: where none was held, \<open>maybeLockLocked\<close> locks only the
  preferred block, only when the votes for it reach 67 percent of the election's total, and
  only after no new candidate has been seen for the stability window.
\<close>

theorem maybeLockLocked_guards:
  fixes s :: vote_mgr
  assumes "store_GetFinalVote (l_store (qm_ledger s)) account prev = None"
    "store_GetFinalVote (l_store (qm_ledger (maybeLockLocked E C kp account prev pref s))) account prev = Some h"
  shows "h = pref \<and>
    thresholdMet (mget (convergeWeights (qm_ledger s) account prev) pref) (electionTotalWeight E (qm_ledger s) account prev) \<and>
    (let stamp = mdef 0 (vm_lastNewCandidateNanos s) (vote_key account prev)
     in stamp \<noteq> 0 \<and> i64 (lockStabilityWindow - i64 (now_ns E - stamp)) \<le> 0)"
proof -
  have n: "store_GetFinalVote (l_store (qm_ledger (scheduleStabilityRedrive E account prev x s))) account prev = None" for x
    using assms(1) by (simp add: scheduleStabilityRedrive_def Let_def)
  have m: "maybeLockLocked E C kp account prev pref s = emitFinalLocked E C kp account prev pref s"
    and t: "thresholdMet (mget (convergeWeights (qm_ledger s) account prev) pref) (electionTotalWeight E (qm_ledger s) account prev)"
    and w: "snd (stabilityWindowRemaining E account prev s)" "fst (stabilityWindowRemaining E account prev s) \<le> 0"
    using assms n by (auto simp: maybeLockLocked_def Let_def split: prod.splits if_splits)
  from emitFinal_lock [of E C kp account prev pref s] have "h = pref" using assms m by simp
  then show ?thesis using t w by (auto simp: stabilityWindowRemaining_def Let_def split: if_splits)
qed


lemma sample_undecided_locks:
  "maybeLockLocked (sample_env\<lparr>now_ns := 10000000000\<rparr>) sample_config sample_keys (sample_hex 8) (sample_hex 56) (sample_hex 1) sample_undecided =
   emitFinalLocked (sample_env\<lparr>now_ns := 10000000000\<rparr>) sample_config sample_keys (sample_hex 8) (sample_hex 56) (sample_hex 1) sample_undecided"
  by (simp add: maybeLockLocked_def Let_def convergeWeights_def electionTotalWeight_def sample_undecided_def sample_election_votes
      tally_total_def sample_conflict_def sample_vote_def thresholdMet_def mdef_def big_def stabilityWindowRemaining_def lockStabilityWindow_def i64_def
      quorumDenominator_def quorumNumerator_def)

theorem maybeLockLocked_guards_witness:
  "store_GetFinalVote (l_store (qm_ledger (maybeLockLocked (sample_env\<lparr>now_ns := 10000000000\<rparr>) sample_config sample_keys
      (sample_hex 8) (sample_hex 56) (sample_hex 1) sample_undecided))) (sample_hex 8) (sample_hex 56) = Some (sample_hex 1) \<and>
   thresholdMet (mget (convergeWeights (qm_ledger sample_undecided) (sample_hex 8) (sample_hex 56)) (sample_hex 1))
     (electionTotalWeight (sample_env\<lparr>now_ns := 10000000000\<rparr>) (qm_ledger sample_undecided) (sample_hex 8) (sample_hex 56))"
proof -
  have "ballot sample_ledger1 = ballot sample_ledger"
    using ballot_handlers(1) [of sample_transfer sample_ledger] by (simp add: sample_transfer_added)
  from ballotD(2) [OF this] have n: "store_GetFinalVote (l_store (qm_ledger sample_undecided)) (sample_hex 8) (sample_hex 56) = None"
    by (simp add: store_GetFinalVote_def sample_undecided_def sample_election_ledger) (simp add: sample_ledger_def empty_ledger_def NewMemStore_def)
  then have l: "store_GetFinalVote (l_store (qm_ledger (maybeLockLocked (sample_env\<lparr>now_ns := 10000000000\<rparr>) sample_config sample_keys
      (sample_hex 8) (sample_hex 56) (sample_hex 1) sample_undecided))) (sample_hex 8) (sample_hex 56) = Some (sample_hex 1)"
    by (simp add: sample_undecided_locks emitFinal_lock)
  from maybeLockLocked_guards [OF n l] l show ?thesis by blast
qed



end
