(* ===== verification/XE_StateKV.thy ===== *)
theory XE_StateKV
  imports XE_Crypto XE_Amount
begin

text \<open>
  The key-value state of the governance chain (\<open>statechain/types.go\<close>,
  \<open>statechain/kvstore.go\<close>, \<open>statechain/activations.go\<close>): the operations of a block, the
  checks of the values under the keys of the system, the transitions that only go one way,
  and the checks of an oracle's epoch record.

  Values are JSON texts. The functions of \<open>encoding/json\<close> the code calls are the fields of
  the record \<open>state_env\<close>, one decoder per Go type the source decodes into; nothing is
  assumed of them. Error texts leave out quotation marks and characters that are not ASCII.
\<close>

section \<open>Data\<close>

record state_op =
  op_Action :: string
  op_Key :: string
  op_Value :: string

record state_signature =
  ss_PublicKey :: string
  ss_Sig :: string

record state_block =
  sb_Index :: u64
  sb_PrevHash :: string
  sb_Ops :: "state_op list"
  sb_Signatures :: "state_signature list"
  sb_Hash :: string
  sb_Timestamp :: int

record dao_keyset =
  dk_Keys :: "string list"
  dk_Threshold :: int

record oracle_config =
  oc_Keys :: "string list"
  oc_Threshold :: int
  oc_AllowedPrefix :: string

record epoch_value =
  ev_Epoch :: u64
  ev_StartNS :: int
  ev_EndNS :: int
  ev_TWAPMilliUSD :: u64
  ev_TWAVMilliUSD :: u64
  ev_RVolume :: u64
  ev_RPriceFloor :: u64
  ev_RCollusion :: u64
  ev_REffective :: u64
  ev_RSource :: string
  ev_Phase :: "8 word"
  ev_SMilli :: "16 word"
  ev_VolumeTriggerMet :: bool
  ev_TWAPTriggerMet :: bool
  ev_PayoutCap :: u64

record tokenomics_config =
  tc_RInit :: u64
  tc_RFloor :: u64
  tc_VHalf :: u64
  tc_PriceTier1 :: u64
  tc_PriceTier2 :: u64
  tc_PriceTier3 :: u64
  tc_RPriceFloorTier1 :: u64
  tc_RPriceFloorTier2 :: u64
  tc_RCollusionFactorMilli :: u64
  tc_HermiteFDVMinUSD :: u64
  tc_HermiteFDVMaxUSD :: u64
  tc_HermiteCeilingMilli :: u64
  tc_HermiteFloorMilli :: u64

record state_representatives =
  sr_Mode :: string
  sr_Addresses :: "string list"

record activation_record =
  ar_AtIndex :: u64
  ar_NotBeforeNS :: int

type_synonym activations = "(string, activation_record) gomap"
type_synonym kv_store = "(string, string) gomap"

text \<open>
  \<open>json_Raw\<close> is what \<open>json.Marshal\<close> makes of a \<open>json.RawMessage\<close>: an error for a text that is
  not JSON, the compacted text otherwise. \<open>json_Size\<close> is the length of a marshalled block.
\<close>

record state_env = crypto_env +
  json_Valid :: "string \<Rightarrow> bool"
  json_Raw :: "string \<Rightarrow> string result"
  json_Size :: "state_block \<Rightarrow> nat"
  json_String :: "string \<Rightarrow> string result"
  json_Uint8 :: "string \<Rightarrow> 8 word result"
  json_DAOKeyset :: "string \<Rightarrow> dao_keyset result"
  json_Timekeepers :: "string \<Rightarrow> timekeeper_config result"
  json_Minter :: "string \<Rightarrow> string list result"
  json_Oracle :: "string \<Rightarrow> oracle_config result"
  json_Tokenomics :: "string \<Rightarrow> tokenomics_config result"
  json_TokenomicsStrict :: "string \<Rightarrow> tokenomics_config result"
  json_Representatives :: "string \<Rightarrow> state_representatives result"
  json_Activations :: "string \<Rightarrow> activations result"
  json_EpochValue :: "string \<Rightarrow> epoch_value result"

definition DefaultTokenomicsConfig :: tokenomics_config where
  "DefaultTokenomicsConfig =
     \<lparr>tc_RInit = 2000, tc_RFloor = 100, tc_VHalf = 500000000, tc_PriceTier1 = 500, tc_PriceTier2 = 1010,
      tc_PriceTier3 = 10000, tc_RPriceFloorTier1 = 2000, tc_RPriceFloorTier2 = 1250, tc_RCollusionFactorMilli = 950,
      tc_HermiteFDVMinUSD = 5000000, tc_HermiteFDVMaxUSD = 1000000000, tc_HermiteCeilingMilli = 1550,
      tc_HermiteFloorMilli = 1120\<rparr>"

definition MaxKeyLength :: nat where "MaxKeyLength = 128"
definition MaxValueSize :: nat where "MaxValueSize = 65536"
definition MaxBlockSize :: nat where "MaxBlockSize = 262144"
definition MinDAOThreshold :: int where "MinDAOThreshold = 2"
definition MaxEligibleRepresentatives :: nat where "MaxEligibleRepresentatives = 1000"
definition MaxActivationFeatures :: nat where "MaxActivationFeatures = 64"
definition minSaneActivationNS :: int where "minSaneActivationNS = 1600000000000000000"

abbreviation lower_letter :: "char \<Rightarrow> bool" where
  "lower_letter c \<equiv> CHR ''a'' \<le> c \<and> c \<le> CHR ''z''"

abbreviation ascii_digit :: "char \<Rightarrow> bool" where
  "ascii_digit c \<equiv> CHR ''0'' \<le> c \<and> c \<le> CHR ''9''"

section \<open>Keys and state\<close>

definition ValidateKey :: "string \<Rightarrow> unit result" where
  "ValidateKey key =
     (if key = [] then Err ''key is empty''
      else if length key > MaxKeyLength then Err ''key exceeds %d characters''
      else if \<not> list_all (\<lambda>c. lower_letter c \<or> ascii_digit c \<or> c \<in> set ''_.-'') key
      then Err ''key contains invalid characters (must be [a-z0-9_.-])'' else Inr ())"

definition apply_op :: "state_op \<Rightarrow> kv_store \<Rightarrow> kv_store" where
  "apply_op op kv =
     (if op_Action op = ''set'' then mput (op_Key op) (op_Value op) kv
      else if op_Action op = ''delete'' then mdel (op_Key op) kv else kv)"

definition ApplyOps :: "state_op list \<Rightarrow> kv_store \<Rightarrow> kv_store" where
  "ApplyOps ops kv = fold apply_op ops kv"

definition GetByPrefix :: "string \<Rightarrow> kv_store \<Rightarrow> kv_store" where
  "GetByPrefix prefix kv = filter (\<lambda>(k, v). HasPrefix k prefix) kv"

definition NetworkID :: "state_env \<Rightarrow> kv_store \<Rightarrow> string" where
  "NetworkID E kv =
     (case mget kv ''sys.network_id'' of
        None \<Rightarrow> []
      | Some raw \<Rightarrow> (case json_String E raw of Inl _ \<Rightarrow> [] | Inr i \<Rightarrow> i))"

definition kv_OracleConfig :: "state_env \<Rightarrow> kv_store \<Rightarrow> oracle_config option result" where
  "kv_OracleConfig E kv =
     (case mget kv ''sys.oracle'' of
        None \<Rightarrow> Inr None
      | Some raw \<Rightarrow>
          (case json_Oracle E raw of
             Inl e \<Rightarrow> wrap ''sys.oracle: invalid JSON: '' e
           | Inr oc \<Rightarrow>
               if oc_Keys oc = [] then Err ''sys.oracle: no keys''
               else if oc_Threshold oc < 1 \<or> oc_Threshold oc > int (length (oc_Keys oc))
               then Err ''sys.oracle: invalid threshold %d for %d keys''
               else if oc_AllowedPrefix oc = [] then Err ''sys.oracle: no allowed_prefix''
               else Inr (Some oc)))"

definition kv_Phase :: "state_env \<Rightarrow> kv_store \<Rightarrow> 8 word result" where
  "kv_Phase E kv =
     (case mget kv ''sys.phase'' of
        None \<Rightarrow> Inr 1
      | Some raw \<Rightarrow>
          (case json_Uint8 E raw of
             Inl e \<Rightarrow> wrap ''sys.phase: invalid JSON: '' e
           | Inr phase \<Rightarrow> if phase \<noteq> 1 \<and> phase \<noteq> 2 then Err ''sys.phase: invalid value %d'' else Inr phase))"

definition kv_Tokenomics :: "state_env \<Rightarrow> kv_store \<Rightarrow> tokenomics_config option result" where
  "kv_Tokenomics E kv =
     (case mget kv ''sys.tokenomics'' of
        None \<Rightarrow> Inr None
      | Some raw \<Rightarrow>
          (case json_Tokenomics E raw of
             Inl e \<Rightarrow> wrap ''sys.tokenomics: invalid JSON: '' e | Inr tc \<Rightarrow> Inr (Some tc)))"

definition kv_Representatives :: "state_env \<Rightarrow> kv_store \<Rightarrow> state_representatives option result" where
  "kv_Representatives E kv =
     (case mget kv ''sys.representatives'' of
        None \<Rightarrow> Inr None
      | Some raw \<Rightarrow>
          (case json_Representatives E raw of
             Inl e \<Rightarrow> wrap ''sys.representatives: invalid JSON: '' e | Inr rc \<Rightarrow> Inr (Some rc)))"

definition kv_DAOKeyset :: "state_env \<Rightarrow> kv_store \<Rightarrow> dao_keyset result" where
  "kv_DAOKeyset E kv =
     (case mget kv ''sys.dao_keyset'' of
        None \<Rightarrow> Err ''sys.dao_keyset not found in state''
      | Some raw \<Rightarrow>
          (case json_DAOKeyset E raw of
             Inl e \<Rightarrow> wrap ''sys.dao_keyset: invalid JSON: '' e
           | Inr ks \<Rightarrow>
               if dk_Keys ks = [] then Err ''sys.dao_keyset: no keys''
               else if dk_Threshold ks < MinDAOThreshold \<or> dk_Threshold ks > int (length (dk_Keys ks))
               then Err ''sys.dao_keyset: invalid threshold %d for %d keys (min %d)''
               else Inr ks))"

section \<open>Values of the system keys\<close>

text \<open>The loop that refuses keys of the wrong length, keys that are not hexadecimal, and repeated keys.\<close>

fun distinct_hex_keys :: "string \<Rightarrow> string set \<Rightarrow> string list \<Rightarrow> unit result" where
  "distinct_hex_keys what seen [] = Inr ()"
| "distinct_hex_keys what seen (k # ks) =
     (if length k \<noteq> 64 then Err (what @ ''[%d] invalid length: got %d, want 64 hex chars'')
      else case hex_DecodeString k of
        Inl e \<Rightarrow> wrap (what @ ''[%d] invalid hex: '') e
      | Inr _ \<Rightarrow>
          if k \<in> seen then Err (what @ ''[%d] is a duplicate'')
          else distinct_hex_keys what (insert k seen) ks)"

definition validate_dao_keyset :: "state_env \<Rightarrow> string \<Rightarrow> unit result" where
  "validate_dao_keyset E value =
     (case json_DAOKeyset E value of
        Inl e \<Rightarrow> wrap ''invalid dao_keyset JSON: '' e
      | Inr ks \<Rightarrow>
          if dk_Keys ks = [] then Err ''dao_keyset must have at least one key''
          else if dk_Threshold ks < MinDAOThreshold then Err ''dao_keyset threshold %d is below minimum %d''
          else if dk_Threshold ks > int (length (dk_Keys ks)) then Err ''dao_keyset threshold %d exceeds key count %d''
          else distinct_hex_keys ''dao_keyset key'' {} (dk_Keys ks))"

definition validate_timekeepers :: "state_env \<Rightarrow> string \<Rightarrow> unit result" where
  "validate_timekeepers E value =
     (case json_Timekeepers E value of
        Inl e \<Rightarrow> wrap ''invalid timekeepers JSON: '' e
      | Inr tk \<Rightarrow>
          if tk_Keys tk = [] then Err ''timekeepers must have at least one key''
          else if tk_Threshold tk < 1 \<or> tk_Threshold tk > int (length (tk_Keys tk))
          then Err ''timekeepers threshold %d invalid for %d keys''
          else if \<not> list_all (\<lambda>k. length k = 64) (tk_Keys tk)
          then Err ''timekeepers key[%d] invalid length: got %d, want 64 hex chars'' else Inr ())"

definition validate_minter :: "state_env \<Rightarrow> string \<Rightarrow> unit result" where
  "validate_minter E value =
     (case json_Minter E value of
        Inl e \<Rightarrow> wrap ''invalid minter config JSON: '' e
      | Inr ks \<Rightarrow>
          if ks = [] then Err ''minter config must have at least one key''
          else distinct_hex_keys ''minter key'' {} ks)"

definition validate_oracle :: "state_env \<Rightarrow> string \<Rightarrow> unit result" where
  "validate_oracle E value =
     (case json_Oracle E value of
        Inl e \<Rightarrow> wrap ''invalid oracle config JSON: '' e
      | Inr oc \<Rightarrow>
          if oc_Keys oc = [] then Err ''oracle config must have at least one key''
          else if oc_Threshold oc < 1 \<or> oc_Threshold oc > int (length (oc_Keys oc))
          then Err ''oracle threshold %d invalid for %d keys''
          else if oc_AllowedPrefix oc = [] then Err ''oracle allowed_prefix must not be empty''
          else distinct_hex_keys ''oracle key'' {} (oc_Keys oc))"

definition validate_phase :: "state_env \<Rightarrow> string \<Rightarrow> unit result" where
  "validate_phase E value =
     (case json_Uint8 E value of
        Inl e \<Rightarrow> wrap ''invalid phase JSON: '' e
      | Inr phase \<Rightarrow> if phase \<noteq> 1 \<and> phase \<noteq> 2 then Err ''phase %d invalid (must be 1 or 2)'' else Inr ())"

definition validate_representatives :: "state_env \<Rightarrow> string \<Rightarrow> unit result" where
  "validate_representatives E value =
     (case json_Representatives E value of
        Inl e \<Rightarrow> wrap ''invalid representatives config JSON: '' e
      | Inr rc \<Rightarrow>
          if sr_Mode rc = ''open'' then
            (if sr_Addresses rc \<noteq> [] then Err ''representatives mode %q must not carry addresses'' else Inr ())
          else if sr_Mode rc = ''allowlist'' then
            (if sr_Addresses rc = [] then Err ''representatives allowlist must have at least one address''
             else if length (sr_Addresses rc) > MaxEligibleRepresentatives
             then Err ''representatives allowlist has %d addresses, maximum %d''
             else distinct_hex_keys ''representatives address'' {} (sr_Addresses rc))
          else Err ''representatives mode %q unknown (want %q or %q)'')"

definition tokenomicsRMin :: u64 where "tokenomicsRMin = 1"
definition tokenomicsRMax :: u64 where "tokenomicsRMax = 100000"

definition validateTokenomicsConfig :: "state_env \<Rightarrow> string \<Rightarrow> unit result" where
  "validateTokenomicsConfig E value =
     (case json_TokenomicsStrict E value of
        Inl e \<Rightarrow> wrap ''invalid tokenomics JSON: '' e
      | Inr tc \<Rightarrow>
          if tc_RFloor tc = 0 then Err ''tokenomics r_floor must be > 0''
          else if tc_RInit tc \<le> tc_RFloor tc then Err ''tokenomics r_init (%d) must be > r_floor (%d)''
          else if tc_VHalf tc = 0 then Err ''tokenomics v_half must be > 0''
          else if tc_PriceTier1 tc \<ge> tc_PriceTier2 tc \<or> tc_PriceTier2 tc \<ge> tc_PriceTier3 tc
          then Err ''tokenomics price tiers must be strictly increasing (got %d, %d, %d)''
          else if tc_RPriceFloorTier1 tc < tc_RPriceFloorTier2 tc
          then Err ''tokenomics r_price_floor_tier_1 (%d) must be >= r_price_floor_tier_2 (%d)''
          else if tc_RPriceFloorTier2 tc < tc_RFloor tc
          then Err ''tokenomics r_price_floor_tier_2 (%d) must be >= r_floor (%d)''
          else if tc_RCollusionFactorMilli tc = 0 \<or> tc_RCollusionFactorMilli tc \<ge> 1000
          then Err ''tokenomics r_collusion_factor_milli (%d) must be in (0, 1000)''
          else if tc_HermiteFDVMinUSD tc = 0 then Err ''tokenomics hermite_fdv_min_usd must be > 0''
          else if tc_HermiteFDVMinUSD tc \<ge> tc_HermiteFDVMaxUSD tc
          then Err ''tokenomics hermite_fdv_min_usd (%d) must be < hermite_fdv_max_usd (%d)''
          else if tc_HermiteFloorMilli tc = 0 then Err ''tokenomics hermite_floor_milli must be > 0''
          else if tc_HermiteCeilingMilli tc \<le> tc_HermiteFloorMilli tc
          then Err ''tokenomics hermite_ceiling_milli (%d) must be > hermite_floor_milli (%d)''
          else if \<not> list_all (\<lambda>v. tokenomicsRMin \<le> v \<and> v \<le> tokenomicsRMax)
                 [tc_RInit tc, tc_RFloor tc, tc_RPriceFloorTier1 tc, tc_RPriceFloorTier2 tc,
                  tc_RCollusionFactorMilli tc, tc_HermiteCeilingMilli tc, tc_HermiteFloorMilli tc]
          then Err ''tokenomics %s (%d) out of sane range [%d, %d]'' else Inr ())"

section \<open>Activations\<close>

definition ActiveAt :: "activation_record \<Rightarrow> u64 \<Rightarrow> int \<Rightarrow> bool" where
  "ActiveAt r index ns \<longleftrightarrow> index \<ge> ar_AtIndex r \<and> ns \<ge> ar_NotBeforeNS r"

definition ParseActivations :: "state_env \<Rightarrow> string \<Rightarrow> activations result" where
  "ParseActivations E raw =
     (if raw = [] then Inr []
      else case json_Activations E raw of Inl e \<Rightarrow> wrap ''invalid activations JSON: '' e | Inr a \<Rightarrow> Inr a)"

definition Names :: "activations \<Rightarrow> string list" where
  "Names a = sort (map fst a)"

definition feature_ActiveAt :: "activations \<Rightarrow> string \<Rightarrow> u64 \<Rightarrow> int \<Rightarrow> bool" where
  "feature_ActiveAt a feature index ns =
     (case mget a feature of None \<Rightarrow> False | Some r \<Rightarrow> ActiveAt r index ns)"

definition feature_name :: "string \<Rightarrow> bool" where
  "feature_name s \<longleftrightarrow>
     s \<noteq> [] \<and> length s \<le> 32 \<and> lower_letter (hd s) \<and>
     list_all (\<lambda>c. lower_letter c \<or> ascii_digit c \<or> c = CHR ''_'') (tl s)"

fun validate_features :: "activations \<Rightarrow> unit result" where
  "validate_features [] = Inr ()"
| "validate_features ((name, r) # rest) =
     (if \<not> feature_name name then Err ''activations: feature name %q invalid (must match %s)''
      else if ar_AtIndex r = 0 \<and> ar_NotBeforeNS r = 0
      then Err ''activations: feature %q must set at_index or not_before_ns (both zero would mean active immediately)''
      else if ar_NotBeforeNS r < 0 then Err ''activations: feature %q not_before_ns must not be negative''
      else if ar_NotBeforeNS r \<noteq> 0 \<and> ar_NotBeforeNS r < minSaneActivationNS
      then Err ''activations: feature %q not_before_ns %d is implausibly small - unix NANOSECONDS expected''
      else validate_features rest)"

definition validateActivations :: "state_env \<Rightarrow> string \<Rightarrow> unit result" where
  "validateActivations E value =
     (case ParseActivations E value of
        Inl e \<Rightarrow> Inl e
      | Inr a \<Rightarrow>
          if length a > MaxActivationFeatures then Err ''activations: %d features exceeds maximum %d''
          else validate_features a)"

definition requireFuture :: "activation_record \<Rightarrow> state_block \<Rightarrow> unit result" where
  "requireFuture r b =
     (if ar_AtIndex r \<noteq> 0 \<and> ar_AtIndex r \<le> sb_Index b
      then Err ''activations: feature %q at_index %d is not in the future (this block is index %d)''
      else if ar_NotBeforeNS r \<noteq> 0 \<and> ar_NotBeforeNS r \<le> sb_Timestamp b
      then Err ''activations: feature %q not_before_ns %d is not in the future (this block is stamped %d)''
      else Inr ())"

fun keep_features :: "state_block \<Rightarrow> state_block \<Rightarrow> activations \<Rightarrow> activations \<Rightarrow> unit result" where
  "keep_features tip b next [] = Inr ()"
| "keep_features tip b next ((name, oldRec) # rest) =
     (case mget next name of
        None \<Rightarrow> Err ''activations: feature %q cannot be removed (activations are one-directional)''
      | Some newRec \<Rightarrow>
          if ActiveAt oldRec (sb_Index tip) (sb_Timestamp tip)
          then if newRec \<noteq> oldRec
               then Err ''activations: feature %q is already active; its trigger is frozen (at_index %d, not_before_ns %d)''
               else keep_features tip b next rest
          else if newRec = oldRec then keep_features tip b next rest
          else case requireFuture newRec b of Inl e \<Rightarrow> Inl e | Inr _ \<Rightarrow> keep_features tip b next rest)"

fun new_features :: "state_block \<Rightarrow> activations \<Rightarrow> activations \<Rightarrow> unit result" where
  "new_features b prev [] = Inr ()"
| "new_features b prev ((name, newRec) # rest) =
     (if mhas prev name then new_features b prev rest
      else case requireFuture newRec b of Inl e \<Rightarrow> Inl e | Inr _ \<Rightarrow> new_features b prev rest)"

definition validateActivationsTransition :: "state_env \<Rightarrow> kv_store \<Rightarrow> state_block \<Rightarrow> state_block \<Rightarrow> string \<Rightarrow> unit result" where
  "validateActivationsTransition E kv tip b value =
     (case ParseActivations E value of
        Inl e \<Rightarrow> Inl e
      | Inr next \<Rightarrow>
          (case (case mget kv ''sys.activations'' of None \<Rightarrow> Inr [] | Some raw \<Rightarrow> ParseActivations E raw) of
             Inl e \<Rightarrow> wrap ''existing sys.activations unreadable: '' e
           | Inr prev \<Rightarrow>
               (case keep_features tip b next prev of
                  Inl e \<Rightarrow> Inl e
                | Inr _ \<Rightarrow> new_features b prev next)))"

section \<open>Protocol versions\<close>

text \<open>\<open>strings.Split(s, ".")\<close> and \<open>strconv.Atoi\<close>.\<close>

fun split_dots :: "string \<Rightarrow> string list" where
  "split_dots [] = [[]]"
| "split_dots (c # s) =
     (if c = CHR ''.'' then [] # split_dots s
      else case split_dots s of [] \<Rightarrow> [[c]] | p # ps \<Rightarrow> (c # p) # ps)"

definition Atoi :: "string \<Rightarrow> int option" where
  "Atoi s =
     (let signed = (s \<noteq> [] \<and> hd s \<in> set ''+-''); digits = (if signed then tl s else s);
          n = (if signed \<and> hd s = CHR ''-'' then - int (decimal_value digits) else int (decimal_value digits))
      in if digits = [] \<or> \<not> allDigits digits \<or> \<not> is_i64 n then None else Some n)"

definition protocol_version :: "string \<Rightarrow> bool" where
  "protocol_version v \<longleftrightarrow>
     length (split_dots v) = 3 \<and> list_all (\<lambda>p. p \<noteq> [] \<and> length p \<le> 4 \<and> allDigits p) (split_dots v)"

definition parseProtocolVersion :: "string \<Rightarrow> int list option" where
  "parseProtocolVersion s =
     (let parts = map Atoi (split_dots s)
      in if length parts \<noteq> 3 \<or> list_ex (\<lambda>n. case n of None \<Rightarrow> True | Some i \<Rightarrow> i < 0) parts then None
         else Some (map the parts))"

fun compare_parts :: "int list \<Rightarrow> int list \<Rightarrow> int" where
  "compare_parts (x # xs) (y # ys) = (if x \<noteq> y then if x < y then -1 else 1 else compare_parts xs ys)"
| "compare_parts _ _ = 0"

definition CompareProtocolVersion :: "string \<Rightarrow> string \<Rightarrow> int" where
  "CompareProtocolVersion a b =
     (case (parseProtocolVersion a, parseProtocolVersion b) of
        (None, None) \<Rightarrow> 0
      | (None, Some _) \<Rightarrow> -1
      | (Some _, None) \<Rightarrow> 1
      | (Some av, Some bv) \<Rightarrow> compare_parts av bv)"

definition validateMinProtocolVersion :: "state_env \<Rightarrow> string \<Rightarrow> unit result" where
  "validateMinProtocolVersion E value =
     (case json_String E value of
        Inl e \<Rightarrow> wrap ''invalid min_protocol_version JSON (expected a string): '' e
      | Inr v \<Rightarrow> if \<not> protocol_version v then Err ''min_protocol_version %q must be MAJOR.MINOR.PATCH'' else Inr ())"

definition validateMinProtocolVersionTransition :: "state_env \<Rightarrow> kv_store \<Rightarrow> string \<Rightarrow> unit result" where
  "validateMinProtocolVersionTransition E kv value =
     (case mget kv ''sys.min_protocol_version'' of
        None \<Rightarrow> Inr ()
      | Some raw \<Rightarrow>
          (case json_String E raw of
             Inl e \<Rightarrow> wrap ''existing sys.min_protocol_version unreadable: '' e
           | Inr oldV \<Rightarrow>
               (case json_String E value of
                  Inl e \<Rightarrow> wrap ''incoming sys.min_protocol_version unreadable: '' e
                | Inr newV \<Rightarrow>
                    if CompareProtocolVersion newV oldV < 0
                    then Err ''sys.min_protocol_version %s -> %s not permitted (the floor only rises)'' else Inr ())))"

section \<open>Operations and transitions\<close>

definition validateSysKeyValue :: "state_env \<Rightarrow> string \<Rightarrow> string \<Rightarrow> unit result" where
  "validateSysKeyValue E key value =
     (if key = ''sys.dao_keyset'' then validate_dao_keyset E value
      else if key = ''sys.timekeepers'' then validate_timekeepers E value
      else if key = ''sys.minter'' then validate_minter E value
      else if key = ''sys.oracle'' then validate_oracle E value
      else if key = ''sys.phase'' then validate_phase E value
      else if key = ''sys.tokenomics'' then validateTokenomicsConfig E value
      else if key = ''sys.activations'' then validateActivations E value
      else if key = ''sys.min_protocol_version'' then validateMinProtocolVersion E value
      else if key = ''sys.representatives'' then validate_representatives E value
      else Inr ())"

definition ValidateOp :: "state_env \<Rightarrow> state_op \<Rightarrow> unit result" where
  "ValidateOp E op =
     (case ValidateKey (op_Key op) of
        Inl e \<Rightarrow> wrap ''op key %q: '' e
      | Inr _ \<Rightarrow>
          if op_Action op = ''set'' then
            (if op_Value op = [] then Err ''op key %q: set op must have a value''
             else if length (op_Value op) > MaxValueSize then Err ''op key %q: value exceeds %d bytes''
             else if \<not> json_Valid E (op_Value op) then Err ''op key %q: value is not valid JSON''
             else case validateSysKeyValue E (op_Key op) (op_Value op) of
               Inl e \<Rightarrow> wrap ''op key %q: '' e | Inr _ \<Rightarrow> Inr ())
          else if op_Action op = ''delete'' then
            (if HasPrefix (op_Key op) ''sys.'' then Err ''op key %q: cannot delete sys.* keys'' else Inr ())
          else Err ''op key %q: unknown action %q'')"

definition validate_phase_transition :: "state_env \<Rightarrow> kv_store \<Rightarrow> string \<Rightarrow> unit result" where
  "validate_phase_transition E kv value =
     (case mget kv ''sys.phase'' of
        None \<Rightarrow> Inr ()
      | Some old \<Rightarrow>
          (case json_Uint8 E old of
             Inl e \<Rightarrow> wrap ''existing sys.phase unreadable: '' e
           | Inr oldPhase \<Rightarrow>
               (case json_Uint8 E value of
                  Inl e \<Rightarrow> wrap ''incoming sys.phase unreadable: '' e
                | Inr newPhase \<Rightarrow>
                    if newPhase < oldPhase
                    then Err ''sys.phase transition %d -> %d not permitted (one-directional)'' else Inr ())))"

definition validateTransition :: "state_env \<Rightarrow> kv_store \<Rightarrow> state_block \<Rightarrow> state_block \<Rightarrow> state_op \<Rightarrow> unit result" where
  "validateTransition E kv tip b op =
     (if op_Action op \<noteq> ''set'' then Inr ()
      else if op_Key op = ''sys.activations'' then validateActivationsTransition E kv tip b (op_Value op)
      else if op_Key op = ''sys.min_protocol_version'' then validateMinProtocolVersionTransition E kv (op_Value op)
      else if op_Key op = ''sys.phase'' then validate_phase_transition E kv (op_Value op)
      else Inr ())"

section \<open>Epochs of the oracle\<close>

definition RCollusionFactorMilliDefault :: u64 where "RCollusionFactorMilliDefault = 950"

definition SMilliForPhase :: "8 word \<Rightarrow> 16 word" where
  "SMilliForPhase phase = (if phase = 2 then 300 else 0)"

definition expectedRCollusion :: "u64 \<Rightarrow> u64 \<Rightarrow> u64 \<Rightarrow> u64" where
  "expectedRCollusion twapMilliUSD sMilli factorMilli =
     (if twapMilliUSD = 0 then 0
      else if sMilli \<ge> 1000 then 0
      else (if factorMilli = 0 then RCollusionFactorMilliDefault else factorMilli) * (1000 - sMilli) div twapMilliUSD)"

definition payout_bounds :: "state_env \<Rightarrow> kv_store \<Rightarrow> u64 \<times> u64" where
  "payout_bounds E kv =
     (case kv_Tokenomics E kv of
        Inr (Some tc) \<Rightarrow> (tc_HermiteFloorMilli tc, tc_HermiteCeilingMilli tc) | _ \<Rightarrow> (1000, 2000))"

definition collusion_factor :: "state_env \<Rightarrow> kv_store \<Rightarrow> u64" where
  "collusion_factor E kv =
     (case kv_Tokenomics E kv of
        Inr (Some tc) \<Rightarrow> tc_RCollusionFactorMilli tc | _ \<Rightarrow> RCollusionFactorMilliDefault)"

definition check_r_source :: "epoch_value \<Rightarrow> u64 \<Rightarrow> unit result" where
  "check_r_source ev supportive =
     (if ev_RSource ev = ''volume'' then
        (if ev_RVolume ev \<le> ev_RPriceFloor ev then Err ''r_source volume but r_volume (%d) <= r_price_floor (%d)''
         else if ev_RCollusion ev \<noteq> 0 \<and> ev_RCollusion ev < ev_RVolume ev
         then Err ''r_source volume but r_collusion (%d) < r_volume (%d) - should be collusion'' else Inr ())
      else if ev_RSource ev = ''price_floor'' then
        (if ev_RPriceFloor ev \<le> ev_RVolume ev then Err ''r_source price_floor but r_price_floor (%d) <= r_volume (%d)''
         else if ev_RCollusion ev \<noteq> 0 \<and> ev_RCollusion ev < ev_RPriceFloor ev
         then Err ''r_source price_floor but r_collusion (%d) < r_price_floor (%d) - should be collusion'' else Inr ())
      else if ev_RSource ev = ''tied'' then
        (if ev_RVolume ev \<noteq> ev_RPriceFloor ev then Err ''r_source tied but r_volume (%d) != r_price_floor (%d)''
         else if ev_RCollusion ev \<noteq> 0 \<and> ev_RCollusion ev < ev_RVolume ev
         then Err ''r_source tied but r_collusion (%d) < supportive (%d) - should be collusion'' else Inr ())
      else if ev_RSource ev = ''collusion'' then
        (if ev_RCollusion ev = 0 then Err ''r_source collusion but r_collusion is zero''
         else if ev_RCollusion ev \<ge> supportive
         then Err ''r_source collusion but r_collusion (%d) >= supportive max (%d)'' else Inr ())
      else Err ''epoch r_source must be volume, price_floor, tied, or collusion, got %q'')"

definition check_chain_phase :: "state_env \<Rightarrow> kv_store \<Rightarrow> epoch_value \<Rightarrow> unit result" where
  "check_chain_phase E kv ev =
     (case kv_Phase E kv of
        Inl _ \<Rightarrow> Inr ()
      | Inr chainPhase \<Rightarrow>
          if chainPhase \<noteq> ev_Phase ev then Err ''epoch phase (%d) does not match chain sys.phase (%d)'' else Inr ())"

definition validateEpochValue :: "state_env \<Rightarrow> string \<Rightarrow> kv_store \<Rightarrow> unit result" where
  "validateEpochValue E value kv =
     (case json_EpochValue E value of
        Inl e \<Rightarrow> wrap ''invalid epoch JSON: '' e
      | Inr ev \<Rightarrow>
      let (lo, hi) = payout_bounds E kv;
          expectedRCol = expectedRCollusion (ev_TWAPMilliUSD ev) (ucast (ev_SMilli ev)) (collusion_factor E kv);
          supportive = (if ev_RPriceFloor ev > ev_RVolume ev then ev_RPriceFloor ev else ev_RVolume ev);
          expectedR = (if ev_RCollusion ev \<noteq> 0 \<and> ev_RCollusion ev < supportive then ev_RCollusion ev else supportive)
      in if ev_EndNS ev \<le> ev_StartNS ev then Err ''epoch end_ns (%d) must be after start_ns (%d)''
         else if ev_Phase ev \<noteq> 1 \<and> ev_Phase ev \<noteq> 2 then Err ''epoch phase must be 1 or 2, got %d''
         else if ev_PayoutCap ev \<noteq> 0 \<and> (ev_PayoutCap ev < lo \<or> ev_PayoutCap ev > hi)
         then Err ''epoch payout_cap (%d) out of range [%d, %d]''
         else if ev_SMilli ev \<noteq> SMilliForPhase (ev_Phase ev)
         then Err ''epoch s_milli (%d) does not match phase %d (expected %d)''
         else if ev_RCollusion ev \<noteq> 0 \<and> ev_RCollusion ev \<noteq> expectedRCol
         then Err ''epoch r_collusion (%d) != expected %d (twap=%d, s=%d)''
         else if ev_REffective ev \<noteq> expectedR
         then Err ''epoch r_effective (%d) != expected %d (r_vol=%d, r_pf=%d, r_col=%d)''
         else case check_r_source ev supportive of
           Inl e \<Rightarrow> Inl e
         | Inr _ \<Rightarrow> check_chain_phase E kv ev)"

end
