(* ===== verification/XE_StateChain.thy ===== *)
theory XE_StateChain
  imports XE_StateKV
begin

text \<open>
  The governance chain (\<open>statechain/chain.go\<close>, \<open>statechain/encoding.go\<close>,
  \<open>statechain/crypto.go\<close>, \<open>statechain/genesis.go\<close>, \<open>statechain/activations.go\<close>), the part of
  the store that keeps its blocks (\<open>store/mem_store.go\<close>), and the two sides of its
  synchronisation (\<open>statechain/sync.go\<close>).

  A chain is the record \<open>state_chain\<close>: the store's blocks, the state, the tip and the
  genesis block. The callbacks of the chain appear as the list of their calls. The mutex
  makes each operation one step. A stream between two nodes is the list of responses sent
  over it; deadlines, rate limits and size limits of a stream are not modelled.
\<close>

section \<open>Encoding and hashing\<close>

definition marshal_op :: "state_op \<Rightarrow> bytes result" where
  "marshal_op op =
     (let key = PutUint16 (length (op_Key op)) @ string_bytes (op_Key op)
      in if op_Action op = ''set''
         then Inr (1 # key @ PutUint32 (int (length (op_Value op))) @ string_bytes (op_Value op))
         else if op_Action op = ''delete'' then Inr (2 # key @ [0, 0, 0, 0])
         else Err ''MarshalCanonical: op %d: unknown action %q'')"

fun marshal_ops :: "state_op list \<Rightarrow> bytes result" where
  "marshal_ops [] = Inr []"
| "marshal_ops (op # ops) =
     (case marshal_op op of
        Inl e \<Rightarrow> Inl e
      | Inr bs \<Rightarrow> (case marshal_ops ops of Inl e \<Rightarrow> Inl e | Inr rest \<Rightarrow> Inr (bs @ rest)))"

definition MarshalCanonical :: "state_block \<Rightarrow> bytes result" where
  "MarshalCanonical b =
     (case hex_DecodeString (sb_PrevHash b) of
        Inl e \<Rightarrow> wrap ''MarshalCanonical: invalid prev_hash hex: '' e
      | Inr prevHash \<Rightarrow>
          if length prevHash \<noteq> 32 then Err ''MarshalCanonical: prev_hash must be 32 bytes, got %d''
          else case marshal_ops (sb_Ops b) of
            Inl e \<Rightarrow> Inl e
          | Inr ops \<Rightarrow>
              Inr (PutUint64 (sb_Index b) @ prevHash @ PutUint32 (int (length (sb_Ops b))) @ ops @
                   PutInt64 (sb_Timestamp b)))"

definition state_HashBlock :: "('e) crypto_env_scheme \<Rightarrow> state_block \<Rightarrow> string result" where
  "state_HashBlock E b =
     (case MarshalCanonical b of
        Inl e \<Rightarrow> wrap ''HashBlock: '' e | Inr data \<Rightarrow> Inr (hex_EncodeToString (sha256 E data)))"

definition VerifySignature :: "('e) crypto_env_scheme \<Rightarrow> string \<Rightarrow> state_signature \<Rightarrow> unit result" where
  "VerifySignature E hash sig =
     (case DecodeHash hash of
        Inl e \<Rightarrow> Inl e | Inr hashBytes \<Rightarrow> VerifyHexSignature E (ss_PublicKey sig) (ss_Sig sig) hashBytes)"

definition VerifyBlockHash :: "('e) crypto_env_scheme \<Rightarrow> state_block \<Rightarrow> unit result" where
  "VerifyBlockHash E b =
     (case state_HashBlock E b of
        Inl e \<Rightarrow> wrap ''VerifyBlockHash: '' e
      | Inr expected \<Rightarrow> if sb_Hash b \<noteq> expected then Err ''hash mismatch: got %s, want %s'' else Inr ())"

fun count_signers :: "('e) crypto_env_scheme \<Rightarrow> string \<Rightarrow> string \<Rightarrow> string set \<Rightarrow> string set \<Rightarrow> nat \<Rightarrow> state_signature list \<Rightarrow> nat result" where
  "count_signers E missing hash members seen n [] = Inr n"
| "count_signers E missing hash members seen n (sig # sigs) =
     (if ss_PublicKey sig \<in> seen then Err ''duplicate signer: %s''
      else if ss_PublicKey sig \<notin> members then Err missing
      else case VerifySignature E hash sig of
        Inl e \<Rightarrow> wrap ''sig from %s: '' e
      | Inr _ \<Rightarrow> count_signers E missing hash members (insert (ss_PublicKey sig) seen) (n + 1) sigs)"

definition verifyMultisig :: "('e) crypto_env_scheme \<Rightarrow> state_block \<Rightarrow> dao_keyset \<Rightarrow> unit result" where
  "verifyMultisig E b keyset =
     (if sb_Signatures b = [] then Err ''no signatures''
      else case count_signers E ''signer %s not in keyset'' (sb_Hash b) (set (dk_Keys keyset)) {} 0 (sb_Signatures b) of
        Inl e \<Rightarrow> Inl e
      | Inr validCount \<Rightarrow>
          if int validCount < dk_Threshold keyset then Err ''insufficient signatures: got %d, need %d'' else Inr ())"

definition verifyOracleMultisig :: "('e) crypto_env_scheme \<Rightarrow> state_block \<Rightarrow> oracle_config \<Rightarrow> unit result" where
  "verifyOracleMultisig E b config =
     (if sb_Signatures b = [] then Err ''no signatures''
      else case count_signers E ''signer %s not in oracle keyset'' (sb_Hash b) (set (oc_Keys config)) {} 0 (sb_Signatures b) of
        Inl e \<Rightarrow> Inl e
      | Inr validCount \<Rightarrow>
          if int validCount < oc_Threshold config then Err ''insufficient oracle signatures: got %d, need %d'' else Inr ())"

section \<open>Stored blocks\<close>

type_synonym state_store = "(u64, state_block) gomap"

definition zero_state_block :: state_block where
  "zero_state_block =
     \<lparr>sb_Index = 0, sb_PrevHash = [], sb_Ops = [], sb_Signatures = [], sb_Hash = [], sb_Timestamp = 0\<rparr>"

text \<open>The operations as \<open>json.Marshal\<close> writes them: an empty value is left out, another one is compacted.\<close>

fun json_ops :: "state_env \<Rightarrow> state_op list \<Rightarrow> state_op list result" where
  "json_ops E [] = Inr []"
| "json_ops E (op # ops) =
     (case (if op_Value op = [] then Inr [] else json_Raw E (op_Value op)) of
        Inl e \<Rightarrow> Inl e
      | Inr v \<Rightarrow>
          (case json_ops E ops of Inl e \<Rightarrow> Inl e | Inr rest \<Rightarrow> Inr (op\<lparr>op_Value := v\<rparr> # rest)))"

definition copyStateBlock :: "state_env \<Rightarrow> state_block \<Rightarrow> state_block" where
  "copyStateBlock E b =
     (case json_ops E (sb_Ops b) of Inl _ \<Rightarrow> zero_state_block | Inr ops \<Rightarrow> b\<lparr>sb_Ops := ops\<rparr>)"

definition PutStateBlock :: "state_env \<Rightarrow> state_block \<Rightarrow> state_store \<Rightarrow> state_store" where
  "PutStateBlock E b m = mput (sb_Index b) (copyStateBlock E b) m"

definition GetStateBlock :: "state_env \<Rightarrow> u64 \<Rightarrow> state_store \<Rightarrow> state_block option" where
  "GetStateBlock E index m = map_option (copyStateBlock E) (mget m index)"

definition GetStateBlockRange :: "state_env \<Rightarrow> u64 \<Rightarrow> u64 \<Rightarrow> state_store \<Rightarrow> state_block list" where
  "GetStateBlockRange E start n m =
     List.map_filter (\<lambda>i. GetStateBlock E (of_nat i) m) [unat start ..< unat (start + n)]"

definition StateBlockCount :: "state_store \<Rightarrow> u64" where
  "StateBlockCount m = of_nat (length m)"

section \<open>The chain\<close>

datatype chain_event = BlockAdded state_block | ForkFound state_block state_block

record state_chain =
  ch_store :: state_store
  ch_kv :: kv_store
  ch_tip :: state_block
  ch_genesis :: state_block
  ch_events :: "chain_event list"

definition opsMatchPrefix :: "state_op list \<Rightarrow> string \<Rightarrow> bool" where
  "opsMatchPrefix ops prefix \<longleftrightarrow> ops \<noteq> [] \<and> list_all (\<lambda>op. HasPrefix (op_Key op) prefix) ops"

text \<open>\<open>oracleConfig, _ := kv.OracleConfig()\<close>, when the operations are in its scope.\<close>

definition oracle_of :: "state_env \<Rightarrow> kv_store \<Rightarrow> oracle_config option" where
  "oracle_of E kv = (case kv_OracleConfig E kv of Inl _ \<Rightarrow> None | Inr oc \<Rightarrow> oc)"

definition governing_oracle :: "state_env \<Rightarrow> kv_store \<Rightarrow> state_op list \<Rightarrow> oracle_config option" where
  "governing_oracle E kv ops =
     (case oracle_of E kv of
        None \<Rightarrow> None
      | Some oc \<Rightarrow> if opsMatchPrefix ops (oc_AllowedPrefix oc) then Some oc else None)"

definition verify_dao :: "state_env \<Rightarrow> state_block \<Rightarrow> kv_store \<Rightarrow> unit result" where
  "verify_dao E b kv =
     (case kv_DAOKeyset E kv of
        Inl e \<Rightarrow> wrap ''cannot load keyset: '' e | Inr keyset \<Rightarrow> verifyMultisig E b keyset)"

definition verifyBlockSignatures :: "state_env \<Rightarrow> state_block \<Rightarrow> kv_store \<Rightarrow> unit result" where
  "verifyBlockSignatures E b kv =
     (case governing_oracle E kv (sb_Ops b) of
        Some oc \<Rightarrow> verifyOracleMultisig E b oc | None \<Rightarrow> verify_dao E b kv)"

definition applyValidated :: "state_block \<Rightarrow> state_chain \<Rightarrow> state_chain" where
  "applyValidated b c = c\<lparr>ch_kv := ApplyOps (sb_Ops b) (ch_kv c), ch_tip := b\<rparr>"

fun validate_ops :: "state_env \<Rightarrow> kv_store \<Rightarrow> state_block \<Rightarrow> state_block \<Rightarrow> state_op list \<Rightarrow> unit result" where
  "validate_ops E kv tip b [] = Inr ()"
| "validate_ops E kv tip b (op # ops) =
     (case ValidateOp E op of
        Inl e \<Rightarrow> Inl e
      | Inr _ \<Rightarrow>
          (case validateTransition E kv tip b op of
             Inl e \<Rightarrow> Inl e | Inr _ \<Rightarrow> validate_ops E kv tip b ops))"

fun validate_epochs :: "state_env \<Rightarrow> kv_store \<Rightarrow> state_op list \<Rightarrow> unit result" where
  "validate_epochs E kv [] = Inr ()"
| "validate_epochs E kv (op # ops) =
     (case (if op_Action op = ''set'' then validateEpochValue E (op_Value op) kv else Inr ()) of
        Inl e \<Rightarrow> wrap ''epoch validation: '' e
      | Inr _ \<Rightarrow>
          if mhas kv (op_Key op) then Err ''epoch key %q already exists (write-once)''
          else validate_epochs E kv ops)"

definition authorize :: "state_env \<Rightarrow> state_block \<Rightarrow> kv_store \<Rightarrow> unit result" where
  "authorize E b kv =
     (case governing_oracle E kv (sb_Ops b) of
        Some oc \<Rightarrow>
          (case validate_epochs E kv (sb_Ops b) of Inl e \<Rightarrow> Inl e | Inr _ \<Rightarrow> verifyOracleMultisig E b oc)
      | None \<Rightarrow>
          (case verify_dao E b kv of
             Inl e \<Rightarrow> Inl e
           | Inr _ \<Rightarrow>
               (case oracle_of E kv of
                  None \<Rightarrow> Inr ()
                | Some oc \<Rightarrow>
                    if list_ex (\<lambda>op. HasPrefix (op_Key op) (oc_AllowedPrefix oc)) (sb_Ops b)
                    then Err ''DAO block cannot write to oracle prefix %q (key: %s)'' else Inr ())))"

definition check_next :: "state_env \<Rightarrow> state_block \<Rightarrow> kv_store \<Rightarrow> state_block \<Rightarrow> unit result" where
  "check_next E b kv tip =
     (if sb_Index b \<noteq> sb_Index tip + 1 then Err ''expected index %d, got %d: statechain gap''
      else if sb_PrevHash b \<noteq> sb_Hash tip then Err ''prev_hash mismatch: expected %s, got %s''
      else if sb_Timestamp b < sb_Timestamp tip then Err ''timestamp %d is before previous %d''
      else if sb_Ops b = [] then Err ''block has no ops''
      else case json_ops E (sb_Ops b) of
        Inl e \<Rightarrow> wrap ''cannot marshal block: '' e
      | Inr _ \<Rightarrow>
          if json_Size E b > MaxBlockSize then Err ''block size %d exceeds limit %d''
          else case validate_ops E kv tip b (sb_Ops b) of
            Inl e \<Rightarrow> Inl e | Inr _ \<Rightarrow> authorize E b kv)"

text \<open>A block at or below the tip: known, a fork, or unknown to the store.\<close>

definition old_block :: "state_env \<Rightarrow> state_block \<Rightarrow> state_chain \<Rightarrow> unit result \<times> state_chain" where
  "old_block E b c =
     (let stored = GetStateBlock E (sb_Index b) (ch_store c);
          existing = (if stored = None \<and> sb_Index b = 0 then Some (ch_genesis c) else stored)
      in case existing of
           None \<Rightarrow> (Inr (), c)
         | Some x \<Rightarrow>
             if sb_Hash x = sb_Hash b then (Inr (), c)
             else (Err ''fork detected at index %d: existing %s, incoming %s'',
                   case verify_dao E b (ch_kv c) of
                     Inl _ \<Rightarrow> c | Inr _ \<Rightarrow> c\<lparr>ch_events := ch_events c @ [ForkFound x b]\<rparr>))"

definition state_AddBlock :: "state_env \<Rightarrow> state_block \<Rightarrow> state_chain \<Rightarrow> unit result \<times> state_chain" where
  "state_AddBlock E b c =
     (case VerifyBlockHash E b of
        Inl e \<Rightarrow> (Inl e, c)
      | Inr _ \<Rightarrow>
          if sb_Index b \<le> sb_Index (ch_tip c) then old_block E b c
          else case check_next E b (ch_kv c) (ch_tip c) of
            Inl e \<Rightarrow> (Inl e, c)
          | Inr _ \<Rightarrow>
              (Inr (), (applyValidated b (c\<lparr>ch_store := PutStateBlock E b (ch_store c)\<rparr>))
                         \<lparr>ch_events := ch_events c @ [BlockAdded b]\<rparr>))"

section \<open>Genesis and restart\<close>

definition validateGenesisOracleScope :: "state_env \<Rightarrow> state_block \<Rightarrow> kv_store \<Rightarrow> unit result" where
  "validateGenesisOracleScope E b kv =
     (let governed = (case oracle_of E kv of None \<Rightarrow> [] | Some oc \<Rightarrow> oc_AllowedPrefix oc)
      in if list_all (\<lambda>op. op_Action op \<noteq> ''set'' \<or> \<not> HasPrefix (op_Key op) ''epoch.'' \<or>
                           governed \<noteq> [] \<and> HasPrefix (op_Key op) governed) (sb_Ops b)
         then Inr () else Err ''op %q is not governed by any sys.oracle allowed_prefix (%q)'')"

definition ValidateGenesis :: "state_env \<Rightarrow> state_block \<Rightarrow> unit result" where
  "ValidateGenesis E b =
     (if sb_Index b \<noteq> 0 then Err ''genesis: index must be 0, got %d''
      else if sb_PrevHash b \<noteq> replicate 64 CHR ''0'' then Err ''genesis: prev_hash must be 64 zero chars''
      else if sb_Ops b = [] then Err ''genesis: must have at least one op''
      else case state_HashBlock E b of
        Inl e \<Rightarrow> wrap ''genesis: '' e
      | Inr expected \<Rightarrow>
          if sb_Hash b \<noteq> expected then Err ''genesis: hash mismatch: got %s, want %s''
          else
          let kv = ApplyOps (sb_Ops b) []
          in case kv_DAOKeyset E kv of
               Inl e \<Rightarrow> wrap ''genesis: '' e
             | Inr keyset \<Rightarrow>
                 (case validateGenesisOracleScope E b kv of
                    Inl e \<Rightarrow> wrap ''genesis: '' e
                  | Inr _ \<Rightarrow>
                      if sb_Signatures b \<noteq> []
                      then case verifyMultisig E b keyset of Inl e \<Rightarrow> wrap ''genesis: '' e | Inr _ \<Rightarrow> Inr ()
                      else Inr ()))"

definition check_replayed :: "state_env \<Rightarrow> u64 \<Rightarrow> state_block \<Rightarrow> state_chain \<Rightarrow> unit result" where
  "check_replayed E expected b c =
     (if sb_Index b \<noteq> expected then Err ''gap: expected block %d, store has %d''
      else case VerifyBlockHash E b of
        Inl e \<Rightarrow> wrap ''block %d: '' e
      | Inr _ \<Rightarrow>
          if sb_PrevHash b \<noteq> sb_Hash (ch_tip c) then Err ''block %d: prev_hash mismatch: expected %s, got %s''
          else case verifyBlockSignatures E b (ch_kv c) of
            Inl e \<Rightarrow> wrap ''block %d: '' e | Inr _ \<Rightarrow> Inr ())"

fun replay_blocks :: "state_env \<Rightarrow> u64 \<Rightarrow> state_block list \<Rightarrow> state_chain \<Rightarrow> (u64 \<times> state_chain) result" where
  "replay_blocks E expected [] c = Inr (expected, c)"
| "replay_blocks E expected (b # bs) c =
     (case check_replayed E expected b c of
        Inl e \<Rightarrow> Inl e | Inr _ \<Rightarrow> replay_blocks E (expected + 1) bs (applyValidated b c))"

definition replay :: "state_env \<Rightarrow> state_chain \<Rightarrow> state_chain result" where
  "replay E c =
     (let stored = StateBlockCount (ch_store c)
      in if stored = 0 then Inr c
         else case replay_blocks E 1 (GetStateBlockRange E 1 stored (ch_store c)) c of
           Inl e \<Rightarrow> Inl e
         | Inr (expected, c') \<Rightarrow>
             if expected - 1 \<noteq> stored then Err ''gap: store reports %d blocks but only %d were readable'' else Inr c')"

definition NewChain :: "state_env \<Rightarrow> state_store \<Rightarrow> state_block \<Rightarrow> state_chain result" where
  "NewChain E m genesis =
     (case ValidateGenesis E genesis of
        Inl e \<Rightarrow> wrap ''NewChain: '' e
      | Inr _ \<Rightarrow>
          let c = \<lparr>ch_store = m, ch_kv = ApplyOps (sb_Ops genesis) [], ch_tip = genesis, ch_genesis = genesis, ch_events = []\<rparr>
          in case replay E c of
               Inl e \<Rightarrow> wrap ''NewChain: replay: '' e
             | Inr c' \<Rightarrow> (case kv_DAOKeyset E (ch_kv c') of Inl e \<Rightarrow> wrap ''NewChain: '' e | Inr _ \<Rightarrow> Inr c'))"

section \<open>Reading the chain\<close>

definition GetBlocks :: "state_env \<Rightarrow> u64 \<Rightarrow> u64 \<Rightarrow> state_chain \<Rightarrow> state_block list" where
  "GetBlocks E start limit c =
     (if start = 0
      then if limit \<le> 1 then [ch_genesis c]
           else ch_genesis c # GetStateBlockRange E 1 (limit - 1) (ch_store c)
      else GetStateBlockRange E start limit (ch_store c))"

definition chain_GetBlock :: "state_env \<Rightarrow> u64 \<Rightarrow> state_chain \<Rightarrow> state_block option" where
  "chain_GetBlock E index c = (if index = 0 then Some (ch_genesis c) else GetStateBlock E index (ch_store c))"

definition chain_BlockCount :: "state_chain \<Rightarrow> u64" where
  "chain_BlockCount c = StateBlockCount (ch_store c) + 1"

definition chain_Phase :: "state_env \<Rightarrow> state_chain \<Rightarrow> 8 word" where
  "chain_Phase E c = (case kv_Phase E (ch_kv c) of Inl _ \<Rightarrow> 0 | Inr p \<Rightarrow> p)"

definition activationsLocked :: "state_env \<Rightarrow> kv_store \<Rightarrow> activations" where
  "activationsLocked E kv =
     (case mget kv ''sys.activations'' of
        None \<Rightarrow> []
      | Some raw \<Rightarrow> (case ParseActivations E raw of Inl _ \<Rightarrow> [] | Inr a \<Rightarrow> a))"

definition chain_FeatureActive :: "state_env \<Rightarrow> string \<Rightarrow> state_chain \<Rightarrow> bool" where
  "chain_FeatureActive E feature c =
     feature_ActiveAt (activationsLocked E (ch_kv c)) feature (sb_Index (ch_tip c)) (sb_Timestamp (ch_tip c))"

record feature_status =
  fs_Name :: string
  fs_AtIndex :: u64
  fs_NotBeforeNS :: int
  fs_Active :: bool
  fs_KnownToBinary :: bool

definition FeatureStatuses :: "state_env \<Rightarrow> string set \<Rightarrow> state_chain \<Rightarrow> feature_status list" where
  "FeatureStatuses E known c =
     (let a = activationsLocked E (ch_kv c)
      in map (\<lambda>name. let r = the (mget a name)
                     in \<lparr>fs_Name = name, fs_AtIndex = ar_AtIndex r, fs_NotBeforeNS = ar_NotBeforeNS r,
                         fs_Active = ActiveAt r (sb_Index (ch_tip c)) (sb_Timestamp (ch_tip c)),
                         fs_KnownToBinary = (name \<in> known)\<rparr>) (Names a))"

definition MinProtocolVersion :: "state_env \<Rightarrow> kv_store \<Rightarrow> string" where
  "MinProtocolVersion E kv =
     (case mget kv ''sys.min_protocol_version'' of
        None \<Rightarrow> []
      | Some raw \<Rightarrow>
          (case json_String E raw of Inl _ \<Rightarrow> [] | Inr v \<Rightarrow> if protocol_version v then v else []))"

section \<open>Synchronisation\<close>

definition syncPageSize :: u64 where "syncPageSize = 64"
definition syncMaxBlocks :: nat where "syncMaxBlocks = 10000"

record sync_response =
  rs_Blocks :: "state_block list"
  rs_HasMore :: bool

text \<open>
  The loop that sends page after page. A page of no blocks does not advance the index, so
  the loop is a partial function: its value is \<open>None\<close> when it does not end.
\<close>

partial_function (option) send_pages ::
  "state_env \<Rightarrow> state_chain \<Rightarrow> u64 \<Rightarrow> u64 \<Rightarrow> nat \<Rightarrow> sync_response list option" where
  "send_pages E c tipIndex idx totalSent =
     (if idx \<le> tipIndex \<and> totalSent < syncMaxBlocks
      then let remaining = tipIndex - idx + 1;
               pageCount = (if remaining < syncPageSize then remaining else syncPageSize);
               blocks = GetBlocks E idx pageCount c;
               total' = totalSent + length blocks;
               hasMore = (idx + of_nat (length blocks) \<le> tipIndex \<and> total' < syncMaxBlocks)
           in Option.bind (send_pages E c tipIndex (idx + of_nat (length blocks)) total')
                (\<lambda>pages. Some (\<lparr>rs_Blocks = blocks, rs_HasMore = hasMore\<rparr> # pages))
      else Some [])"

definition handleSyncStream :: "state_env \<Rightarrow> int \<Rightarrow> state_chain \<Rightarrow> sync_response list option" where
  "handleSyncStream E reqTip c =
     (let tip = ch_tip c; nothing = [\<lparr>rs_Blocks = [], rs_HasMore = False\<rparr>]
      in if reqTip < -1 \<or> (reqTip \<ge> 0 \<and> word_of_int reqTip > sb_Index tip) then Some nothing
         else
         let next = (word_of_int (i64 (reqTip + 1)) :: u64); startIndex = (if next = 0 then 1 else next)
         in if startIndex > sb_Index tip then Some nothing else send_pages E c (sb_Index tip) startIndex 0)"

definition add_page :: "state_env \<Rightarrow> state_block list \<Rightarrow> nat \<times> state_chain \<Rightarrow> nat \<times> state_chain" where
  "add_page E bs st =
     fold (\<lambda>b (added, c). case state_AddBlock E b c of (Inl _, c') \<Rightarrow> (added, c') | (Inr _, c') \<Rightarrow> (added + 1, c')) bs st"

text \<open>
  The bytes of an encoded page: the fields \<open>blocks\<close>, a list or \<open>null\<close>, and \<open>has_more\<close>, with a
  line break at the end. The reader takes at most \<open>syncMaxResponseSize\<close> bytes of the stream; a
  page that does not end within them is a decoding error.
\<close>

definition syncMaxResponseSize :: nat where "syncMaxResponseSize = 10 * 2 ^ 20"

definition response_size :: "state_env \<Rightarrow> sync_response \<Rightarrow> nat" where
  "response_size E r =
     (let bs = rs_Blocks r; blocks = (if bs = [] then 4 else 1 + length bs + sum_list (map (json_Size E) bs))
      in 10 + blocks + 12 + (if rs_HasMore r then 4 else 5) + 2)"

fun receive_pages :: "state_env \<Rightarrow> nat \<Rightarrow> sync_response list \<Rightarrow> nat \<times> state_chain \<Rightarrow> unit result \<times> nat \<times> state_chain" where
  "receive_pages E room [] st = (Inr (), st)"
| "receive_pages E room (r # rs) st =
     (if room = 0 then (Inr (), st)
      else if room + 1 < response_size E r then (Err ''unexpected EOF'', st)
      else let st1 = add_page E (map (copyStateBlock E) (rs_Blocks r)) st
           in if \<not> rs_HasMore r \<or> fst st1 \<ge> syncMaxBlocks then (Inr (), st1)
              else receive_pages E (room - response_size E r) rs st1)"

text \<open>One synchronisation of \<open>c\<close> with the peer that holds the chain \<open>p\<close>.\<close>

definition requestSync :: "state_env \<Rightarrow> state_chain \<Rightarrow> state_chain \<Rightarrow> (unit result \<times> state_chain) option" where
  "requestSync E p c =
     map_option (\<lambda>rs. map_prod id snd (receive_pages E syncMaxResponseSize rs (0, c)))
       (handleSyncStream E (i64 (uint (sb_Index (ch_tip c)))) p)"

section \<open>When to synchronise\<close>

definition syncCooldown :: int where "syncCooldown = 30 * 10 ^ 9"

definition allow :: "int \<Rightarrow> string \<Rightarrow> (string, int) gomap \<Rightarrow> bool \<times> (string, int) gomap" where
  "allow now pid lasts =
     (let recent = filter (\<lambda>(p, t). now - t < syncCooldown) lasts
      in case mget recent pid of
           Some t \<Rightarrow> if now - t < syncCooldown then (False, recent) else (True, mput pid now recent)
         | None \<Rightarrow> (True, mput pid now recent))"

definition gapSyncBackoff :: int where "gapSyncBackoff = 30 * 10 ^ 9"

text \<open>The time of the last resynchronisation is \<open>None\<close> before the first one.\<close>

definition gapSyncAllowed :: "int \<Rightarrow> int option \<Rightarrow> bool \<times> int option" where
  "gapSyncAllowed now lastGap =
     (case lastGap of
        Some t \<Rightarrow> if now - t < gapSyncBackoff then (False, lastGap) else (True, Some now)
      | None \<Rightarrow> (True, Some now))"

text \<open>The peers in turn, at most three, until one synchronisation succeeds; \<open>None\<close> is a peer that cannot be reached.\<close>

fun resync :: "state_env \<Rightarrow> state_chain option list \<Rightarrow> state_chain \<Rightarrow> state_chain option" where
  "resync E [] c = Some c"
| "resync E (None # ps) c = resync E ps c"
| "resync E (Some p # ps) c =
     (case requestSync E p c of
        None \<Rightarrow> None
      | Some (Inl _, c') \<Rightarrow> resync E ps c'
      | Some (Inr _, c') \<Rightarrow> Some c')"

definition ResyncOnGap :: "state_env \<Rightarrow> int \<Rightarrow> state_chain option list \<Rightarrow> int option \<Rightarrow> state_chain \<Rightarrow> int option \<times> state_chain option" where
  "ResyncOnGap E now peers lastGap c =
     (case gapSyncAllowed now lastGap of
        (False, t) \<Rightarrow> (t, Some c)
      | (True, t) \<Rightarrow> (t, resync E (take 3 peers) c))"

end
