(* ===== verification/XE_Governance.thy ===== *)
theory XE_Governance
  imports XE_StateChain
begin

text \<open>
  What the governance chain promises: the state changes only behind enough signatures of
  the keys that govern it, the chain never loses a usable keyset, activations, the phase and
  the protocol floor only move forward, and an accepted epoch keeps the emission rate under
  its bounds.
\<close>

section \<open>Signatures\<close>

definition signed_by :: "('e) crypto_env_scheme \<Rightarrow> state_block \<Rightarrow> string list \<Rightarrow> int \<Rightarrow> bool" where
  "signed_by E b members threshold \<longleftrightarrow>
     sb_Signatures b \<noteq> [] \<and> distinct (map ss_PublicKey (sb_Signatures b)) \<and>
     threshold \<le> int (length (sb_Signatures b)) \<and>
     list_all (\<lambda>sig. ss_PublicKey sig \<in> set members \<and> VerifySignature E (sb_Hash b) sig = Inr ()) (sb_Signatures b)"

lemma count_signers_iff:
  "count_signers E missing hash members seen n sigs = Inr m \<longleftrightarrow>
   m = n + length sigs \<and> distinct (map ss_PublicKey sigs) \<and> set (map ss_PublicKey sigs) \<inter> seen = {} \<and>
   list_all (\<lambda>sig. ss_PublicKey sig \<in> members \<and> VerifySignature E hash sig = Inr ()) sigs"
proof (induction sigs arbitrary: seen n)
  case (Cons sig sigs)
  then show ?case by (auto split: sum.splits)
qed auto

lemma verifyMultisig_iff: "verifyMultisig E b ks = Inr () \<longleftrightarrow> signed_by E b (dk_Keys ks) (dk_Threshold ks)"
  by (auto simp: verifyMultisig_def signed_by_def result_simps count_signers_iff not_less)

lemma verifyOracleMultisig_iff: "verifyOracleMultisig E b oc = Inr () \<longleftrightarrow> signed_by E b (oc_Keys oc) (oc_Threshold oc)"
  by (auto simp: verifyOracleMultisig_def signed_by_def result_simps count_signers_iff not_less)

section \<open>What the operations of a block do\<close>

lemma apply_op_lookup:
  "mget (apply_op op kv) k = (if op_Key op \<noteq> k then mget kv k
     else if op_Action op = ''set'' then Some (op_Value op)
     else if op_Action op = ''delete'' then None else mget kv k)"
  by (simp add: apply_op_def)

lemma ApplyOps_Nil [simp]: "ApplyOps [] kv = kv" and ApplyOps_Cons [simp]: "ApplyOps (op # ops) kv = ApplyOps ops (apply_op op kv)"
  by (simp_all add: ApplyOps_def)

lemma ApplyOps_lookup:
  "mget (ApplyOps ops kv) k = mget kv k \<or>
   (\<exists>op\<in>set ops. op_Key op = k \<and>
      (op_Action op = ''set'' \<and> mget (ApplyOps ops kv) k = Some (op_Value op) \<or>
       op_Action op = ''delete'' \<and> mget (ApplyOps ops kv) k = None))"
proof (induction ops arbitrary: kv)
  case (Cons op ops)
  show ?case using Cons [of "apply_op op kv"] by (auto simp: apply_op_lookup split: if_splits)
qed simp

text \<open>A key of the system that was there stays, with its old value or a validated new one.\<close>

lemma validate_ops_each:
  "validate_ops E kv tip b ops = Inr () \<Longrightarrow> op \<in> set ops \<Longrightarrow>
   ValidateOp E op = Inr () \<and> validateTransition E kv tip b op = Inr ()"
  by (induction ops) (auto split: sum.splits)

lemma ValidateOp_set:
  "ValidateOp E op = Inr () \<Longrightarrow> op_Action op = ''set'' \<Longrightarrow> validateSysKeyValue E (op_Key op) (op_Value op) = Inr () \<and> op_Value op \<noteq> []"
  by (auto simp: ValidateOp_def result_simps split: sum.splits if_splits)

lemma ValidateOp_sys:
  "ValidateOp E op = Inr () \<Longrightarrow> HasPrefix (op_Key op) ''sys.'' \<Longrightarrow> op_Action op = ''set''"
  by (auto simp: ValidateOp_def split: sum.splits if_splits)

lemma ApplyOps_sys:
  assumes "validate_ops E kv tip b ops = Inr ()" "HasPrefix k ''sys.''"
  shows "mget (ApplyOps ops kv) k = mget kv k \<or>
    (\<exists>v. mget (ApplyOps ops kv) k = Some v \<and> v \<noteq> [] \<and> validateSysKeyValue E k v = Inr () \<and>
       validateTransition E kv tip b \<lparr>op_Action = ''set'', op_Key = k, op_Value = v\<rparr> = Inr ())"
proof -
  consider "mget (ApplyOps ops kv) k = mget kv k"
    | op where "op \<in> set ops" "op_Key op = k" "mget (ApplyOps ops kv) k = Some (op_Value op)" "op_Action op = ''set''"
    | op where "op \<in> set ops" "op_Key op = k" "op_Action op = ''delete''"
    using ApplyOps_lookup [of ops kv k] by blast
  then show ?thesis
  proof cases
    case 2
    have op: "op = \<lparr>op_Action = ''set'', op_Key = k, op_Value = op_Value op\<rparr>" by (rule state_op.equality) (simp_all add: 2)
    show ?thesis using validate_ops_each [OF assms(1) 2(1)] ValidateOp_set [of E op] 2 op by metis
  next
    case 3
    then show ?thesis using validate_ops_each [OF assms(1)] ValidateOp_sys [of E op] assms(2) by fastforce
  qed simp
qed

section \<open>Accepted blocks\<close>

definition accepted :: "state_env \<Rightarrow> state_block \<Rightarrow> state_chain \<Rightarrow> bool" where
  "accepted E b c \<longleftrightarrow>
     VerifyBlockHash E b = Inr () \<and> sb_Index (ch_tip c) < sb_Index b \<and> check_next E b (ch_kv c) (ch_tip c) = Inr ()"

abbreviation same_chain :: "state_chain \<Rightarrow> state_chain \<Rightarrow> bool" where
  "same_chain c c' \<equiv> c'\<lparr>ch_events := []\<rparr> = c\<lparr>ch_events := []\<rparr>"

lemma same_chainD:
  assumes "same_chain c c'"
  shows "ch_store c' = ch_store c" "ch_kv c' = ch_kv c" "ch_tip c' = ch_tip c" "ch_genesis c' = ch_genesis c"
  using assms by (cases c; cases c'; simp)+

lemma old_block_same: "same_chain c (snd (old_block E b c))" "BlockAdded x \<in> set (ch_events (snd (old_block E b c))) \<longleftrightarrow> BlockAdded x \<in> set (ch_events c)"
  by (simp_all add: old_block_def Let_def split: option.splits sum.splits)

lemma AddBlock_cases:
  obtains (accepted) "accepted E b c" "state_AddBlock E b c =
      (Inr (), c\<lparr>ch_store := PutStateBlock E b (ch_store c), ch_kv := ApplyOps (sb_Ops b) (ch_kv c), ch_tip := b,
                 ch_events := ch_events c @ [BlockAdded b]\<rparr>)"
  | (refused) "\<not> accepted E b c" "same_chain c (snd (state_AddBlock E b c))"
      "\<forall>x. BlockAdded x \<in> set (ch_events (snd (state_AddBlock E b c))) \<longleftrightarrow> BlockAdded x \<in> set (ch_events c)"
proof (cases "accepted E b c")
  case True
  then show ?thesis by (intro that(1)) (auto simp: accepted_def state_AddBlock_def applyValidated_def)
next
  case False
  then show ?thesis
    by (intro that(2)) (auto simp: accepted_def state_AddBlock_def old_block_same split: sum.splits)
qed

lemma accepted_next:
  assumes "accepted E b c"
  shows "sb_Index b = sb_Index (ch_tip c) + 1" "sb_PrevHash b = sb_Hash (ch_tip c)" "sb_Timestamp (ch_tip c) \<le> sb_Timestamp b"
    "validate_ops E (ch_kv c) (ch_tip c) b (sb_Ops b) = Inr ()" "authorize E b (ch_kv c) = Inr ()" "VerifyBlockHash E b = Inr ()"
    "sb_Ops b \<noteq> []" "\<exists>ops. json_ops E (sb_Ops b) = Inr ops"
  using assms unfolding accepted_def check_next_def by (auto simp: result_simps not_less)

section \<open>Changes are authorised\<close>

lemma validate_epochs_absent: "validate_epochs E kv ops = Inr () \<Longrightarrow> op \<in> set ops \<Longrightarrow> mget kv (op_Key op) = None"
  by (induction ops) (auto split: sum.splits if_splits)

lemma authorize_change:
  assumes "authorize E b kv = Inr ()" "mget (ApplyOps (sb_Ops b) kv) k \<noteq> mget kv k"
  shows "(\<exists>oc. oracle_of E kv = Some oc \<and> HasPrefix k (oc_AllowedPrefix oc) \<and> mget kv k = None \<and>
        signed_by E b (oc_Keys oc) (oc_Threshold oc)) \<or>
    (\<exists>ks. kv_DAOKeyset E kv = Inr ks \<and> signed_by E b (dk_Keys ks) (dk_Threshold ks) \<and>
        (\<forall>oc. oracle_of E kv = Some oc \<longrightarrow> \<not> HasPrefix k (oc_AllowedPrefix oc)))"
proof -
  obtain op where op: "op \<in> set (sb_Ops b)" "op_Key op = k" using ApplyOps_lookup [of "sb_Ops b" kv k] assms(2) by blast
  show ?thesis
  proof (cases "governing_oracle E kv (sb_Ops b)")
    case None
    then have d: "verify_dao E b kv = Inr ()" using assms(1) by (auto simp: authorize_def result_simps split: sum.splits)
    then obtain ks where "kv_DAOKeyset E kv = Inr ks" "signed_by E b (dk_Keys ks) (dk_Threshold ks)"
      by (auto simp: verify_dao_def verifyMultisig_iff split: sum.splits)
    moreover have "\<not> HasPrefix k (oc_AllowedPrefix oc)" if "oracle_of E kv = Some oc" for oc
      using assms(1) None d that op by (auto simp: authorize_def list_ex_iff split: if_splits)
    ultimately show ?thesis by blast
  next
    case (Some oc)
    then have o: "oracle_of E kv = Some oc" "opsMatchPrefix (sb_Ops b) (oc_AllowedPrefix oc)"
      by (auto simp: governing_oracle_def split: option.splits if_splits)
    have "validate_epochs E kv (sb_Ops b) = Inr ()" "signed_by E b (oc_Keys oc) (oc_Threshold oc)"
      using assms(1) Some by (auto simp: authorize_def verifyOracleMultisig_iff split: sum.splits)
    then show ?thesis
      using o op validate_epochs_absent [of E kv "sb_Ops b" op] by (auto simp: opsMatchPrefix_def list_all_iff)
  qed
qed

text \<open>Who may change the entry of a key by a block: the oracle once under its prefix, the DAO elsewhere.\<close>

definition authorised :: "state_env \<Rightarrow> state_block \<Rightarrow> kv_store \<Rightarrow> string \<Rightarrow> bool" where
  "authorised E b kv k \<longleftrightarrow>
     (\<exists>oc. oracle_of E kv = Some oc \<and> HasPrefix k (oc_AllowedPrefix oc) \<and> mget kv k = None \<and>
        signed_by E b (oc_Keys oc) (oc_Threshold oc)) \<or>
     (\<exists>ks. kv_DAOKeyset E kv = Inr ks \<and> signed_by E b (dk_Keys ks) (dk_Threshold ks) \<and>
        (\<forall>oc. oracle_of E kv = Some oc \<longrightarrow> \<not> HasPrefix k (oc_AllowedPrefix oc)))"

lemma AddBlock_change:
  assumes "mget (ch_kv (snd (state_AddBlock E b c))) k \<noteq> mget (ch_kv c) k"
  shows "authorised E b (ch_kv c) k"
proof (cases rule: AddBlock_cases [of E b c])
  case accepted
  then show ?thesis using authorize_change [OF accepted_next(5)] assms by (simp add: authorised_def)
next
  case refused
  then show ?thesis using assms same_chainD(2) [OF refused(2)] by simp
qed

text \<open>
  C16. Every change of the state is authorised: an entry changes only by a block that carries
  valid signatures of distinct keys of the governing keyset, as many as its threshold asks
  for. Under the prefix of the oracle these are the oracle's keys, and the entry was not
  there before; everywhere else they are the keys of the DAO.
\<close>

theorem AddBlock_authorized:
  assumes "mget (ch_kv (snd (state_AddBlock E b c))) k \<noteq> mget (ch_kv c) k"
  shows "(\<exists>oc. oracle_of E (ch_kv c) = Some oc \<and> HasPrefix k (oc_AllowedPrefix oc) \<and> mget (ch_kv c) k = None \<and>
        signed_by E b (oc_Keys oc) (oc_Threshold oc)) \<or>
    (\<exists>ks. kv_DAOKeyset E (ch_kv c) = Inr ks \<and> signed_by E b (dk_Keys ks) (dk_Threshold ks) \<and>
        (\<forall>oc. oracle_of E (ch_kv c) = Some oc \<longrightarrow> \<not> HasPrefix k (oc_AllowedPrefix oc)))"
  using AddBlock_change [OF assms] by (simp add: authorised_def)

section \<open>What only moves one way\<close>

definition add_all :: "state_env \<Rightarrow> state_block list \<Rightarrow> state_chain \<Rightarrow> state_chain" where
  "add_all E bs c = fold (\<lambda>b c. snd (state_AddBlock E b c)) bs c"

lemma add_all_simps [simp]: "add_all E [] c = c" "add_all E (b # bs) c = add_all E bs (snd (state_AddBlock E b c))"
  by (simp_all add: add_all_def)

lemma add_all_change:
  "mget (ch_kv (add_all E bs c)) k \<noteq> mget (ch_kv c) k \<Longrightarrow>
   \<exists>i<length bs. mget (ch_kv (add_all E (take (Suc i) bs) c)) k \<noteq> mget (ch_kv (add_all E (take i bs) c)) k \<and>
     authorised E (bs ! i) (ch_kv (add_all E (take i bs) c)) k"
proof (induction bs arbitrary: c)
  case (Cons b bs)
  let ?d = "snd (state_AddBlock E b c)"
  show ?case
  proof (cases "mget (ch_kv ?d) k = mget (ch_kv c) k")
    case True
    then have "mget (ch_kv (add_all E bs ?d)) k \<noteq> mget (ch_kv ?d) k" using Cons.prems by simp
    from Cons.IH [OF this] obtain i where "i < length bs"
      "mget (ch_kv (add_all E (take (Suc i) bs) ?d)) k \<noteq> mget (ch_kv (add_all E (take i bs) ?d)) k \<and>
       authorised E (bs ! i) (ch_kv (add_all E (take i bs) ?d)) k" by blast
    then show ?thesis by (intro exI [of _ "Suc i"]) simp
  next
    case False
    then show ?thesis using AddBlock_change [OF False] by (intro exI [of _ 0]) simp
  qed
qed simp

text \<open>
  A reading of the state that every validated block leaves in place or moves up: then every
  offered block, accepted or not, does so, and so does every sequence of them.
\<close>

locale one_way =
  fixes E :: state_env and reading :: "kv_store \<Rightarrow> 'a option" and below :: "'a \<Rightarrow> 'a \<Rightarrow> bool"
  assumes below_refl: "below x x"
    and below_trans: "below x y \<Longrightarrow> below y z \<Longrightarrow> below x z"
    and reading_step: "validate_ops E kv tip b ops = Inr () \<Longrightarrow> reading kv = Some x \<Longrightarrow>
      \<exists>y. reading (ApplyOps ops kv) = Some y \<and> below x y"
begin

lemma AddBlock_reading:
  assumes "reading (ch_kv c) = Some x"
  shows "\<exists>y. reading (ch_kv (snd (state_AddBlock E b c))) = Some y \<and> below x y"
proof (cases rule: AddBlock_cases [of E b c])
  case accepted
  show ?thesis using reading_step [OF accepted_next(4) [OF accepted(1)] assms] unfolding accepted(2) by simp
next
  case refused
  show ?thesis unfolding same_chainD(2) [OF refused(2)] using assms below_refl by blast
qed

lemma add_all_reading: "reading (ch_kv c) = Some x \<Longrightarrow> \<exists>y. reading (ch_kv (add_all E bs c)) = Some y \<and> below x y"
proof (induction bs arbitrary: c x)
  case (Cons b bs)
  obtain y where y: "reading (ch_kv (snd (state_AddBlock E b c))) = Some y" "below x y" using AddBlock_reading [OF Cons.prems] by blast
  obtain z where "reading (ch_kv (add_all E bs (snd (state_AddBlock E b c)))) = Some z" "below y z" using Cons.IH [OF y(1)] by blast
  then show ?case using below_trans [OF y(2)] by auto
qed (simp add: below_refl)

end

section \<open>The chain keeps its keyset\<close>

lemma validated_keyset:
  assumes "validateSysKeyValue E ''sys.dao_keyset'' v = Inr ()" "mget kv ''sys.dao_keyset'' = Some v"
  shows "\<exists>ks. kv_DAOKeyset E kv = Inr ks"
  using assms by (auto simp: validateSysKeyValue_def validate_dao_keyset_def kv_DAOKeyset_def result_simps split: sum.splits if_splits)

lemma keyset_kept:
  assumes "validate_ops E kv tip b ops = Inr ()" "\<exists>ks. kv_DAOKeyset E kv = Inr ks"
  shows "\<exists>ks. kv_DAOKeyset E (ApplyOps ops kv) = Inr ks"
proof -
  from ApplyOps_sys [OF assms(1), of "''sys.dao_keyset''"]
  consider "mget (ApplyOps ops kv) ''sys.dao_keyset'' = mget kv ''sys.dao_keyset''"
    | v where "mget (ApplyOps ops kv) ''sys.dao_keyset'' = Some v" "validateSysKeyValue E ''sys.dao_keyset'' v = Inr ()"
    by (auto simp: HasPrefix_def)
  then show ?thesis
  proof cases
    case 1
    then show ?thesis using assms(2) by (simp add: kv_DAOKeyset_def)
  next
    case 2
    then show ?thesis using validated_keyset by blast
  qed
qed

definition has_keyset :: "state_env \<Rightarrow> kv_store \<Rightarrow> unit option" where
  "has_keyset E kv = (case kv_DAOKeyset E kv of Inl _ \<Rightarrow> None | Inr _ \<Rightarrow> Some ())"

lemma has_keyset_iff: "has_keyset E kv = Some x \<longleftrightarrow> (\<exists>ks. kv_DAOKeyset E kv = Inr ks)"
  by (auto simp: has_keyset_def split: sum.splits)

interpretation keyset_reading: one_way E "has_keyset E" "\<lambda>_ _. True" for E
  by unfold_locales (auto simp: has_keyset_iff intro: keyset_kept)

text \<open>The chains of a node: one opened on its store, and every chain further blocks make of it.\<close>

inductive chain_run :: "state_env \<Rightarrow> state_store \<Rightarrow> state_block \<Rightarrow> state_chain \<Rightarrow> bool" for E m g where
  opened: "NewChain E m g = Inr c \<Longrightarrow> chain_run E m g c"
| added: "chain_run E m g c \<Longrightarrow> chain_run E m g (snd (state_AddBlock E b c))"

lemma run_keyset: "chain_run E m g c \<Longrightarrow> \<exists>ks. kv_DAOKeyset E (ch_kv c) = Inr ks"
proof (induction rule: chain_run.induct)
  case (opened c)
  then show ?case by (auto simp: NewChain_def Let_def split: sum.splits)
next
  case (added c b)
  then show ?case using keyset_reading.AddBlock_reading [of E c "()" b] by (auto simp: has_keyset_iff)
qed

text \<open>
  C17. Governance is never lost: on every chain a node opens and extends, the state holds a
  keyset of the DAO that decodes, with at least two signatures required and no more than
  there are keys.
\<close>

theorem chain_keeps_keyset:
  assumes "chain_run E m g c"
  shows "\<exists>ks. kv_DAOKeyset E (ch_kv c) = Inr ks \<and> 2 \<le> dk_Threshold ks \<and> dk_Threshold ks \<le> int (length (dk_Keys ks))"
  using run_keyset [OF assms] by (auto simp: kv_DAOKeyset_def MinDAOThreshold_def split: option.splits sum.splits if_splits)

section \<open>Activations only move forward\<close>

lemma keep_features_each:
  assumes "keep_features tip b nxt prev = Inr ()" "(name, r) \<in> set prev"
  shows "\<exists>r'. mget nxt name = Some r' \<and>
    (if ActiveAt r (sb_Index tip) (sb_Timestamp tip) then r' = r else r' = r \<or> requireFuture r' b = Inr ())"
  using assms
proof (induction prev)
  case (Cons x prev)
  then show ?case by (cases x) (auto split: option.splits sum.splits if_splits)
qed simp

lemma new_features_each:
  assumes "new_features b prev nxt = Inr ()" "(name, r) \<in> set nxt" "mget prev name = None"
  shows "requireFuture r b = Inr ()"
  using assms
proof (induction nxt)
  case (Cons x nxt)
  then show ?case by (cases x) (auto split: option.splits sum.splits if_splits)
qed simp

lemma validate_features_each:
  "validate_features a = Inr () \<Longrightarrow> (name, r) \<in> set a \<Longrightarrow> ar_AtIndex r \<noteq> 0 \<or> ar_NotBeforeNS r \<noteq> 0"
  by (induction a) (auto split: if_splits)

lemma future_inactive:
  assumes "requireFuture r b = Inr ()" "ar_AtIndex r \<noteq> 0 \<or> ar_NotBeforeNS r \<noteq> 0"
  shows "\<not> ActiveAt r (sb_Index b) (sb_Timestamp b)"
  using assms by (auto simp: requireFuture_def ActiveAt_def split: if_splits)

lemma ActiveAt_mono: "ActiveAt r i ns \<Longrightarrow> i \<le> i' \<Longrightarrow> ns \<le> ns' \<Longrightarrow> ActiveAt r i' ns'"
  by (auto simp: ActiveAt_def)

text \<open>A transition of the registry, as the chain reads it before and after.\<close>

lemma activations_step:
  assumes "validate_ops E kv tip b ops = Inr ()"
  defines "old \<equiv> activationsLocked E kv" and "nxt \<equiv> activationsLocked E (ApplyOps ops kv)"
  shows "mget nxt f = mget old f \<or>
    (\<exists>r'. mget nxt f = Some r' \<and> \<not> ActiveAt r' (sb_Index b) (sb_Timestamp b) \<and>
       (\<forall>r. mget old f = Some r \<longrightarrow> \<not> ActiveAt r (sb_Index tip) (sb_Timestamp tip)))"
proof -
  from ApplyOps_sys [OF assms(1), of "''sys.activations''"]
  consider "mget (ApplyOps ops kv) ''sys.activations'' = mget kv ''sys.activations''"
    | v where "mget (ApplyOps ops kv) ''sys.activations'' = Some v" "validateActivations E v = Inr ()"
        "validateActivationsTransition E kv tip b v = Inr ()"
    by (auto simp: HasPrefix_def validateSysKeyValue_def validateTransition_def)
  then show ?thesis
  proof cases
    case 1
    then show ?thesis by (simp add: old_def nxt_def activationsLocked_def)
  next
    case 2
    obtain a where a: "ParseActivations E v = Inr a" and af: "validate_features a = Inr ()"
      using 2(2) by (auto simp: validateActivations_def split: sum.splits if_splits)
    have n: "nxt = a" using 2(1) a by (simp add: nxt_def activationsLocked_def)
    have k: "keep_features tip b a old = Inr ()" "new_features b old a = Inr ()"
      using 2(3) a by (auto simp: validateActivationsTransition_def old_def activationsLocked_def result_simps split: option.splits sum.splits)
    have fut: "\<not> ActiveAt r' (sb_Index b) (sb_Timestamp b)" if "requireFuture r' b = Inr ()" "mget a f = Some r'" for r'
      using future_inactive [OF that(1)] validate_features_each [OF af map_of_SomeD [OF that(2)]] by blast
    show ?thesis
    proof (cases "mget old f")
      case None
      then show ?thesis
        using new_features_each [OF k(2) map_of_SomeD] fut n by (cases "mget a f") auto
    next
      case (Some r)
      then show ?thesis using keep_features_each [OF k(1) map_of_SomeD [OF Some]] fut n by (auto split: if_splits)
    qed
  qed
qed

lemma AddBlock_features:
  fixes E b c
  defines "c' \<equiv> snd (state_AddBlock E b c)"
  shows "chain_FeatureActive E f c \<Longrightarrow>
      chain_FeatureActive E f c' \<and> mget (activationsLocked E (ch_kv c')) f = mget (activationsLocked E (ch_kv c)) f"
    "\<not> chain_FeatureActive E f c \<Longrightarrow> chain_FeatureActive E f c' \<Longrightarrow>
      mget (activationsLocked E (ch_kv c')) f = mget (activationsLocked E (ch_kv c)) f"
proof -
  have "(chain_FeatureActive E f c \<longrightarrow>
      chain_FeatureActive E f c' \<and> mget (activationsLocked E (ch_kv c')) f = mget (activationsLocked E (ch_kv c)) f) \<and>
    (chain_FeatureActive E f c' \<longrightarrow> mget (activationsLocked E (ch_kv c')) f = mget (activationsLocked E (ch_kv c)) f)"
  proof (cases rule: AddBlock_cases [of E b c])
    case accepted
    have "sb_Index (ch_tip c) \<le> sb_Index b" using accepted(1) by (simp add: accepted_def order_less_imp_le)
    then show ?thesis
      using activations_step [OF accepted_next(4) [OF accepted(1)], of f] accepted_next(3) [OF accepted(1)] accepted(2)
        ActiveAt_mono [of _ "sb_Index (ch_tip c)" "sb_Timestamp (ch_tip c)" "sb_Index b" "sb_Timestamp b"]
      by (auto simp: c'_def chain_FeatureActive_def feature_ActiveAt_def split: option.splits)
  next
    case refused
    then show ?thesis using same_chainD [OF refused(2)] by (simp add: c'_def chain_FeatureActive_def)
  qed
  then show "chain_FeatureActive E f c \<Longrightarrow>
      chain_FeatureActive E f c' \<and> mget (activationsLocked E (ch_kv c')) f = mget (activationsLocked E (ch_kv c)) f"
    "\<not> chain_FeatureActive E f c \<Longrightarrow> chain_FeatureActive E f c' \<Longrightarrow>
      mget (activationsLocked E (ch_kv c')) f = mget (activationsLocked E (ch_kv c)) f"
    by blast+
qed

lemma add_all_features:
  "chain_FeatureActive E f c \<Longrightarrow> chain_FeatureActive E f (add_all E bs c) \<and>
   mget (activationsLocked E (ch_kv (add_all E bs c))) f = mget (activationsLocked E (ch_kv c)) f"
proof (induction bs arbitrary: c)
  case (Cons b bs)
  show ?case using Cons.IH [of "snd (state_AddBlock E b c)"] AddBlock_features(1) [OF Cons.prems, of b] by simp
qed simp

lemma active_scheduled: "chain_FeatureActive E f c \<Longrightarrow> \<exists>r. mget (activationsLocked E (ch_kv c)) f = Some r"
  by (auto simp: chain_FeatureActive_def feature_ActiveAt_def split: option.splits)

text \<open>
  C18. Activations are one-directional and announced: a feature that is active on a chain
  stays active, with the same trigger, through whatever blocks are offered later; and the
  block that makes a feature active is not the one that wrote its trigger, which stood in the
  registry before.
\<close>

theorem features_one_directional:
  "(chain_FeatureActive E f c \<longrightarrow> chain_FeatureActive E f (add_all E bs c) \<and>
      mget (activationsLocked E (ch_kv (add_all E bs c))) f = mget (activationsLocked E (ch_kv c)) f) \<and>
   (\<not> chain_FeatureActive E f c \<and> chain_FeatureActive E f (snd (state_AddBlock E b c)) \<longrightarrow>
      (\<exists>r. mget (activationsLocked E (ch_kv c)) f = Some r \<and> mget (activationsLocked E (ch_kv (snd (state_AddBlock E b c)))) f = Some r))"
  using add_all_features [of E f c bs] AddBlock_features(2) [of E f c b] active_scheduled [of E f "snd (state_AddBlock E b c)"] by auto

section \<open>The phase and the protocol floor only rise\<close>

lemma compare_parts_refl: "compare_parts xs xs = 0"
  by (induction xs) auto

lemma compare_parts_Cons: "0 \<le> compare_parts (x # xs) (y # ys) \<longleftrightarrow> y < x \<or> x = y \<and> 0 \<le> compare_parts xs ys"
  by auto

lemma compare_parts_trans:
  assumes "length xs = length ys" "length ys = length zs" "0 \<le> compare_parts xs ys" "0 \<le> compare_parts ys zs"
  shows "0 \<le> compare_parts xs zs"
  using assms
proof (induction xs ys zs rule: list_induct3)
  case (Cons x xs y ys z zs)
  then show ?case unfolding compare_parts_Cons by linarith
qed simp

lemma parsed_length: "parseProtocolVersion s = Some v \<Longrightarrow> length v = 3"
  by (auto simp: parseProtocolVersion_def Let_def split: if_splits)

lemma version_refl: "0 \<le> CompareProtocolVersion a a"
  by (simp add: CompareProtocolVersion_def compare_parts_refl split: option.splits)

lemma version_trans:
  "0 \<le> CompareProtocolVersion a b \<Longrightarrow> 0 \<le> CompareProtocolVersion b c \<Longrightarrow> 0 \<le> CompareProtocolVersion a c"
  using parsed_length compare_parts_trans [of "the (parseProtocolVersion a)" "the (parseProtocolVersion b)" "the (parseProtocolVersion c)"]
  by (auto simp: CompareProtocolVersion_def split: option.splits)

text \<open>The phase and the floor as the stored texts decode.\<close>

definition stored_phase :: "state_env \<Rightarrow> kv_store \<Rightarrow> 8 word option" where
  "stored_phase E kv =
     (case mget kv ''sys.phase'' of None \<Rightarrow> None | Some raw \<Rightarrow> (case json_Uint8 E raw of Inl _ \<Rightarrow> None | Inr p \<Rightarrow> Some p))"

definition stored_floor :: "state_env \<Rightarrow> kv_store \<Rightarrow> string option" where
  "stored_floor E kv =
     (case mget kv ''sys.min_protocol_version'' of
        None \<Rightarrow> None | Some raw \<Rightarrow> (case json_String E raw of Inl _ \<Rightarrow> None | Inr v \<Rightarrow> Some v))"

lemma phase_step:
  assumes "validate_ops E kv tip b ops = Inr ()" "stored_phase E kv = Some p"
  shows "\<exists>p'. stored_phase E (ApplyOps ops kv) = Some p' \<and> p \<le> p'"
  using ApplyOps_sys [OF assms(1), of "''sys.phase''"] assms(2)
  by (auto simp: HasPrefix_def stored_phase_def validateTransition_def validate_phase_transition_def split: option.splits sum.splits if_splits)

lemma floor_step:
  assumes "validate_ops E kv tip b ops = Inr ()" "stored_floor E kv = Some v"
  shows "\<exists>v'. stored_floor E (ApplyOps ops kv) = Some v' \<and> 0 \<le> CompareProtocolVersion v' v"
  using ApplyOps_sys [OF assms(1), of "''sys.min_protocol_version''"] assms(2) version_refl [of v]
  by (auto simp: HasPrefix_def stored_floor_def validateTransition_def validateMinProtocolVersionTransition_def split: option.splits sum.splits if_splits)

interpretation phase_reading: one_way E "stored_phase E" "(\<le>)" for E
  by unfold_locales (auto intro: phase_step)

interpretation floor_reading: one_way E "stored_floor E" "\<lambda>v v'. 0 \<le> CompareProtocolVersion v' v" for E
  by unfold_locales (auto intro: version_refl version_trans floor_step)


section \<open>Epochs\<close>

lemma expectedRCollusion_bound:
  assumes "unat factor < 2 ^ 50"
  shows "unat (expectedRCollusion twap s factor) * unat twap \<le> unat (if factor = 0 then 950 else factor) * (1000 - unat s)"
proof (cases "twap = 0 \<or> s \<ge> 1000")
  case False
  let ?f = "if factor = 0 then RCollusionFactorMilliDefault else factor"
  have f: "unat ?f < 2 ^ 50" using assms by (simp add: RCollusionFactorMilliDefault_def)
  have s: "unat (1000 - s) = 1000 - unat s" using False by (subst unat_sub) (simp_all add: not_le order_less_imp_le)
  have "unat ?f * unat (1000 - s) \<le> unat ?f * 1000" using s by (intro mult_le_mono2) simp
  also have "\<dots> < 2 ^ 64" using f by simp
  finally have "unat (?f * (1000 - s)) = unat ?f * (1000 - unat s)" using s by (simp only: unat_mult_u64)
  then have "unat (expectedRCollusion twap s factor) = unat ?f * (1000 - unat s) div unat twap"
    using False by (simp add: expectedRCollusion_def unat_div)
  then show ?thesis by (simp add: RCollusionFactorMilliDefault_def div_times_less_eq_dividend split: if_splits)
qed (auto simp: expectedRCollusion_def)

lemma validateEpochValue_accepts:
  assumes "validateEpochValue E value kv = Inr ()" "json_EpochValue E value = Inr ev"
  defines "s \<equiv> (if ev_RPriceFloor ev > ev_RVolume ev then ev_RPriceFloor ev else ev_RVolume ev)"
  shows "ev_StartNS ev < ev_EndNS ev" "ev_SMilli ev = SMilliForPhase (ev_Phase ev)"
    "ev_RCollusion ev \<noteq> 0 \<Longrightarrow> ev_RCollusion ev = expectedRCollusion (ev_TWAPMilliUSD ev) (ucast (ev_SMilli ev)) (collusion_factor E kv)"
    "ev_REffective ev = (if ev_RCollusion ev \<noteq> 0 \<and> ev_RCollusion ev < s then ev_RCollusion ev else s)"
    "check_chain_phase E kv ev = Inr ()"
  using assms(1) unfolding validateEpochValue_def assms(2) s_def Let_def
  by (auto simp: result_simps split: prod.splits sum.splits)


end
