(* ===== verification/XE_Replay.thy ===== *)
theory XE_Replay
  imports XE_Governance
begin

text \<open>
  The governance chain across restarts and between nodes: a chain rebuilt from its store is
  the chain that wrote the store, and a node that synchronises with a peer ahead of it
  reaches the peer's chain. Both rest on the stored copy of a block being the block, which
  is so for the values \<open>json.Marshal\<close> leaves alone; a block with another value is accepted
  and stored, and the chain does not open again.
\<close>

section \<open>The history of a chain\<close>

inductive grown :: "state_env \<Rightarrow> state_block \<Rightarrow> state_block list \<Rightarrow> state_chain \<Rightarrow> bool" for E g where
  start: "ch_store c = [] \<Longrightarrow> ch_kv c = ApplyOps (sb_Ops g) [] \<Longrightarrow> ch_tip c = g \<Longrightarrow> ch_genesis c = g \<Longrightarrow> grown E g [] c"
| step: "grown E g bs c \<Longrightarrow> accepted E b c \<Longrightarrow> ch_store c' = PutStateBlock E b (ch_store c) \<Longrightarrow>
    ch_kv c' = ApplyOps (sb_Ops b) (ch_kv c) \<Longrightarrow> ch_tip c' = b \<Longrightarrow> ch_genesis c' = g \<Longrightarrow> grown E g (bs @ [b]) c'"

lemma grown_genesis: "grown E g bs c \<Longrightarrow> ch_genesis c = g"
  by (induction rule: grown.induct) auto

lemma grown_Nil: "grown E g [] c \<longleftrightarrow> ch_store c = [] \<and> ch_kv c = ApplyOps (sb_Ops g) [] \<and> ch_tip c = g \<and> ch_genesis c = g"
  by (auto elim: grown.cases intro: grown.start)

lemma grown_snoc: "grown E g (bs @ [b]) c' \<longleftrightarrow> (\<exists>c. grown E g bs c \<and> accepted E b c \<and>
    ch_store c' = PutStateBlock E b (ch_store c) \<and> ch_kv c' = ApplyOps (sb_Ops b) (ch_kv c) \<and> ch_tip c' = b \<and> ch_genesis c' = g)"
  (is "?l \<longleftrightarrow> ?r")
proof
  show "?l \<Longrightarrow> ?r" by (erule grown.cases) auto
  show "?r \<Longrightarrow> ?l" by (blast intro: grown.step)
qed

lemma grown_same:
  assumes "grown E g bs c" "same_chain c c'"
  shows "grown E g bs c'"
  using assms(1) unfolding grown_Nil grown_snoc
  by (cases bs rule: rev_cases) (simp_all add: grown_Nil grown_snoc same_chainD [OF assms(2)])

lemma grown_prefix: "grown E g (bs @ xs) c \<Longrightarrow> \<exists>c1. grown E g bs c1"
proof (induction xs arbitrary: c rule: rev_induct)
  case (snoc x xs)
  then show ?case by (metis append_assoc grown_snoc)
qed auto

text \<open>The fields of a chain are determined by its blocks.\<close>

lemma grown_fields:
  assumes "grown E g bs c"
  shows "ch_kv c = fold (\<lambda>b. ApplyOps (sb_Ops b)) bs (ApplyOps (sb_Ops g) []) \<and> ch_tip c = last (g # bs) \<and>
    ch_store c = fold (PutStateBlock E) bs [] \<and> ch_genesis c = g"
  using assms by (induction rule: grown.induct) auto

lemma grown_unique:
  assumes "grown E g bs c" "grown E g bs c'"
  shows "same_chain c c'"
  using grown_fields [OF assms(1)] grown_fields [OF assms(2)] by (cases c; cases c'; simp)

lemma accepted_cong: "ch_kv c' = ch_kv c \<Longrightarrow> ch_tip c' = ch_tip c \<Longrightarrow> accepted E b c' \<longleftrightarrow> accepted E b c"
  by (simp add: accepted_def)

text \<open>The block at position \<open>i\<close> has index \<open>i + 1\<close>, and the store holds its copy there.\<close>

lemma unat_next: "(x :: u64) < x + 1 \<Longrightarrow> unat (x + 1) = unat x + 1"
  using unat_add_checked [of x 1] by (simp add: order_less_imp_le not_less)

lemma grown_index:
  assumes "grown E g bs c" "sb_Index g = 0"
  shows "unat (sb_Index (ch_tip c)) = length bs \<and> map (\<lambda>b. unat (sb_Index b)) bs = [1 ..< length bs + 1]"
  using assms(1)
proof (induction rule: grown.induct)
  case (step bs c b c')
  have "unat (sb_Index b) = length bs + 1"
    using step.hyps(2) accepted_next(1) [OF step.hyps(2)] unat_next [of "sb_Index (ch_tip c)"] step.IH by (simp add: accepted_def)
  then show ?case using step by simp
qed (simp add: assms(2))

lemma mput_fresh: "k \<notin> keys m \<Longrightarrow> mput k v m = m @ [(k, v)]"
  by (induction m) (auto simp: keys_def)

lemma u64_of_unat: "unat (x :: u64) = n \<Longrightarrow> x = of_nat n"
  by auto

lemma grown_store:
  assumes "grown E g bs c" "sb_Index g = 0"
  shows "ch_store c = map (\<lambda>b. (sb_Index b, copyStateBlock E b)) bs"
  using assms(1)
proof (induction rule: grown.induct)
  case (step bs c b c')
  have all: "map (\<lambda>b. unat (sb_Index b)) (bs @ [b]) = [1 ..< length bs + 2]"
    using grown_index [OF grown.step [OF step.hyps] assms(2)] by simp
  then have "distinct (map (\<lambda>b. unat (sb_Index b)) (bs @ [b]))" by (metis distinct_upt)
  then have "sb_Index b \<notin> keys (map (\<lambda>b. (sb_Index b, copyStateBlock E b)) bs)" by (auto simp: keys_def)
  then show ?case using step by (simp add: PutStateBlock_def mput_fresh)
qed simp

lemma grown_lookup:
  assumes "grown E g bs c" "sb_Index g = 0" "1 \<le> i" "i \<le> length bs"
  shows "GetStateBlock E (of_nat i) (ch_store c) = Some (copyStateBlock E (copyStateBlock E (bs ! (i - 1))))"
proof -
  have idx: "map (\<lambda>b. unat (sb_Index b)) bs = [1 ..< length bs + 1]" using grown_index [OF assms(1,2)] by simp
  have "unat (sb_Index (bs ! (i - 1))) = map (\<lambda>b. unat (sb_Index b)) bs ! (i - 1)" using assms(3,4) by simp
  also have "\<dots> = i" unfolding idx using assms(3,4) by (simp del: upt_Suc)
  finally have i: "sb_Index (bs ! (i - 1)) = of_nat i" by (rule u64_of_unat)
  have "distinct (map (\<lambda>b. unat (sb_Index b)) bs)" using idx by simp
  then have "distinct (map fst (ch_store c))"
    unfolding grown_store [OF assms(1,2)] by (auto simp: distinct_map inj_on_def)
  moreover have "(of_nat i, copyStateBlock E (bs ! (i - 1))) \<in> set (ch_store c)"
    unfolding grown_store [OF assms(1,2)] using assms(3,4) i by (auto simp: image_iff intro!: bexI [of _ "bs ! (i - 1)"])
  ultimately show ?thesis by (simp add: GetStateBlock_def)
qed

lemma map_filter_all: "(\<forall>x\<in>set xs. f x = Some (h x)) \<Longrightarrow> List.map_filter f xs = map h xs"
  by (induction xs) (simp_all add: List.map_filter_def)

lemma nth_range:
  assumes "1 \<le> a" "a + n \<le> length xs + 1"
  shows "map (\<lambda>i. xs ! (i - 1)) [a ..< a + n] = take n (drop (a - 1) xs)"
proof (rule nth_equalityI)
  fix i assume "i < length (map (\<lambda>i. xs ! (i - 1)) [a ..< a + n])"
  then have "i < n" "a + i - 1 = a - 1 + i" using assms by simp_all
  then show "map (\<lambda>i. xs ! (i - 1)) [a ..< a + n] ! i = take n (drop (a - 1) xs) ! i" using assms by simp
qed (use assms in simp)

lemma grown_range:
  assumes "grown E g bs c" "sb_Index g = 0" "1 \<le> unat start" "unat start + unat n \<le> length bs + 1" "length bs + 1 < 2 ^ 64"
  shows "GetStateBlockRange E start n (ch_store c) =
    map (\<lambda>b. copyStateBlock E (copyStateBlock E b)) (take (unat n) (drop (unat start - 1) bs))"
proof -
  have s: "unat (start + n) = unat start + unat n" using assms(4,5) by (intro unat_add_u64) linarith
  have "GetStateBlockRange E start n (ch_store c) =
      map (\<lambda>i. copyStateBlock E (copyStateBlock E (bs ! (i - 1)))) [unat start ..< unat start + unat n]"
    unfolding GetStateBlockRange_def s
    by (rule map_filter_all, rule ballI, rule grown_lookup [OF assms(1,2)]) (use assms(3,4) in auto)
  also have "\<dots> = map (\<lambda>b. copyStateBlock E (copyStateBlock E b)) (map (\<lambda>i. bs ! (i - 1)) [unat start ..< unat start + unat n])"
    by simp
  finally show ?thesis unfolding nth_range [OF assms(3,4)] .
qed

section \<open>Runs\<close>

lemma NewChain_empty:
  assumes "NewChain E [] g = Inr c"
  shows "grown E g [] c" "ch_events c = []" "sb_Index g = 0" "ValidateGenesis E g = Inr ()"
  using assms by (auto simp: NewChain_def replay_def StateBlockCount_def Let_def grown_Nil ValidateGenesis_def split: sum.splits if_splits)

lemma AddBlock_grown:
  assumes "grown E g bs c"
  shows "\<exists>xs. grown E g (bs @ xs) (snd (state_AddBlock E b c)) \<and>
    (\<forall>x. BlockAdded x \<in> set (ch_events (snd (state_AddBlock E b c))) \<longleftrightarrow> BlockAdded x \<in> set (ch_events c) \<or> x \<in> set xs)"
proof (cases rule: AddBlock_cases [of E b c])
  case accepted
  then have "grown E g (bs @ [b]) (snd (state_AddBlock E b c))"
    using grown.step [OF assms accepted(1)] grown_genesis [OF assms] by simp
  then show ?thesis using accepted(2) by (intro exI [of _ "[b]"]) auto
next
  case refused
  then show ?thesis using grown_same [OF assms refused(2)] by (intro exI [of _ "[]"]) auto
qed

lemma run_grown:
  assumes "chain_run E [] g c"
  shows "\<exists>bs. grown E g bs c \<and> (\<forall>b. BlockAdded b \<in> set (ch_events c) \<longleftrightarrow> b \<in> set bs)"
  using assms
proof (induction rule: chain_run.induct)
  case (opened c)
  then show ?case using NewChain_empty by (intro exI [of _ "[]"]) simp
next
  case (added c b)
  then obtain bs where bs: "grown E g bs c" "\<forall>b. BlockAdded b \<in> set (ch_events c) \<longleftrightarrow> b \<in> set bs" by blast
  then obtain xs where "grown E g (bs @ xs) (snd (state_AddBlock E b c))"
    "\<forall>x. BlockAdded x \<in> set (ch_events (snd (state_AddBlock E b c))) \<longleftrightarrow> BlockAdded x \<in> set (ch_events c) \<or> x \<in> set xs"
    using AddBlock_grown by blast
  then show ?case using bs(2) by (intro exI [of _ "bs @ xs"]) simp
qed

lemma run_genesis: "chain_run E [] g c \<Longrightarrow> sb_Index g = 0 \<and> ValidateGenesis E g = Inr ()"
  by (induction rule: chain_run.induct) (auto dest: NewChain_empty)

section \<open>Restart\<close>

text \<open>A block whose values \<open>json.Marshal\<close> writes as they are: its stored copy is the block.\<close>

definition compact :: "state_env \<Rightarrow> state_block \<Rightarrow> bool" where
  "compact E b \<longleftrightarrow> json_ops E (sb_Ops b) = Inr (sb_Ops b)"

lemma compact_copy [simp]: "compact E b \<Longrightarrow> copyStateBlock E b = b"
  by (simp add: compact_def copyStateBlock_def)

lemma replay_append:
  "replay_blocks E n (xs @ ys) c =
     (case replay_blocks E n xs c of Inl e \<Rightarrow> Inl e | Inr (n', c') \<Rightarrow> replay_blocks E n' ys c')"
  by (induction xs arbitrary: n c) (auto split: sum.splits)

lemma authorize_signatures: "authorize E b kv = Inr () \<Longrightarrow> verifyBlockSignatures E b kv = Inr ()"
  by (auto simp: authorize_def verifyBlockSignatures_def split: option.splits sum.splits)

lemma replay_grown:
  assumes "grown E g bs c" "sb_Index g = 0" "ch_kv c0 = ApplyOps (sb_Ops g) []" "ch_tip c0 = g"
  shows "replay_blocks E 1 bs c0 = Inr (of_nat (length bs) + 1, c0\<lparr>ch_kv := ch_kv c, ch_tip := ch_tip c\<rparr>)"
  using assms(1)
proof (induction rule: grown.induct)
  case (start c)
  then show ?case using assms(3,4) by (cases c0) simp
next
  case (step bs c b c')
  note nxt = accepted_next [OF step.hyps(2)]
  have "sb_Index (ch_tip c) = of_nat (length bs)"
    using grown_index [OF step.hyps(1) assms(2)] by (intro u64_of_unat) simp
  then have "check_replayed E (of_nat (length bs) + 1) b (c0\<lparr>ch_kv := ch_kv c, ch_tip := ch_tip c\<rparr>) = Inr ()"
    using nxt(1,2,6) authorize_signatures [OF nxt(5)] by (simp add: check_replayed_def)
  then show ?case using step by (simp add: replay_append applyValidated_def add.commute)
qed

lemma grown_all:
  assumes "grown E g bs c" "sb_Index g = 0" "length bs + 1 < 2 ^ 64"
  shows "GetStateBlockRange E 1 (StateBlockCount (ch_store c)) (ch_store c) = map (\<lambda>b. copyStateBlock E (copyStateBlock E b)) bs"
    "unat (StateBlockCount (ch_store c)) = length bs"
proof -
  have "length (ch_store c) = length bs" using grown_store [OF assms(1,2)] by simp
  then show n: "unat (StateBlockCount (ch_store c)) = length bs"
    unfolding StateBlockCount_def using assms(3) by (simp add: unat_of_nat)
  show "GetStateBlockRange E 1 (StateBlockCount (ch_store c)) (ch_store c) = map (\<lambda>b. copyStateBlock E (copyStateBlock E b)) bs"
    using grown_range [OF assms(1,2) _ _ assms(3), of 1 "StateBlockCount (ch_store c)"] n by simp
qed

lemma map_compact: "\<forall>b\<in>set bs. compact E b \<Longrightarrow> map (\<lambda>b. copyStateBlock E (copyStateBlock E b)) bs = bs"
  by (simp add: map_idI)

text \<open>
  C19. A restart brings the chain back: where the values of the accepted blocks are compact
  JSON, opening a chain on the store that a run from an empty store has written gives the
  tip and the state of that run.
\<close>

theorem restart_replays_chain:
  assumes "chain_run E [] g c" "\<forall>b. BlockAdded b \<in> set (ch_events c) \<longrightarrow> compact E b"
    "unat (sb_Index (ch_tip c)) + 1 < 2 ^ 64"
  shows "NewChain E (ch_store c) g = Inr (c\<lparr>ch_events := []\<rparr>)"
proof -
  obtain bs where bs: "grown E g bs c" "\<forall>b\<in>set bs. compact E b" using run_grown [OF assms(1)] assms(2) by blast
  have g: "sb_Index g = 0" "ValidateGenesis E g = Inr ()" using run_genesis [OF assms(1)] by blast+
  have n: "length bs + 1 < 2 ^ 64" using grown_index [OF bs(1) g(1)] assms(3) by simp
  note all = grown_all [OF bs(1) g(1) n]
  let ?c0 = "\<lparr>ch_store = ch_store c, ch_kv = ApplyOps (sb_Ops g) [], ch_tip = g, ch_genesis = g, ch_events = []\<rparr>"
  have c: "?c0\<lparr>ch_kv := ch_kv c, ch_tip := ch_tip c\<rparr> = c\<lparr>ch_events := []\<rparr>"
    using grown_genesis [OF bs(1)] by (cases c) simp
  have count: "StateBlockCount (ch_store c) = of_nat (length bs)" by (rule u64_of_unat) (rule all(2))
  have "replay E ?c0 = Inr (c\<lparr>ch_events := []\<rparr>)"
  proof (cases "StateBlockCount (ch_store c) = 0")
    case True
    then have "bs = []" using all(2) by simp
    then show ?thesis using True bs(1) c by (simp add: replay_def grown_Nil)
  next
    case False
    then show ?thesis
      using replay_grown [OF bs(1) g(1), of ?c0] c count unfolding replay_def Let_def by (simp add: all(1) [unfolded count] map_compact [OF bs(2)])
  qed
  then show ?thesis using g(2) run_keyset [OF assms(1)] by (auto simp: NewChain_def)
qed

lemma replay_hashes: "replay_blocks E n bs c = Inr r \<Longrightarrow> b \<in> set bs \<Longrightarrow> VerifyBlockHash E b = Inr ()"
  by (induction bs arbitrary: n c) (auto simp: check_replayed_def split: sum.splits if_splits)

text \<open>
  C38. A restart can fail on an accepted block: the store keeps the JSON of a block and not its
  bytes, so where the stored copy of some accepted block has another hash the chain does not
  open again on its own store.
\<close>

theorem restart_refuses_reformatted:
  assumes "chain_run E [] g c" "BlockAdded b \<in> set (ch_events c)"
    "VerifyBlockHash E (copyStateBlock E (copyStateBlock E b)) \<noteq> Inr ()" "unat (sb_Index (ch_tip c)) + 1 < 2 ^ 64"
  shows "\<exists>e. NewChain E (ch_store c) g = Inl e"
proof -
  obtain bs where bs: "grown E g bs c" "b \<in> set bs" using run_grown [OF assms(1)] assms(2) by blast
  have g: "sb_Index g = 0" using run_genesis [OF assms(1)] by blast
  have n: "length bs + 1 < 2 ^ 64" using grown_index [OF bs(1) g] assms(4) by simp
  note all = grown_all [OF bs(1) g n]
  have "StateBlockCount (ch_store c) \<noteq> 0" using all(2) bs(2) by (metis length_pos_if_in_set less_numeral_extra(3) unat_0)
  moreover have "replay_blocks E 1 (map (\<lambda>b. copyStateBlock E (copyStateBlock E b)) bs) c0 \<noteq> Inr r" for c0 r
    using replay_hashes [of E 1 "map (\<lambda>b. copyStateBlock E (copyStateBlock E b)) bs" c0 r "copyStateBlock E (copyStateBlock E b)"]
      bs(2) assms(3) by (metis imageI list.set_map)
  ultimately have "\<exists>e. replay E c0 = Inl e" if "ch_store c0 = ch_store c" for c0
    unfolding replay_def Let_def that all(1) by (auto split: sum.splits)
  then obtain e where "replay E \<lparr>ch_store = ch_store c, ch_kv = ApplyOps (sb_Ops g) [], ch_tip = g, ch_genesis = g, ch_events = []\<rparr> = Inl e"
    by force
  then show ?thesis by (auto simp: NewChain_def Let_def wrap_def split: sum.splits)
qed

section \<open>Synchronisation\<close>

lemma add_all_append: "add_all E (xs @ ys) c = add_all E ys (add_all E xs c)"
  by (simp add: add_all_def)

lemma add_all_grown:
  assumes "grown E g bs c"
  shows "\<exists>xs. grown E g (bs @ xs) (add_all E ys c) \<and>
    (\<forall>x. BlockAdded x \<in> set (ch_events (add_all E ys c)) \<longleftrightarrow> BlockAdded x \<in> set (ch_events c) \<or> x \<in> set xs)"
  using assms
proof (induction ys arbitrary: bs c)
  case (Cons y ys)
  obtain xs where xs: "grown E g (bs @ xs) (snd (state_AddBlock E y c))"
    "\<forall>x. BlockAdded x \<in> set (ch_events (snd (state_AddBlock E y c))) \<longleftrightarrow> BlockAdded x \<in> set (ch_events c) \<or> x \<in> set xs"
    using AddBlock_grown [OF Cons.prems, of y] by blast
  obtain zs where "grown E g ((bs @ xs) @ zs) (add_all E ys (snd (state_AddBlock E y c)))"
    "\<forall>x. BlockAdded x \<in> set (ch_events (add_all E ys (snd (state_AddBlock E y c)))) \<longleftrightarrow>
       BlockAdded x \<in> set (ch_events (snd (state_AddBlock E y c))) \<or> x \<in> set zs"
    using Cons.IH [OF xs(1)] by blast
  then show ?case using xs(2) by (intro exI [of _ "xs @ zs"]) simp
qed (intro exI [of _ "[]"], simp)

text \<open>Offering the next blocks of a history adds every one of them.\<close>

lemma add_page_grown:
  assumes "grown E g (bs @ xs @ ys) p" "grown E g bs c"
  shows "\<exists>c'. add_page E xs (n, c) = (n + length xs, c') \<and> grown E g (bs @ xs) c'"
  using assms
proof (induction xs arbitrary: bs c n)
  case (Cons x xs)
  obtain c1 where "grown E g (bs @ [x]) c1" using grown_prefix [of E g "bs @ [x]" "xs @ ys" p] Cons.prems(1) by auto
  then obtain c0 where c0: "grown E g bs c0" "accepted E x c0" by (auto simp: grown_snoc)
  then have acc: "accepted E x c"
    using grown_fields [OF c0(1)] grown_fields [OF Cons.prems(2)] accepted_cong [of c c0 E x] by simp
  have a: "state_AddBlock E x c = (Inr (), c\<lparr>ch_store := PutStateBlock E x (ch_store c), ch_kv := ApplyOps (sb_Ops x) (ch_kv c), ch_tip := x,
                 ch_events := ch_events c @ [BlockAdded x]\<rparr>)" (is "_ = (_, ?c)")
    using acc by (cases rule: AddBlock_cases [of E x c]) auto
  have "grown E g (bs @ [x]) ?c" using grown.step [OF Cons.prems(2) acc] grown_genesis [OF Cons.prems(2)] by simp
  then obtain c' where "add_page E xs (n + 1, ?c) = (n + 1 + length xs, c')" "grown E g ((bs @ [x]) @ xs) c'"
    using Cons.IH [of "bs @ [x]" ?c "n + 1"] Cons.prems(1) by auto
  then show ?case using a by (auto simp: add_page_def)
qed (simp add: add_page_def)

text \<open>The pages of a history: no page is empty, and a page says whether there is another.\<close>

fun paged :: "state_block list \<Rightarrow> sync_response list \<Rightarrow> bool" where
  "paged bs [] \<longleftrightarrow> bs = []"
| "paged bs (r # rs) \<longleftrightarrow> rs_Blocks r \<noteq> [] \<and> (\<exists>zs. bs = rs_Blocks r @ zs \<and> (rs_HasMore r \<longleftrightarrow> zs \<noteq> []) \<and> paged zs rs)"

lemma receive_paged:
  assumes "grown E g (bs @ xs) p" "grown E g bs c" "paged xs rs" "n + length xs \<le> syncMaxBlocks"
    "\<forall>b\<in>set xs. compact E b" "sum_list (map (response_size E) rs) \<le> room"
  shows "\<exists>m c'. receive_pages E room rs (n, c) = (Inr (), m, c') \<and> grown E g (bs @ xs) c'"
  using assms
proof (induction rs arbitrary: bs xs c n room)
  case (Cons r rs)
  obtain zs where z: "xs = rs_Blocks r @ zs" "rs_HasMore r \<longleftrightarrow> zs \<noteq> []" "paged zs rs" using Cons.prems(3) by auto
  have copies: "map (copyStateBlock E) (rs_Blocks r) = rs_Blocks r" using Cons.prems(5) z(1) by (simp add: map_idI)
  have "0 < response_size E r" by (simp add: response_size_def Let_def)
  then have room: "room \<noteq> 0" "\<not> room + 1 < response_size E r" using Cons.prems(6) by simp_all
  obtain c' where c': "add_page E (rs_Blocks r) (n, c) = (n + length (rs_Blocks r), c')" "grown E g (bs @ rs_Blocks r) c'"
    using add_page_grown [of E g bs "rs_Blocks r" zs p c n] Cons.prems(1,2) z(1) by auto
  show ?case
  proof (cases "zs = []")
    case True
    then show ?thesis using c' z copies room by simp
  next
    case False
    then have "n + length (rs_Blocks r) < syncMaxBlocks" using Cons.prems(4) z(1) by (cases zs) simp_all
    then show ?thesis
      using Cons.IH [of "bs @ rs_Blocks r" zs c' "n + length (rs_Blocks r)" "room - response_size E r"] Cons.prems(1,4,5,6) c' z False copies room
      by simp
  qed
qed simp

lemma unat_small: "n < 2 ^ 64 \<Longrightarrow> unat (of_nat n :: u64) = n"
  by (simp add: unat_of_nat)

text \<open>One turn of the sender's loop at the \<open>k\<close>-th block of the history.\<close>

lemma page_of:
  assumes "grown E g bs p" "sb_Index g = 0" "\<forall>b\<in>set bs. compact E b" "length bs + 1 < 2 ^ 64" "k < length bs"
  defines "idx \<equiv> of_nat (k + 1) :: u64" and "tip \<equiv> sb_Index (ch_tip p)"
  defines "pageCount \<equiv> (if tip - idx + 1 < syncPageSize then tip - idx + 1 else syncPageSize)"
  shows "idx \<le> tip" "GetBlocks E idx pageCount p = take 64 (drop k bs)"
proof -
  have tip: "unat tip = length bs" using grown_index [OF assms(1,2)] by (simp add: tip_def)
  have idx: "unat idx = k + 1" unfolding idx_def using assms(4,5) by (intro unat_small) simp
  show le: "idx \<le> tip" using assms(5) idx tip by (simp add: word_le_nat_alt)
  have "unat (tip - idx) = length bs - (k + 1)" using unat_sub_u64 [OF le] tip idx by simp
  then have rem: "unat (tip - idx + 1) = length bs - k" using unat_add_u64 [of "tip - idx" 1] assms(4,5) by simp
  then have cnt: "unat pageCount = min 64 (length bs - k)"
    by (auto simp: pageCount_def syncPageSize_def word_less_nat_alt min_def)
  have "GetStateBlockRange E idx pageCount (ch_store p) = map (\<lambda>b. copyStateBlock E (copyStateBlock E b)) (take (min 64 (length bs - k)) (drop k bs))"
    using grown_range [OF assms(1,2) _ _ assms(4), of idx pageCount] idx cnt assms(5) by simp
  also have "\<dots> = take (min 64 (length bs - k)) (drop k bs)"
    using assms(3) by (intro map_compact) (auto dest!: in_set_takeD in_set_dropD)
  finally show "GetBlocks E idx pageCount p = take 64 (drop k bs)"
    using idx by (auto simp: GetBlocks_def min_def)
qed

lemma send_paged:
  assumes "grown E g bs p" "sb_Index g = 0" "\<forall>b\<in>set bs. compact E b" "length bs + 1 < 2 ^ 64"
    "k \<le> length bs" "n + (length bs - k) \<le> syncMaxBlocks"
  shows "\<exists>rs. send_pages E p (sb_Index (ch_tip p)) (of_nat (k + 1)) n = Some rs \<and> paged (drop k bs) rs"
  using assms(5,6)
proof (induction "length bs - k" arbitrary: k n rule: less_induct)
  case less
  let ?idx = "of_nat (k + 1) :: u64" and ?tip = "sb_Index (ch_tip p)" and ?page = "take 64 (drop k bs)"
  have tip: "unat ?tip = length bs" using grown_index [OF assms(1,2)] by blast
  show ?case
  proof (cases "k < length bs")
    case False
    then have "drop k bs = []" "\<not> ?idx \<le> ?tip"
      using less.prems(1) unat_small [of "k + 1"] assms(4) tip by (simp_all del: of_nat_add of_nat_Suc add: word_le_nat_alt)
    then show ?thesis by (subst send_pages.simps) simp
  next
    case True
    define m where "m = length ?page"
    have m: "0 < m" "k + m \<le> length bs" using True by (simp_all add: m_def)
    have nxt: "?idx + of_nat m = of_nat (k + m + 1)" by simp
    obtain rs where rs: "send_pages E p ?tip (of_nat (k + m + 1)) (n + m) = Some rs" "paged (drop (k + m) bs) rs"
    proof -
      have "length bs - (k + m) < length bs - k" "k + m \<le> length bs" "n + m + (length bs - (k + m)) \<le> syncMaxBlocks"
        using less.prems True m by linarith+
      from less.hyps [OF this] show thesis using that by blast
    qed
    have "unat (of_nat (k + m + 1) :: u64) = k + m + 1" by (rule unat_small) (use assms(4) m(2) in simp)
    then have more: "?idx + of_nat m \<le> ?tip \<and> n + m < syncMaxBlocks \<longleftrightarrow> drop (k + m) bs \<noteq> []"
      using less.prems tip m unfolding nxt word_le_nat_alt by auto
    have "n < syncMaxBlocks" using less.prems(2) True by simp
    then have "send_pages E p ?tip ?idx n = Some (\<lparr>rs_Blocks = ?page, rs_HasMore = (drop (k + m) bs \<noteq> [])\<rparr> # rs)"
      using page_of [OF assms(1-4) True] rs(1) more
      by (subst send_pages.simps) (simp only: Let_def m_def [symmetric] nxt if_True simp_thms bind.bind_lunit)
    moreover have "drop k bs = ?page @ drop (k + m) bs"
      using m_def by (metis append_take_drop_id append_eq_conv_conj drop_drop add.commute)
    ultimately show ?thesis using rs(2) m(1) by (auto simp: m_def)
  qed
qed


text \<open>A first page beyond the bytes the node reads brings nothing, and every further attempt fails alike.\<close>

theorem requestSync_page_too_large:
  assumes "handleSyncStream E (i64 (uint (sb_Index (ch_tip c)))) p = Some (r # rs)" "syncMaxResponseSize + 1 < response_size E r"
  shows "requestSync E p c = Some (Err ''unexpected EOF'', c)"
  using assms by (simp add: requestSync_def syncMaxResponseSize_def)

section \<open>Spacing of synchronisations\<close>

lemma allow_times:
  assumes "allow now pid lasts = (ok, lasts')"
  shows "mget lasts' p = (if p = pid \<and> ok then Some now else mget (filter (\<lambda>(p, t). now - t < syncCooldown) lasts) p)"
  using assms by (auto simp: allow_def Let_def split: option.splits if_splits)

text \<open>The requests of the peers over time: the limiter's answers in turn.\<close>

fun answers :: "(int \<times> string) list \<Rightarrow> (string, int) gomap \<Rightarrow> bool list" where
  "answers [] lasts = []"
| "answers ((now, pid) # qs) lasts = (let (ok, lasts') = allow now pid lasts in ok # answers qs lasts')"

lemma mget_filter: "mget m k = Some v \<Longrightarrow> P (k, v) \<Longrightarrow> mget (filter P m) k = Some v"
  by (induction m) (auto split: if_splits)

lemma allow_after:
  assumes "mget lasts pid = Some t" "sorted (map fst qs)" "\<forall>q\<in>set qs. t \<le> fst q"
    "j < length qs" "snd (qs ! j) = pid" "answers qs lasts ! j"
  shows "t + syncCooldown \<le> fst (qs ! j)"
  using assms
proof (induction qs arbitrary: lasts j)
  case (Cons q qs)
  obtain now p where q: "q = (now, p)" by (cases q)
  obtain ok lasts' where a: "allow now p lasts = (ok, lasts')" by (cases "allow now p lasts")
  show ?case
  proof (cases "now - t < syncCooldown")
    case False
    moreover have "now \<le> fst ((q # qs) ! j)" using Cons.prems(2,4) q by (cases j) auto
    ultimately show ?thesis by simp
  next
    case True
    have keep: "mget (filter (\<lambda>(p, t). now - t < syncCooldown) lasts) pid = Some t"
      using mget_filter [OF Cons.prems(1), of "\<lambda>(p, t). now - t < syncCooldown"] True by simp
    have refused: "\<not> ok" if "p = pid" using a that True keep by (auto simp: allow_def Let_def split: if_splits)
    then have "mget lasts' pid = Some t" using allow_times [OF a, of pid] keep by auto
    then show ?thesis
      using Cons.IH [of lasts' "j - 1"] Cons.prems(2-6) q a refused by (cases j) auto
  qed
qed simp

text \<open>A limiter that grants a peer twice grants it the second time a cooldown after the first.\<close>

theorem allow_spaced:
  assumes "sorted (map fst qs)" "i < j" "j < length qs" "snd (qs ! i) = snd (qs ! j)" "answers qs lasts ! i" "answers qs lasts ! j"
  shows "fst (qs ! i) + syncCooldown \<le> fst (qs ! j)"
  using assms
proof (induction qs arbitrary: lasts i j)
  case (Cons q qs)
  obtain now p where q: "q = (now, p)" by (cases q)
  obtain ok lasts' where a: "allow now p lasts = (ok, lasts')" by (cases "allow now p lasts")
  obtain j' where j: "j = Suc j'" using Cons.prems(2) by (cases j) auto
  show ?case
  proof (cases i)
    case 0
    then have "mget lasts' p = Some now" using allow_times [OF a, of p] Cons.prems(5) q a by simp
    from allow_after [OF this, of qs j'] show ?thesis using Cons.prems 0 j q a by simp
  next
    case (Suc i')
    then show ?thesis using Cons.IH [of i' j' lasts'] Cons.prems j q a by simp
  qed
qed simp

end
