(* ===== verification/XE_StateSamples.thy ===== *)
theory XE_StateSamples
  imports XE_Replay XE_Codec
begin

text \<open>
  A small governance chain on which the properties are instantiated: a hash that is the
  length of its input, signatures that always verify, decoders that ignore their input, and
  a \<open>json.Marshal\<close> that drops blanks. Its first block schedules a feature, its second one
  makes it active and carries a value with a blank.
\<close>

section \<open>Environment and blocks\<close>

definition sample_epoch :: epoch_value where
  "sample_epoch =
     \<lparr>ev_Epoch = 1, ev_StartNS = 0, ev_EndNS = 1, ev_TWAPMilliUSD = 1000, ev_TWAVMilliUSD = 0, ev_RVolume = 2000,
      ev_RPriceFloor = 100, ev_RCollusion = 950, ev_REffective = 950, ev_RSource = ''collusion'', ev_Phase = 1, ev_SMilli = 0,
      ev_VolumeTriggerMet = False, ev_TWAPTriggerMet = False, ev_PayoutCap = 0\<rparr>"

definition sample_state_env :: state_env where
  "sample_state_env =
     \<lparr>sha256 = \<lambda>x. replicate 32 (of_nat (length x)), ed25519_Verify = \<lambda>pub msg sig. True, blake2b_8 = \<lambda>x. [], networkID = [],
      now_ns = 0, json_Valid = \<lambda>v. True, json_Raw = \<lambda>v. Inr (filter (\<lambda>c. c \<noteq> CHR '' '') v), json_Size = \<lambda>b. 0,
      json_String = \<lambda>v. Inr ''1.0.0'', json_Uint8 = \<lambda>v. Inr 1,
      json_DAOKeyset = \<lambda>v. Inr \<lparr>dk_Keys = [sample_hex 1, sample_hex 2], dk_Threshold = 2\<rparr>,
      json_Timekeepers = \<lambda>v. Err ''not JSON'', json_Minter = \<lambda>v. Err ''not JSON'', json_Oracle = \<lambda>v. Err ''not JSON'',
      json_Tokenomics = \<lambda>v. Err ''not JSON'', json_TokenomicsStrict = \<lambda>v. Err ''not JSON'',
      json_Representatives = \<lambda>v. Err ''not JSON'',
      json_Activations = \<lambda>v. Inr [(''noop'', \<lparr>ar_AtIndex = 2, ar_NotBeforeNS = 0\<rparr>)],
      json_EpochValue = \<lambda>v. Inr sample_epoch\<rparr>"

abbreviation set_op :: "string \<Rightarrow> string \<Rightarrow> state_op" where
  "set_op k v \<equiv> \<lparr>op_Action = ''set'', op_Key = k, op_Value = v\<rparr>"

definition sample_sig :: "8 word \<Rightarrow> state_signature" where
  "sample_sig k = \<lparr>ss_PublicKey = sample_hex k, ss_Sig = hex_EncodeToString (replicate 64 1)\<rparr>"

definition sample_state_genesis :: state_block where
  "sample_state_genesis =
     \<lparr>sb_Index = 0, sb_PrevHash = replicate 64 CHR ''0'',
      sb_Ops = [set_op ''sys.dao_keyset'' ''k'', set_op ''sys.phase'' ''1'', set_op ''sys.min_protocol_version'' ''v''],
      sb_Signatures = [], sb_Hash = sample_hex 123, sb_Timestamp = 0\<rparr>"

definition sample_block1 :: state_block where
  "sample_block1 =
     \<lparr>sb_Index = 1, sb_PrevHash = sample_hex 123, sb_Ops = [set_op ''sys.activations'' ''a''],
      sb_Signatures = [sample_sig 1, sample_sig 2], sb_Hash = sample_hex 75, sb_Timestamp = 1\<rparr>"

definition sample_block2 :: state_block where
  "sample_block2 =
     \<lparr>sb_Index = 2, sb_PrevHash = sample_hex 75, sb_Ops = [set_op ''note'' ''x y''],
      sb_Signatures = [sample_sig 1, sample_sig 2], sb_Hash = sample_hex 66, sb_Timestamp = 2\<rparr>"

definition sample_chain0 :: state_chain where
  "sample_chain0 =
     \<lparr>ch_store = [], ch_kv = [(''sys.dao_keyset'', ''k''), (''sys.phase'', ''1''), (''sys.min_protocol_version'', ''v'')],
      ch_tip = sample_state_genesis, ch_genesis = sample_state_genesis, ch_events = []\<rparr>"

definition sample_chain1 :: state_chain where
  "sample_chain1 =
     \<lparr>ch_store = [(1, sample_block1)],
      ch_kv = [(''sys.dao_keyset'', ''k''), (''sys.phase'', ''1''), (''sys.min_protocol_version'', ''v''), (''sys.activations'', ''a'')],
      ch_tip = sample_block1, ch_genesis = sample_state_genesis, ch_events = [BlockAdded sample_block1]\<rparr>"

section \<open>Evaluation\<close>

lemma sample_state_env_simps [simp]:
  "sha256 sample_state_env x = replicate 32 (of_nat (length x))" "ed25519_Verify sample_state_env p m s"
  "json_Valid sample_state_env v" "json_Raw sample_state_env v = Inr (filter (\<lambda>c. c \<noteq> CHR '' '') v)"
  "json_Size sample_state_env b = 0" "json_String sample_state_env v = Inr ''1.0.0''" "json_Uint8 sample_state_env v = Inr 1"
  "json_DAOKeyset sample_state_env v = Inr \<lparr>dk_Keys = [sample_hex 1, sample_hex 2], dk_Threshold = 2\<rparr>"
  "json_Activations sample_state_env v = Inr [(''noop'', \<lparr>ar_AtIndex = 2, ar_NotBeforeNS = 0\<rparr>)]"
  "json_EpochValue sample_state_env v = Inr sample_epoch"
  by (simp_all add: sample_state_env_def)

lemma decode_zeros: "hex_DecodeString (replicate (2 * n) CHR ''0'') = Inr (replicate n 0)"
  by (induction n) (simp_all add: hex_val_def)

lemma decode_sample: "hex_DecodeString (sample_hex k) = Inr (replicate 32 k)"
  by (simp add: sample_hex_def hex_decode_encode)

lemma sample_verify: "VerifySignature sample_state_env (sample_hex h) (sample_sig k) = Inr ()"
  by (simp add: VerifySignature_def VerifyHexSignature_def DecodeHash_def DecodePublicKey_def DecodeSignature_def sample_sig_def
      decode_sample hex_decode_encode)

lemma sample_state_genesis_valid: "ValidateGenesis sample_state_env sample_state_genesis = Inr ()"
  using decode_zeros [of 32]
  by (simp add: ValidateGenesis_def sample_state_genesis_def state_HashBlock_def MarshalCanonical_def marshal_op_def string_bytes_def
      sample_hex_def Let_def ApplyOps_def apply_op_def kv_DAOKeyset_def MinDAOThreshold_def validateGenesisOracleScope_def HasPrefix_def)

lemma sample_opened: "NewChain sample_state_env [] sample_state_genesis = Inr sample_chain0"
  by (simp add: NewChain_def sample_state_genesis_valid replay_def StateBlockCount_def sample_chain0_def Let_def)
    (simp add: sample_state_genesis_def ApplyOps_def apply_op_def kv_DAOKeyset_def MinDAOThreshold_def)

lemma sample_hash1: "VerifyBlockHash sample_state_env sample_block1 = Inr ()"
  by (simp add: VerifyBlockHash_def state_HashBlock_def MarshalCanonical_def marshal_op_def string_bytes_def sample_block1_def
      decode_sample Let_def) (simp add: sample_hex_def)

lemma sample_hash2: "VerifyBlockHash sample_state_env sample_block2 = Inr ()"
  by (simp add: VerifyBlockHash_def state_HashBlock_def MarshalCanonical_def marshal_op_def string_bytes_def sample_block2_def
      decode_sample Let_def) (simp add: sample_hex_def)

lemma sample_signed:
  assumes "sb_Signatures b = [sample_sig 1, sample_sig 2]" "sb_Hash b = sample_hex h" "kv_OracleConfig sample_state_env kv = Inr None"
    "mget kv ''sys.dao_keyset'' = Some v"
  shows "authorize sample_state_env b kv = Inr ()"
proof -
  have "verify_dao sample_state_env b kv = Inr ()"
    using assms(1,2,4) by (simp add: verify_dao_def kv_DAOKeyset_def MinDAOThreshold_def verifyMultisig_iff signed_by_def sample_verify)
      (simp add: sample_sig_def)
  then show ?thesis using assms(3) by (simp add: authorize_def governing_oracle_def oracle_of_def)
qed

lemma sample_next1: "check_next sample_state_env sample_block1 (ch_kv sample_chain0) (ch_tip sample_chain0) = Inr ()"
proof -
  have "authorize sample_state_env sample_block1 (ch_kv sample_chain0) = Inr ()"
    by (rule sample_signed) (simp_all add: sample_block1_def sample_chain0_def kv_OracleConfig_def)
  then show ?thesis
    by (simp add: check_next_def)
      (simp add: sample_block1_def sample_chain0_def sample_state_genesis_def MaxBlockSize_def ValidateOp_def ValidateKey_def MaxKeyLength_def
        MaxValueSize_def validateSysKeyValue_def validateActivations_def ParseActivations_def MaxActivationFeatures_def feature_name_def
        less_eq_char_def validateTransition_def validateActivationsTransition_def requireFuture_def word_le_nat_alt)
qed

lemma sample_added1: "state_AddBlock sample_state_env sample_block1 sample_chain0 = (Inr (), sample_chain1)"
  by (simp add: state_AddBlock_def sample_hash1 sample_next1)
    (simp add: sample_block1_def sample_chain0_def sample_chain1_def sample_state_genesis_def applyValidated_def PutStateBlock_def
      copyStateBlock_def ApplyOps_def apply_op_def word_le_nat_alt)

lemma sample_next2: "check_next sample_state_env sample_block2 (ch_kv sample_chain1) (ch_tip sample_chain1) = Inr ()"
proof -
  have "authorize sample_state_env sample_block2 (ch_kv sample_chain1) = Inr ()"
    by (rule sample_signed) (simp_all add: sample_block2_def sample_chain1_def kv_OracleConfig_def)
  then show ?thesis
    by (simp add: check_next_def)
      (simp add: sample_block1_def sample_block2_def sample_chain1_def MaxBlockSize_def ValidateOp_def ValidateKey_def MaxKeyLength_def
        MaxValueSize_def validateSysKeyValue_def less_eq_char_def validateTransition_def)
qed

lemma sample_added2:
  "state_AddBlock sample_state_env sample_block2 sample_chain1 =
     (Inr (), sample_chain1\<lparr>ch_store := [(1, sample_block1), (2, sample_block2\<lparr>sb_Ops := [set_op ''note'' ''xy'']\<rparr>)],
        ch_kv := ch_kv sample_chain1 @ [(''note'', ''x y'')], ch_tip := sample_block2,
        ch_events := [BlockAdded sample_block1, BlockAdded sample_block2]\<rparr>)"
  by (simp add: state_AddBlock_def sample_hash2 sample_next2)
    (simp add: sample_block1_def sample_block2_def sample_chain1_def applyValidated_def PutStateBlock_def
      copyStateBlock_def ApplyOps_def apply_op_def word_le_nat_alt)

definition sample_chain2 :: state_chain where
  "sample_chain2 = snd (state_AddBlock sample_state_env sample_block2 sample_chain1)"

lemma sample_run: "chain_run sample_state_env [] sample_state_genesis sample_chain0"
  "chain_run sample_state_env [] sample_state_genesis sample_chain1"
  "chain_run sample_state_env [] sample_state_genesis sample_chain2"
proof -
  show c0: "chain_run sample_state_env [] sample_state_genesis sample_chain0" by (rule chain_run.opened [OF sample_opened])
  show c1: "chain_run sample_state_env [] sample_state_genesis sample_chain1"
    using chain_run.added [OF c0, of sample_block1] by (simp add: sample_added1)
  show "chain_run sample_state_env [] sample_state_genesis sample_chain2"
    unfolding sample_chain2_def by (rule chain_run.added [OF c1])
qed

lemma sample_chain_simps:
  "ch_tip sample_chain0 = sample_state_genesis" "sb_Index sample_state_genesis = 0" "ch_tip sample_chain1 = sample_block1"
  "sb_Index sample_block1 = 1" "sb_Timestamp sample_block1 = 1" "sb_Index sample_block2 = 2" "sb_Timestamp sample_block2 = 2"
  "ch_store sample_chain1 = [(1, sample_block1)]" "ch_events sample_chain1 = [BlockAdded sample_block1]"
  by (simp_all add: sample_chain0_def sample_chain1_def sample_block1_def sample_block2_def sample_state_genesis_def)

lemma sample_compact: "compact sample_state_env sample_block1"
  by (simp add: compact_def sample_block1_def)

lemma sample_active: "\<not> chain_FeatureActive sample_state_env ''noop'' sample_chain1" "chain_FeatureActive sample_state_env ''noop'' sample_chain2"
  unfolding sample_chain2_def sample_added2
  by (simp_all add: chain_FeatureActive_def feature_ActiveAt_def activationsLocked_def ParseActivations_def ActiveAt_def
      sample_chain1_def sample_chain_simps word_le_nat_alt)

section \<open>The properties on the sample\<close>

theorem AddBlock_authorized_witness: "signed_by sample_state_env sample_block1 [sample_hex 1, sample_hex 2] 2"
proof -
  have "mget (ch_kv (snd (state_AddBlock sample_state_env sample_block1 sample_chain0))) ''sys.activations'' \<noteq> mget (ch_kv sample_chain0) ''sys.activations''"
    unfolding sample_added1 by (simp add: sample_chain1_def sample_chain0_def)
  from AddBlock_authorized [OF this] show ?thesis
    by (auto simp: oracle_of_def kv_OracleConfig_def sample_chain0_def kv_DAOKeyset_def MinDAOThreshold_def)
qed

theorem chain_keeps_keyset_witness:
  "\<exists>ks. kv_DAOKeyset sample_state_env (ch_kv sample_chain2) = Inr ks \<and> 2 \<le> dk_Threshold ks"
  using chain_keeps_keyset [OF sample_run(3)] by blast

theorem features_one_directional_witness:
  "chain_FeatureActive sample_state_env ''noop'' (add_all sample_state_env [sample_block1, sample_block2] sample_chain2) \<and>
   mget (activationsLocked sample_state_env (ch_kv sample_chain1)) ''noop'' \<noteq> None"
  using features_one_directional [of sample_state_env "''noop''" sample_chain2 "[sample_block1, sample_block2]"]
    features_one_directional [of sample_state_env "''noop''" sample_chain1 "[]" sample_block2] sample_active
  by (auto simp: sample_chain2_def)



theorem restart_replays_chain_witness:
  "NewChain sample_state_env [(1, sample_block1)] sample_state_genesis = Inr (sample_chain1\<lparr>ch_events := []\<rparr>)"
  using restart_replays_chain [OF sample_run(2)] sample_compact by (simp add: sample_chain_simps)

theorem restart_refuses_reformatted_witness:
  "accepted sample_state_env sample_block2 sample_chain1 \<and> (\<exists>e. NewChain sample_state_env (ch_store sample_chain2) sample_state_genesis = Inl e)"
proof -
  have "VerifyBlockHash sample_state_env (copyStateBlock sample_state_env (copyStateBlock sample_state_env sample_block2)) \<noteq> Inr ()"
    by (simp add: VerifyBlockHash_def state_HashBlock_def MarshalCanonical_def marshal_op_def string_bytes_def sample_block2_def copyStateBlock_def
        decode_sample Let_def) (simp add: sample_hex_def [symmetric])
  moreover have "BlockAdded sample_block2 \<in> set (ch_events sample_chain2)" "ch_tip sample_chain2 = sample_block2"
    by (simp_all add: sample_chain2_def sample_added2)
  ultimately have "\<exists>e. NewChain sample_state_env (ch_store sample_chain2) sample_state_genesis = Inl e"
    using restart_refuses_reformatted [OF sample_run(3)] by (simp add: sample_chain_simps)
  then show ?thesis
    by (simp add: accepted_def sample_hash2 sample_next2) (simp add: sample_chain_simps)
qed


end
