(* ===== verification/XE_NodeConfig.thy ===== *)
theory XE_NodeConfig
  imports XE_Governance XE_Contracts
begin

text \<open>
  How a node's ledger reads the governance chain (\<open>node/node.go\<close>): the functions \<open>New\<close> hands
  to the ledger look up a key of the chain's state at every call and decode it. With them the
  environment of the ledger is a function of the chain. The cache of the representatives'
  configuration returns what decoding again would return and is left out.
\<close>

section \<open>The functions of the configuration\<close>

definition timekeeperConfigFn :: "state_env \<Rightarrow> kv_store \<Rightarrow> timekeeper_config option" where
  "timekeeperConfigFn S kv =
     (case mget kv ''sys.timekeepers'' of
        None \<Rightarrow> None
      | Some raw \<Rightarrow>
          (case json_Timekeepers S raw of
             Inl _ \<Rightarrow> None
           | Inr config \<Rightarrow> if tk_Threshold config = 0 \<or> tk_Keys config = [] then None else Some config))"

definition minterConfigFn :: "state_env \<Rightarrow> kv_store \<Rightarrow> minter_config option" where
  "minterConfigFn S kv =
     (case mget kv ''sys.minter'' of
        None \<Rightarrow> None
      | Some raw \<Rightarrow>
          (case json_Minter S raw of Inl _ \<Rightarrow> None | Inr ks \<Rightarrow> if ks = [] then None else Some \<lparr>mc_Keys = ks\<rparr>))"

definition repConfigFn :: "state_env \<Rightarrow> kv_store \<Rightarrow> representative_config option" where
  "repConfigFn S kv =
     (case mget kv ''sys.representatives'' of
        None \<Rightarrow> None
      | Some raw \<Rightarrow>
          (case json_Representatives S raw of
             Inl _ \<Rightarrow> None | Inr rc \<Rightarrow> Some \<lparr>rc_Mode = sr_Mode rc, rc_Addresses = sr_Addresses rc\<rparr>))"

definition epochs :: "state_env \<Rightarrow> kv_store \<Rightarrow> epoch_value list" where
  "epochs S kv =
     List.map_filter (\<lambda>(k, raw). case json_EpochValue S raw of Inl _ \<Rightarrow> None | Inr ev \<Rightarrow> Some ev) (GetByPrefix ''epoch.'' kv)"

definition latestEpoch :: "state_env \<Rightarrow> kv_store \<Rightarrow> epoch_value option" where
  "latestEpoch S kv =
     fold (\<lambda>ev best. case best of
             None \<Rightarrow> Some ev | Some x \<Rightarrow> if ev_Epoch ev > ev_Epoch x then Some ev else Some x) (epochs S kv) None"

definition epoch_reading :: "(epoch_value \<Rightarrow> u64) \<Rightarrow> state_env \<Rightarrow> kv_store \<Rightarrow> u64" where
  "epoch_reading f S kv = (case latestEpoch S kv of None \<Rightarrow> 0 | Some ev \<Rightarrow> f ev)"

definition EpochLockTolerance :: nat where "EpochLockTolerance = 3"

definition epochAtFn :: "state_env \<Rightarrow> kv_store \<Rightarrow> int \<Rightarrow> epoch_params list" where
  "epochAtFn S kv ns =
     map (\<lambda>ev. \<lparr>ep_R = ev_REffective ev, ep_PayoutCap = ev_PayoutCap ev, ep_TWAP = ev_TWAPMilliUSD ev\<rparr>)
       (take (EpochLockTolerance + 1)
         (rev (sort_key ev_Epoch (filter (\<lambda>ev. ev_StartNS ev \<le> ns) (epochs S kv)))))"

text \<open>The environment of the ledger on a node whose chain is \<open>c\<close>.\<close>

definition node_env :: "state_env \<Rightarrow> state_chain \<Rightarrow> env \<Rightarrow> env" where
  "node_env S c E =
     E\<lparr>cfg_TimekeeperConfigFn := Some (timekeeperConfigFn S (ch_kv c)),
       cfg_MinterConfigFn := Some (minterConfigFn S (ch_kv c)),
       cfg_EpochRFn := Some (epoch_reading ev_REffective S (ch_kv c)),
       cfg_EpochPayoutCapFn := Some (epoch_reading ev_PayoutCap S (ch_kv c)),
       cfg_EpochTWAPFn := Some (epoch_reading ev_TWAPMilliUSD S (ch_kv c)),
       cfg_EpochAtFn := Some (epochAtFn S (ch_kv c)),
       cfg_FeatureActiveFn := Some (\<lambda>feature. chain_FeatureActive S feature c),
       cfg_RepresentativeConfigFn := Some (repConfigFn S (ch_kv c))\<rparr>"

section \<open>Lemmas\<close>

lemma mint_refused:
  assumes "blk_Type b = BlockMint" "\<not> isMinter E (blk_Account b)"
  shows "core (snd (dispatchValidateAndAdd E b s l)) = core l"
proof -
  have "validateAndAddMint E b l1 = finish (Err (if blk_Asset b \<noteq> ''XUSD'' then ''mint: restricted to XUSD''
      else ''mint: account %s is not an authorized minter'')) l1" for l1
    using assms(2) by (simp add: validateAndAddMint_def mint_commit_def)
  then show ?thesis
    using assms(1) credential_core [of E b l] by (auto simp: dispatchValidateAndAdd_def finish_def split: prod.splits sum.splits)
qed

lemma addBlock_mint:
  assumes "blk_Type (admitted b) = BlockMint" "core (snd (addBlock E b s l)) \<noteq> core l"
  shows "isMinter E (blk_Account (admitted b))"
proof (rule ccontr)
  define b' where "b' = admitted b"
  obtain r l1 where V: "verifyBlockCredential E b' l = (r, l1)" by (cases "verifyBlockCredential E b' l")
  have c1: "core l1 = core l" using credential_core [of E b' l] V by simp
  assume "\<not> isMinter E (blk_Account (admitted b))"
  then have d: "core (snd (dispatchValidateAndAdd E b' s l1)) = core l"
    using mint_refused [of b' E s l1] assms(1) c1 by (simp add: b'_def)
  have "core (snd (addBlock E b s l)) = core l"
    unfolding addBlock_def admitted_def [symmetric] b'_def [symmetric] Let_def V
    using c1 d by (auto simp: add_conflicting_core split: sum.splits prod.splits)
  then show False using assms(2) by contradiction
qed

lemma isMinter_governed:
  assumes "isMinter (node_env S c E) a"
  obtains raw ks k where "mget (ch_kv c) ''sys.minter'' = Some raw" "json_Minter S raw = Inr ks" "k \<in> set ks" "EqualFold k a"
  using assms
  by (auto simp: isMinter_def node_env_def minterConfigFn_def list_ex_iff split: option.splits sum.splits if_splits)

end
