(* ===== verification/XE_Peers.thy ===== *)
theory XE_Peers
  imports XE_Prelude
begin

text \<open>
  The tables a node keeps of its peers: the bans (\<open>net/banstore.go\<close>) and the request buckets
  (\<open>net/ratelimit.go\<close>). Both hold at most a number of peers and make room for a new one by
  dropping the one that came first. The token buckets of \<open>golang.org/x/time/rate\<close> and the
  text form of a peer are parameters; a time is a number of nanoseconds, and \<open>None\<close> stands
  for the zero time before the first sweep.
\<close>

section \<open>Eviction in the order of arrival\<close>

fun evictOldestLocked :: "(string, 'v) gomap \<Rightarrow> string list \<Rightarrow> bool \<times> (string, 'v) gomap \<times> string list" where
  "evictOldestLocked es [] = (False, es, [])"
| "evictOldestLocked es (p # ps) = (if mhas es p then (True, mdel p es, ps) else evictOldestLocked es ps)"

lemma evict_shorter: "evictOldestLocked es order = (True, es', order') \<Longrightarrow> length order' < length order"
  by (induction es order rule: evictOldestLocked.induct) (auto split: if_splits)

text \<open>The loop before an insertion; the number counts the peers dropped.\<close>

function make_room :: "nat \<Rightarrow> (string, 'v) gomap \<Rightarrow> string list \<Rightarrow> nat \<times> (string, 'v) gomap \<times> string list" where
  "make_room cap es order =
     (if length es \<ge> cap
      then case evictOldestLocked es order of
             (False, es', order') \<Rightarrow> (0, es', order')
           | (True, es', order') \<Rightarrow> (case make_room cap es' order' of (n, r) \<Rightarrow> (n + 1, r))
      else (0, es, order))"
  by pat_completeness auto

termination
  by (relation "measure (\<lambda>(cap, es, order). length order)") (auto dest: evict_shorter [OF sym])

declare make_room.simps [simp del]

definition compactLocked :: "nat \<Rightarrow> (string, 'v) gomap \<Rightarrow> string list \<Rightarrow> string list" where
  "compactLocked cap es order = (if length order \<le> 2 * cap then order else filter (mhas es) order)"

definition inlineSweepInterval :: int where "inlineSweepInterval = 10 ^ 9"

definition sweep_due :: "int \<Rightarrow> int option \<Rightarrow> bool" where
  "sweep_due now lastSweep = (case lastSweep of None \<Rightarrow> True | Some t \<Rightarrow> now - t \<ge> inlineSweepInterval)"

section \<open>Bans\<close>

record ban_store =
  bn_entries :: "(string, int) gomap"
  bn_order :: "string list"
  bn_max :: nat
  bn_lastSweep :: "int option"
  bn_evicted :: nat
  bn_swept :: nat
  bn_dirty :: bool

definition newBanStore :: "int \<Rightarrow> ban_store" where
  "newBanStore cap =
     \<lparr>bn_entries = [], bn_order = [], bn_max = (if cap \<le> 0 then 4096 else nat cap), bn_lastSweep = None, bn_evicted = 0, bn_swept = 0,
      bn_dirty = False\<rparr>"

definition ban_sweepLocked :: "int \<Rightarrow> ban_store \<Rightarrow> ban_store" where
  "ban_sweepLocked now s =
     (let es = filter (\<lambda>(p, exp). \<not> now > exp) (bn_entries s); removed = length (bn_entries s) - length es
      in if removed > 0
         then s\<lparr>bn_entries := es, bn_swept := bn_swept s + removed, bn_dirty := True,
                bn_order := compactLocked (bn_max s) es (bn_order s)\<rparr>
         else s)"

definition ban :: "int \<Rightarrow> string \<Rightarrow> int \<Rightarrow> ban_store \<Rightarrow> ban_store" where
  "ban now p until s =
     (let s1 = (if mhas (bn_entries s) p then s
                else let s0 = (if length (bn_entries s) \<ge> bn_max s \<and> sweep_due now (bn_lastSweep s)
                               then ban_sweepLocked now (s\<lparr>bn_lastSweep := Some now\<rparr>) else s)
                     in case make_room (bn_max s0) (bn_entries s0) (bn_order s0) of
                          (n, es, order) \<Rightarrow>
                            s0\<lparr>bn_entries := es, bn_order := compactLocked (bn_max s0) es (order @ [p]), bn_evicted := bn_evicted s0 + n\<rparr>)
      in s1\<lparr>bn_entries := mput p until (bn_entries s1), bn_dirty := True\<rparr>)"

definition ban_clear :: "string \<Rightarrow> ban_store \<Rightarrow> ban_store" where
  "ban_clear p s = (if mhas (bn_entries s) p then s\<lparr>bn_entries := mdel p (bn_entries s), bn_dirty := True\<rparr> else s)"

definition banned :: "int \<Rightarrow> string \<Rightarrow> ban_store \<Rightarrow> bool \<times> ban_store" where
  "banned now p s =
     (case mget (bn_entries s) p of
        None \<Rightarrow> (False, s)
      | Some exp \<Rightarrow> if now > exp then (False, s\<lparr>bn_entries := mdel p (bn_entries s), bn_dirty := True\<rparr>) else (True, s))"

text \<open>The snapshot on disk: pairs of the text of a peer and the end of its ban.\<close>

definition ban_save :: "(string \<Rightarrow> string) \<Rightarrow> int \<Rightarrow> ban_store \<Rightarrow> (string \<times> int) list \<times> ban_store" where
  "ban_save text now s =
     (map (\<lambda>(p, exp). (text p, exp)) (filter (\<lambda>(p, exp). \<not> now > exp) (bn_entries s)), s\<lparr>bn_dirty := False\<rparr>)"

fun load_items :: "(string \<Rightarrow> string option) \<Rightarrow> int \<Rightarrow> (string \<times> int) list \<Rightarrow> nat \<Rightarrow> ban_store \<Rightarrow> nat \<times> ban_store" where
  "load_items peer_Decode now [] restored s = (restored, s)"
| "load_items peer_Decode now ((t, exp) # items) restored s =
     (if now > exp then load_items peer_Decode now items restored s
      else case peer_Decode t of
             None \<Rightarrow> load_items peer_Decode now items restored s
           | Some p \<Rightarrow>
               let s' = ban now p exp s; restored' = restored + 1
               in if restored' \<ge> bn_max s' then (restored', s') else load_items peer_Decode now items restored' s')"

definition ban_load :: "(string \<Rightarrow> string option) \<Rightarrow> int \<Rightarrow> (string \<times> int) list \<Rightarrow> ban_store \<Rightarrow> nat \<times> ban_store" where
  "ban_load peer_Decode now items s =
     (case load_items peer_Decode now items 0 s of (n, s') \<Rightarrow> (n, s'\<lparr>bn_dirty := False\<rparr>))"

section \<open>Request buckets\<close>

record 'l peer_bucket =
  pb_lim :: 'l
  pb_seen :: int

record 'l peer_limiter =
  pl_buckets :: "(string, 'l peer_bucket) gomap"
  pl_order :: "string list"
  pl_max :: nat
  pl_global :: 'l
  pl_idleTTL :: int
  pl_lastSweep :: "int option"
  pl_allowed :: u64
  pl_denied :: u64

definition newPeerRateLimiter :: "'l \<Rightarrow> int \<Rightarrow> 'l peer_limiter" where
  "newPeerRateLimiter global maxPeers =
     \<lparr>pl_buckets = [], pl_order = [], pl_max = (if maxPeers \<le> 0 then 2048 else nat maxPeers), pl_global = global,
      pl_idleTTL = 300 * 10 ^ 9, pl_lastSweep = None, pl_allowed = 0, pl_denied = 0\<rparr>"

definition limiter_sweepLocked :: "int \<Rightarrow> 'l peer_limiter \<Rightarrow> 'l peer_limiter" where
  "limiter_sweepLocked now l =
     (let bs = filter (\<lambda>(p, b). \<not> now - pb_seen b > pl_idleTTL l) (pl_buckets l)
      in l\<lparr>pl_buckets := bs, pl_order := compactLocked (pl_max l) bs (pl_order l)\<rparr>)"

definition new_bucket :: "'l \<Rightarrow> int \<Rightarrow> string \<Rightarrow> 'l peer_limiter \<Rightarrow> 'l peer_limiter" where
  "new_bucket lim now p l =
     (let l0 = (if length (pl_buckets l) \<ge> pl_max l \<and> sweep_due now (pl_lastSweep l)
                then limiter_sweepLocked now (l\<lparr>pl_lastSweep := Some now\<rparr>) else l)
      in case make_room (pl_max l0) (pl_buckets l0) (pl_order l0) of
           (n, bs, order) \<Rightarrow>
             let bs' = mput p \<lparr>pb_lim = lim, pb_seen = now\<rparr> bs
             in l0\<lparr>pl_buckets := bs', pl_order := compactLocked (pl_max l0) bs' (order @ [p])\<rparr>)"

definition allowPeer :: "(int \<Rightarrow> 'l \<Rightarrow> bool \<times> 'l) \<Rightarrow> 'l \<Rightarrow> int \<Rightarrow> string \<Rightarrow> 'l peer_limiter \<Rightarrow> bool \<times> 'l peer_limiter" where
  "allowPeer rate_Allow fresh now p l =
     (let l1 = (if mhas (pl_buckets l) p then l else new_bucket fresh now p l); b = the (mget (pl_buckets l1) p)
      in case rate_Allow now (pb_lim b) of
           (ok, lim) \<Rightarrow> (ok, l1\<lparr>pl_buckets := mput p \<lparr>pb_lim = lim, pb_seen = now\<rparr> (pl_buckets l1)\<rparr>))"

definition limiter_allow :: "(int \<Rightarrow> 'l \<Rightarrow> bool \<times> 'l) \<Rightarrow> 'l \<Rightarrow> int \<Rightarrow> string \<Rightarrow> 'l peer_limiter \<Rightarrow> bool \<times> 'l peer_limiter" where
  "limiter_allow rate_Allow fresh now p l =
     (case allowPeer rate_Allow fresh now p l of
        (False, l1) \<Rightarrow> (False, l1\<lparr>pl_denied := pl_denied l1 + 1\<rparr>)
      | (True, l1) \<Rightarrow>
          (case rate_Allow now (pl_global l1) of
             (False, g) \<Rightarrow> (False, l1\<lparr>pl_global := g, pl_denied := pl_denied l1 + 1\<rparr>)
           | (True, g) \<Rightarrow> (True, l1\<lparr>pl_global := g, pl_allowed := pl_allowed l1 + 1\<rparr>)))"

section \<open>The tables stay within their size\<close>

text \<open>Every peer of the table can be found in the order of arrival, so room can always be made.\<close>

definition tracked :: "nat \<Rightarrow> (string, 'v) gomap \<Rightarrow> string list \<Rightarrow> bool" where
  "tracked cap es order \<longleftrightarrow> mwf es \<and> keys es \<subseteq> set order \<and> length es \<le> cap \<and> 0 < cap"

lemma length_keys: "mwf es \<Longrightarrow> length es = card (keys es)"
  by (simp add: keys_def distinct_card flip: set_map)

lemma evict_tracked:
  assumes "mwf es" "keys es \<subseteq> set order" "evictOldestLocked es order = (ok, es', order')"
  shows "mwf es' \<and> keys es' \<subseteq> set order' \<and> (\<not> ok \<longrightarrow> es' = es \<and> es = []) \<and> (ok \<longrightarrow> length es = Suc (length es'))"
  using assms
proof (induction es order rule: evictOldestLocked.induct)
  case (1 es)
  then show ?case by (cases es) (auto simp: keys_def)
next
  case (2 es p ps)
  show ?case
  proof (cases "mhas es p")
    case True
    then have "p \<in> keys es" by (simp add: keys_iff)
    then have "0 < card (keys es)" by (metis card_gt_0_iff empty_iff finite_keys)
    then have "length es = Suc (length (mdel p es))"
      using 2(2) \<open>p \<in> keys es\<close> by (simp add: length_keys)
    then show ?thesis using 2(2-4) True by auto
  next
    case False
    then have "p \<notin> keys es" by (simp add: keys_iff)
    then show ?thesis using 2 False by auto
  qed
qed

lemma make_room_tracked:
  assumes "mwf es" "keys es \<subseteq> set order" "0 < cap" "make_room cap es order = (n, es', order')"
  shows "mwf es' \<and> keys es' \<subseteq> set order' \<and> length es' < cap"
  using assms
proof (induction "length order" arbitrary: es order n es' order' rule: less_induct)
  case less
  obtain ok es1 order1 where e: "evictOldestLocked es order = (ok, es1, order1)" by (cases "evictOldestLocked es order") auto
  note ev = evict_tracked [OF less.prems(1,2) e]
  show ?case
  proof (cases "length es \<ge> cap \<and> ok")
    case True
    obtain m es2 order2 where r: "make_room cap es1 order1 = (m, es2, order2)" by (cases "make_room cap es1 order1") auto
    have "(n, es', order') = (m + 1, es2, order2)"
      using less.prems(4) True unfolding make_room.simps [of cap es order] e by (simp add: r)
    moreover have shorter: "length order1 < length order" using evict_shorter [of es order es1 order1] True e by simp
    moreover have "mwf es1" "keys es1 \<subseteq> set order1" using ev by simp_all
    from less.hyps [OF shorter this less.prems(3) r] have "mwf es2 \<and> keys es2 \<subseteq> set order2 \<and> length es2 < cap" .
    ultimately show ?thesis by simp
  next
    case False
    then have "\<not> length es \<ge> cap" using ev less.prems(3) by (cases ok) simp_all
    then have "make_room cap es order = (0, es, order)" by (subst make_room.simps) simp
    then show ?thesis using less.prems \<open>\<not> length es \<ge> cap\<close> by simp
  qed
qed

lemma compact_tracked: "keys es \<subseteq> set order \<Longrightarrow> keys es \<subseteq> set (compactLocked cap es order)"
  by (auto simp: compactLocked_def keys_iff)

lemma filter_tracked: "tracked cap es order \<Longrightarrow> tracked cap (filter P es) order"
  by (auto simp: tracked_def keys_def distinct_map_filter intro: order_trans [OF length_filter_le])

lemma compact_keeps_tracked: "tracked cap es order \<Longrightarrow> tracked cap es (compactLocked cap es order)"
  by (simp add: tracked_def compact_tracked)

text \<open>A table whose steps keep it tracked never outgrows its bound, whatever is asked of it.\<close>

locale bounded_table =
  fixes step :: "'q \<Rightarrow> 's \<Rightarrow> 's" and table :: "'s \<Rightarrow> (string, 'v) gomap" and arrivals :: "'s \<Rightarrow> string list" and bound :: "'s \<Rightarrow> nat"
  assumes step_tracked: "tracked (bound s) (table s) (arrivals s) \<Longrightarrow> tracked (bound s) (table (step q s)) (arrivals (step q s))"
    and step_bound: "bound (step q s) = bound s"
begin

lemma run_tracked: "tracked (bound s) (table s) (arrivals s) \<Longrightarrow> tracked (bound s) (table (fold step qs s)) (arrivals (fold step qs s))"
proof (induction qs arbitrary: s)
  case (Cons q qs)
  then show ?case using Cons.IH [of "step q s"] step_tracked [of s q] by (simp add: step_bound)
qed simp

lemma run_bound: "bound (fold step qs s) = bound s"
  by (induction qs arbitrary: s) (simp_all add: step_bound)

lemma run_bounded: "tracked (bound s) (table s) (arrivals s) \<Longrightarrow> length (table (fold step qs s)) \<le> bound s"
  using run_tracked [of s qs] by (simp add: tracked_def)

end

text \<open>A request may bring its peer into the table; the clock and the buckets decide the answer.\<close>

lemma mput_present: "mhas m k \<Longrightarrow> keys (mput k v m) = keys m"
  by (auto simp: keys_iff)

lemma length_mput: "mwf m \<Longrightarrow> length (mput k v m) = (if mhas m k then length m else Suc (length m))"
  using length_keys [of m] length_keys [of "mput k v m"] keys_iff [of k m] by (cases "k \<in> keys m") (simp_all add: insert_absorb)

lemma new_bucket_tracked:
  assumes "tracked (pl_max l) (pl_buckets l) (pl_order l)"
  shows "tracked (pl_max l) (pl_buckets (new_bucket lim now p l)) (pl_order (new_bucket lim now p l))"
    "pl_max (new_bucket lim now p l) = pl_max l" "mhas (pl_buckets (new_bucket lim now p l)) p"
proof -
  define l0 where "l0 = (if length (pl_buckets l) \<ge> pl_max l \<and> sweep_due now (pl_lastSweep l)
    then limiter_sweepLocked now (l\<lparr>pl_lastSweep := Some now\<rparr>) else l)"
  have l0: "tracked (pl_max l) (pl_buckets l0) (pl_order l0)" "pl_max l0 = pl_max l"
    using assms by (auto simp: l0_def limiter_sweepLocked_def Let_def intro: filter_tracked compact_keeps_tracked)
  obtain n bs order where r: "make_room (pl_max l0) (pl_buckets l0) (pl_order l0) = (n, bs, order)"
    by (cases "make_room (pl_max l0) (pl_buckets l0) (pl_order l0)") auto
  let ?bs = "mput p \<lparr>pb_lim = lim, pb_seen = now\<rparr> bs"
  have room: "mwf bs" "keys bs \<subseteq> set order" "length bs < pl_max l"
    using make_room_tracked [OF _ _ _ r] l0 by (auto simp: tracked_def)
  have t: "tracked (pl_max l) ?bs (order @ [p])" using room l0 by (auto simp: tracked_def length_mput)
  have e: "new_bucket lim now p l = l0\<lparr>pl_buckets := ?bs, pl_order := compactLocked (pl_max l0) ?bs (order @ [p])\<rparr>"
    unfolding new_bucket_def Let_def l0_def [symmetric] by (simp add: r)
  show "tracked (pl_max l) (pl_buckets (new_bucket lim now p l)) (pl_order (new_bucket lim now p l))"
    "pl_max (new_bucket lim now p l) = pl_max l" "mhas (pl_buckets (new_bucket lim now p l)) p"
    using compact_keeps_tracked [OF t] l0(2) by (simp_all add: e)
qed

lemma limiter_allow_table:
  assumes "tracked (pl_max l) (pl_buckets l) (pl_order l)"
    and l'_def: "l' = snd (limiter_allow A lim now p l)"
  shows "tracked (pl_max l) (pl_buckets l') (pl_order l') \<and> pl_max l' = pl_max l \<and> mhas (pl_buckets l') p"
proof -
  define l1 where "l1 = (if mhas (pl_buckets l) p then l else new_bucket lim now p l)"
  have l1: "tracked (pl_max l) (pl_buckets l1) (pl_order l1)" "pl_max l1 = pl_max l" "mhas (pl_buckets l1) p"
    using assms(1) new_bucket_tracked [of l lim now p] by (simp_all add: l1_def)
  obtain ok v where a: "allowPeer A lim now p l = (ok, l1\<lparr>pl_buckets := mput p v (pl_buckets l1)\<rparr>)"
    unfolding allowPeer_def Let_def l1_def [symmetric] by (cases "A now (pb_lim (the (mget (pl_buckets l1) p)))") simp
  then have "pl_buckets l' = mput p v (pl_buckets l1)" "pl_order l' = pl_order l1" "pl_max l' = pl_max l1"
    unfolding l'_def limiter_allow_def a by (auto split: prod.splits bool.splits)
  then show ?thesis using l1 by (simp add: tracked_def length_mput mput_present del: keys_mput)
qed

lemma limiter_allow_max: "pl_max (snd (limiter_allow A lim now p l)) = pl_max l"
proof -
  have "pl_max (new_bucket lim now p l) = pl_max l"
    by (simp add: new_bucket_def limiter_sweepLocked_def Let_def split: prod.splits)
  then show ?thesis by (simp add: limiter_allow_def allowPeer_def Let_def split: prod.splits bool.splits)
qed

abbreviation limiter_step :: "(int \<Rightarrow> 'l \<Rightarrow> bool \<times> 'l) \<Rightarrow> 'l \<Rightarrow> int \<times> string \<Rightarrow> 'l peer_limiter \<Rightarrow> 'l peer_limiter" where
  "limiter_step A lim q l \<equiv> snd (limiter_allow A lim (fst q) (snd q) l)"

interpretation limiter_table: bounded_table "limiter_step A lim" pl_buckets pl_order pl_max for A lim
  by unfold_locales (erule limiter_allow_table [OF _ refl, THEN conjunct1], rule limiter_allow_max)

text \<open>
  C28. The rate limiter never holds more buckets than its bound, through any sequence of
  requests at any times and whatever the token buckets answer; the peer of the last request
  has its bucket.
\<close>

theorem limiter_stays_bounded:
  "length (pl_buckets (fold (limiter_step A lim) qs (newPeerRateLimiter g cap))) \<le> (if cap \<le> 0 then 2048 else nat cap) \<and>
   mhas (pl_buckets (limiter_step A lim (now, p) (fold (limiter_step A lim) qs (newPeerRateLimiter g cap)))) p"
proof -
  let ?l = "newPeerRateLimiter g cap"
  have t: "tracked (pl_max ?l) (pl_buckets ?l) (pl_order ?l)" by (simp add: newPeerRateLimiter_def tracked_def keys_def)
  then have "tracked (pl_max (fold (limiter_step A lim) qs ?l)) (pl_buckets (fold (limiter_step A lim) qs ?l)) (pl_order (fold (limiter_step A lim) qs ?l))"
    unfolding limiter_table.run_bound by (rule limiter_table.run_tracked)
  from limiter_allow_table [OF this refl, of A lim now p] show ?thesis
    using limiter_table.run_bounded [OF t, of A lim qs] by (simp add: newPeerRateLimiter_def)
qed

section \<open>Bans hold, and survive a restart\<close>

lemma ban_get [simp]: "mget (bn_entries (ban now p until s)) p = Some until"
  by (simp add: ban_def Let_def)

text \<open>A ban is in force until it ends.\<close>

lemma ban_banned: "t \<le> until \<Longrightarrow> banned t p (ban now p until s) = (True, ban now p until s)"
  by (simp add: banned_def)

lemma make_room_idle: "length es < cap \<Longrightarrow> make_room cap es order = (0, es, order)"
  by (subst make_room.simps) simp

lemma ban_below:
  assumes "length (bn_entries s) < bn_max s"
  shows "bn_entries (ban now p until s) = mput p until (bn_entries s)" "bn_max (ban now p until s) = bn_max s"
  using assms by (simp_all add: ban_def Let_def make_room_idle)

lemma mput_new: "k \<notin> fst ` set m \<Longrightarrow> mput k v m = m @ [(k, v)]"
  by (induction m) auto

text \<open>Loading a list of bans that fits below the bound adds each of them.\<close>

lemma load_items_below:
  assumes "length (bn_entries s) + length items \<le> bn_max s" "restored \<le> length (bn_entries s)" "mwf (bn_entries s)"
    "\<forall>(p, exp)\<in>set items. \<not> now > exp \<and> dec (text p) = Some p" "mwf (items @ bn_entries s)"
  shows "bn_entries (snd (load_items dec now (map (\<lambda>(p, exp). (text p, exp)) items) restored s)) = bn_entries s @ items"
  using assms
proof (induction items arbitrary: restored s)
  case (Cons i items)
  obtain p exp where i: "i = (p, exp)" by (cases i)
  have new: "p \<notin> fst ` set (bn_entries s)" using Cons.prems(5) i by auto
  have below: "length (bn_entries s) < bn_max s" using Cons.prems(1) by simp
  define s' where "s' = ban now p exp s"
  have s': "bn_entries s' = bn_entries s @ [i]" "bn_max s' = bn_max s"
    using ban_below [OF below, of now p exp] new by (simp_all add: s'_def i mput_new)
  have "items = []" if "restored + 1 \<ge> bn_max s'" using that Cons.prems(1,2) s'(2) by (cases items) simp_all
  moreover have "bn_entries (snd (load_items dec now (map (\<lambda>(p, exp). (text p, exp)) items) (restored + 1) s')) = bn_entries s' @ items"
    using Cons.IH [of s' "restored + 1"] Cons.prems s' by (simp add: i)
  ultimately show ?case using Cons.prems(4) s' by (auto simp: i s'_def [symmetric] Let_def)
qed simp

lemma mget_live:
  assumes "mwf es"
  shows "mget (filter (\<lambda>(p, exp). \<not> now > exp) es) p = (case mget es p of None \<Rightarrow> None | Some exp \<Rightarrow> if (now::int) > exp then None else Some exp)"
  using assms
proof (induction es)
  case (Cons e es)
  obtain q exp where e: "e = (q, exp)" by (cases e)
  have "q = p \<Longrightarrow> mget es p = None" using Cons.prems by (auto simp: e map_of_eq_None_iff)
  then show ?case using Cons by (auto simp: e split: option.splits)
qed simp

text \<open>
  Bans survive a restart: a store saved at one time and loaded at another into an empty
  store of the same bound holds exactly the bans that have not ended, with their ends, where
  the text of a peer decodes to the peer.
\<close>

theorem ban_load_save:
  assumes "mwf (bn_entries s)" "length (bn_entries s) \<le> bn_max s" "0 < bn_max s" "\<forall>p. dec (text p) = Some p"
  shows "mget (bn_entries (snd (ban_load dec now (fst (ban_save text now s)) (newBanStore (int (bn_max s)))))) p =
    (case mget (bn_entries s) p of None \<Rightarrow> None | Some exp \<Rightarrow> if now > exp then None else Some exp)"
proof -
  let ?live = "filter (\<lambda>(p, exp). \<not> now > exp) (bn_entries s)" and ?new = "newBanStore (int (bn_max s))"
  have new: "bn_entries ?new = []" "bn_max ?new = bn_max s" using assms(3) by (simp_all add: newBanStore_def)
  have "bn_entries (snd (load_items dec now (map (\<lambda>(p, exp). (text p, exp)) ?live) 0 ?new)) = bn_entries ?new @ ?live"
    by (rule load_items_below) (use assms new in \<open>auto simp: distinct_map_filter intro: order_trans [OF length_filter_le]\<close>)
  moreover have "mget ?live p = (case mget (bn_entries s) p of None \<Rightarrow> None | Some exp \<Rightarrow> if now > exp then None else Some exp)"
    by (rule mget_live [OF assms(1)])
  moreover have "bn_entries (snd (ban_load dec now items t)) = bn_entries (snd (load_items dec now items 0 t))" for items t
    by (cases "load_items dec now items 0 t") (simp add: ban_load_def)
  ultimately show ?thesis by (simp add: ban_save_def new)
qed

theorem ban_load_save_witness:
  "mget (bn_entries (snd (ban_load Some 5 (fst (ban_save (\<lambda>p. p) 5 (ban 0 ''q'' 9 (ban 0 ''p'' 4 (newBanStore 8))))) (newBanStore 8)))) ''q'' = Some 9"
proof -
  let ?s = "ban 0 ''q'' 9 (ban 0 ''p'' 4 (newBanStore 8))"
  have "bn_entries ?s = [(''p'', 4), (''q'', 9)]" "bn_max ?s = 8"
    by (simp_all add: ban_def newBanStore_def Let_def make_room_idle)
  then show ?thesis using ban_load_save [of ?s Some "\<lambda>p. p" 5 "''q''"] by simp
qed

text \<open>
  The ban store can outgrow its bound: when a ban of a new peer triggers the compaction of
  the order of arrival, the peer is not in the table yet and its own arrival is dropped, so
  it can never be evicted. A store for one ban then holds two.
\<close>

theorem ban_exceeds_max:
  "let s = ban 0 ''d'' 9 (ban 0 ''c'' 9 (ban_clear ''b'' (ban 0 ''b'' 9 (ban_clear ''a'' (ban 0 ''a'' 9 (newBanStore 1))))))
   in length (bn_entries s) = 2 \<and> bn_max s = 1"
  by (simp add: ban_def ban_clear_def newBanStore_def Let_def make_room.simps compactLocked_def sweep_due_def ban_sweepLocked_def)

end
