(* ===== verification/XE_Spendable.thy ===== *)
theory XE_Spendable
  imports XE_Contracts
begin

text \<open>
  What an account may spend at once (\<open>core/spendable.go\<close>): the balance up to its final block,
  less what the blocks above it spend. Receipts that are not final do not count.
\<close>

section \<open>The operations\<close>

definition FinalizedFrontier :: "ledger \<Rightarrow> string \<Rightarrow> string result" where
  "FinalizedFrontier l account =
     (let fh = FinalHeight l account
      in if fh = 0 then Inr []
         else case store_GetAccountChain (l_store l) account of
                None \<Rightarrow> Inr []
              | Some chain \<Rightarrow>
                  if i64 (uint fh) > int (length chain) then Inr []
                  else if unat fh > length chain then Panic ''index out of range''
                  else Inr (blk_Hash (chain ! (unat fh - 1))))"

fun spend_walk :: "nat \<Rightarrow> nat \<Rightarrow> (string, u64) gomap \<Rightarrow> (string, u64) gomap \<Rightarrow> block list \<Rightarrow> (string, u64) gomap" where
  "spend_walk limit i out prev [] = out"
| "spend_walk limit i out prev (b # bs) =
     (let a = assetOf b;
          out1 = (if i < limit then mput a (blk_Balance b) out
                  else if blk_Balance b < mdef 0 prev a
                  then let outflow = mdef 0 prev a - blk_Balance b
                       in mput a (if mdef 0 out a \<ge> outflow then mdef 0 out a - outflow else 0) out
                  else out)
      in spend_walk limit (i + 1) out1 (mput a (blk_Balance b) prev) bs)"

text \<open>The conversion \<open>int(fh)\<close> makes a height from \<open>2\<^sup>6\<^sup>3\<close> on negative; heights are lengths of chains.\<close>

definition SpendableBalances :: "ledger \<Rightarrow> string \<Rightarrow> (string, u64) gomap" where
  "SpendableBalances l account =
     (let fh = FinalHeight l account
      in if fh = 0 then []
         else case store_GetAccountChain (l_store l) account of
                None \<Rightarrow> []
              | Some chain \<Rightarrow> spend_walk (min (nat (i64 (uint fh))) (length chain)) 0 [] [] chain)"

section \<open>Spendable is at most the balance\<close>

lemma less_outflow:
  fixes b p out :: u64
  assumes "out \<le> p" "b < p"
  shows "(if out \<ge> p - b then out - (p - b) else 0) \<le> b" "(if out \<ge> p - b then out - (p - b) else 0) \<le> out"
  using assms by (auto simp: word_le_nat_alt word_less_nat_alt unat_sub_u64)

text \<open>One block of the walk: what is spendable stays below the balance and, above the final block, only shrinks.\<close>

lemma spend_step:
  assumes "\<And>a. mdef 0 out a \<le> mdef 0 prev a"
    and out1: "out1 = (if blk_Balance b < mdef 0 prev (assetOf b)
                  then let outflow = mdef 0 prev (assetOf b) - blk_Balance b
                       in mput (assetOf b) (if mdef 0 out (assetOf b) \<ge> outflow then mdef 0 out (assetOf b) - outflow else 0) out
                  else out)"
  shows "mdef 0 out1 s \<le> mdef 0 (mput (assetOf b) (blk_Balance b) prev) s \<and> mdef 0 out1 s \<le> mdef 0 out s"
  using assms(1) [of s] assms(1) [of "assetOf b"] less_outflow [of "mdef 0 out (assetOf b)" "mdef 0 prev (assetOf b)" "blk_Balance b"]
  by (auto simp: out1 Let_def)

lemma spend_walk_bound:
  assumes "\<And>a. mdef 0 prev a = assetBalanceOnChain ds a" "\<And>a. mdef 0 out a \<le> mdef 0 prev a" "i = length ds"
    "\<And>a. mdef 0 out a \<le> assetBalanceOnChain (take limit ds) a"
  shows "mdef 0 (spend_walk limit i out prev bs) s \<le> assetBalanceOnChain (ds @ bs) s \<and>
    mdef 0 (spend_walk limit i out prev bs) s \<le> assetBalanceOnChain (take limit (ds @ bs)) s"
  using assms
proof (induction bs arbitrary: ds out prev i)
  case Nil
  then show ?case using Nil(1,2) [of s] by simp
next
  case (Cons b bs)
  let ?a = "assetOf b" and ?prev = "mput (assetOf b) (blk_Balance b) prev"
  have prev: "mdef 0 ?prev a = assetBalanceOnChain (ds @ [b]) a" for a
    using Cons.prems(1) [of a] by (simp add: assetBalanceOnChain_snoc)
  define out1 where "out1 = (if i < limit then mput ?a (blk_Balance b) out
                  else if blk_Balance b < mdef 0 prev ?a
                  then let outflow = mdef 0 prev ?a - blk_Balance b
                       in mput ?a (if mdef 0 out ?a \<ge> outflow then mdef 0 out ?a - outflow else 0) out
                  else out)"
  have "mdef 0 out1 a \<le> mdef 0 ?prev a \<and> mdef 0 out1 a \<le> assetBalanceOnChain (take limit (ds @ [b])) a" for a
  proof (cases "i < limit")
    case True
    then show ?thesis using Cons.prems(2) [of a] Cons.prems(1) [of a] Cons.prems(3) by (auto simp: out1_def assetBalanceOnChain_snoc)
  next
    case False
    then have "take limit (ds @ [b]) = take limit ds" using Cons.prems(3) by simp
    moreover have "mdef 0 out1 a \<le> mdef 0 ?prev a \<and> mdef 0 out1 a \<le> mdef 0 out a"
      by (rule spend_step [OF Cons.prems(2)]) (use False in \<open>simp add: out1_def\<close>)
    ultimately show ?thesis using order_trans [OF _ Cons.prems(4) [of a]] by simp
  qed
  then show ?case
    using Cons.IH [of ?prev "ds @ [b]" out1 "i + 1"] prev Cons.prems(3) by (simp add: out1_def Let_def)
qed

lemma i64_high: "\<not> uint (x :: u64) < 2 ^ 63 \<Longrightarrow> i64 (uint x) < 0"
proof -
  assume a: "\<not> uint x < 2 ^ 63"
  have "uint x < 2 ^ 64" using uint_lt2p [of x] by simp
  then have "(uint x + 2 ^ 63) mod 2 ^ 64 = uint x - 2 ^ 63"
    using a mod_add_self2 [of "uint x - 2 ^ 63" "2 ^ 64 :: int"] by (simp add: add.commute)
  then show ?thesis using \<open>uint x < 2 ^ 64\<close> by (simp add: i64_def)
qed

text \<open>
  C21. What an account may spend of an asset is at most its balance, and at most its balance
  at the final block: receipts above the final block cannot be spent, and what is already
  spent there is taken off.
\<close>

theorem SpendableBalances_bounded:
  assumes "ledger_ok l" "IsValidAsset s"
  shows "mdef 0 (SpendableBalances l a) s \<le> getAssetBalance l a s \<and>
    mdef 0 (SpendableBalances l a) s \<le> assetBalanceOnChain (take (unat (FinalHeight l a)) (chain_of l a)) s"
proof (cases "FinalHeight l a = 0 \<or> mget (m_chains (l_store l)) a = None")
  case True
  then have "SpendableBalances l a = []" by (auto simp: SpendableBalances_def store_GetAccountChain_def Let_def)
  then show ?thesis by simp
next
  case False
  let ?c = "chain_of l a" and ?limit = "min (nat (i64 (uint (FinalHeight l a)))) (length (chain_of l a))"
  have e: "SpendableBalances l a = spend_walk ?limit 0 [] [] ?c"
    using False by (auto simp: SpendableBalances_def store_GetAccountChain_def Let_def chain_of_def mdef_def)
  have bal: "getAssetBalance l a s = assetBalanceOnChain ?c s" using assms by (simp add: ledger_ok_def balances_ok_def)
  have final: "assetBalanceOnChain (take ?limit ?c) s \<le> assetBalanceOnChain (take (unat (FinalHeight l a)) ?c) s"
  proof (cases "uint (FinalHeight l a) < 2 ^ 63")
    case True
    then have "i64 (uint (FinalHeight l a)) = uint (FinalHeight l a)"
      using uint_ge_0 [of "FinalHeight l a"] by (intro i64_id) (unfold is_i64_def, linarith)
    then have "take ?limit ?c = take (unat (FinalHeight l a)) ?c" by (simp add: min_def)
    then show ?thesis by simp
  next
    case False
    then have "?limit = 0" using i64_high [OF False] by simp
    then show ?thesis by (simp only: take_0 assetBalanceOnChain_Nil word_zero_le)
  qed
  have "mdef 0 (spend_walk ?limit 0 [] [] ?c) s \<le> assetBalanceOnChain ([] @ ?c) s \<and>
      mdef 0 (spend_walk ?limit 0 [] [] ?c) s \<le> assetBalanceOnChain (take ?limit ([] @ ?c)) s"
    by (rule spend_walk_bound) simp_all
  then show ?thesis unfolding e append_Nil bal using final by (blast intro: order_trans)
qed

end
