(* ===== verification/Spec2Isabelle.thy ===== *)
theory Spec2Isabelle
  imports XE_Supply XE_Amount XE_Lock XE_StateSamples XE_NodeConfig XE_Peers XE_Spendable
begin

text \<open>
  \<^bold>\<open>XE: a block-lattice ledger, its consensus and its governance chain.\<close>

  \<^bold>\<open>The program.\<close> Every account of XE has its own chain of blocks. A node offers each block it
  makes or hears of to the ledger (\<open>core/ledger.go\<close>), which checks the block against the
  account's chain, the balances, pending sends and leases, and commits it to the store
  (\<open>store/mem_store.go\<close>). Two blocks with one parent are a conflict (\<open>core/conflict.go\<close>):
  the vote manager (\<open>core/vote.go\<close>, \<open>core/finalization.go\<close>) votes with the delegated weight of
  the representatives, the quorum manager (\<open>core/quorum.go\<close>) tallies the final votes, and the
  winner is promoted over the loser by a rollback (\<open>core/rollback.go\<close>) that also takes back
  what other accounts received from the blocks undone. A second chain, the governance chain
  (\<open>statechain/\<close>), holds the parameters of the network: keysets, minters, timekeepers,
  representatives, activations, emission epochs. Its blocks are signed by a threshold of the
  DAO's or the oracle's keys, and the node (\<open>node/node.go\<close>) hands its state to the ledger.

  \<^bold>\<open>Conventions\<close> (\<open>XE_Prelude\<close>). \<open>uint64\<close> is the type \<^typ>\<open>64 word\<close>; an \<open>int64\<close> is an \<open>int\<close>
  with the wrap-around written out (\<open>i64\<close>) where the code computes with it. A Go map is an
  association list: lookups and updates do not depend on the order, and where the code ranges
  over a map the model takes the order of the list, so a property that quantifies over all
  states covers the orders of iteration. A fallible function returns an error or a value; a
  panic is an error of its own. A method that changes state returns its result and the new
  state. Mutexes make each exported operation one step; timers are entries of a map and fire
  as steps.

  \<^bold>\<open>Parameters.\<close> SHA-256, BLAKE2b and Ed25519, the clock and
  the configuration of a node are fields of the environment records (\<open>crypto_env\<close>, \<open>env\<close>),
  and so are the decoders and \<open>json.Marshal\<close> of the governance chain's values (\<open>state_env\<close>).
  No law is assumed of them in general: where a property needs one, the hypothesis says so.

  \<^bold>\<open>The ledger.\<close>
  \<^item> \<open>XE_Arith\<close> (checked arithmetic, lease pricing, stakes and emissions), \<open>XE_Amount\<close>
    (\<open>core/amount.go\<close>), \<open>XE_Types\<close> (\<open>core/types.go\<close>, \<open>core/store.go\<close>), \<open>XE_Encoding\<close> and
    \<open>XE_Codec\<close> (\<open>core/encoding.go\<close>, \<open>core/memo.go\<close>: the byte formats and their round trips),
    \<open>XE_Crypto\<close> and \<open>XE_Auth\<close> (\<open>core/crypto.go\<close>, \<open>core/address.go\<close>, \<open>core/pow.go\<close>,
    \<open>core/multisig.go\<close>, \<open>core/attestation.go\<close>: what the credentials of a block show),
    \<open>XE_Reputation\<close> (\<open>core/reputation.go\<close>).
  \<^item> \<open>XE_Store\<close> is \<open>MemStore\<close>: its maps, \<open>CommitBlock\<close>, \<open>UndoBlock\<close>, \<open>CommitCascade\<close>, votes and
    locks. \<open>XE_Ledger\<close> has the record of the ledger, its caches and the overlay of a cascade;
    \<open>XE_Genesis\<close> the genesis block; \<open>XE_Handlers\<close> one \<open>validateAndAdd\<close> function per block type;
    \<open>XE_Weights\<close> the vote weights (\<open>core/repeligibility.go\<close>); \<open>XE_Admission\<close> the entry point
    \<open>addBlock\<close> with conflict detection; \<open>XE_Restart\<close> the rebuilding of the caches
    (\<open>NewLedger\<close>); \<open>XE_Rollback\<close> the planning, building and commit of a promotion.
  \<^item> \<open>XE_Effects\<close> and \<open>XE_Invariant\<close> state the invariant \<open>ledger_ok\<close>: chains are linked, the
    caches are what the chains and the store give, pending sends and leases are backed by
    blocks. \<open>XE_Undo\<close> shows that undoing the last block of a chain keeps it. The locale
    \<open>block_handler\<close> of \<open>XE_Contracts\<close> is the contract of a handler, and the thirteen handlers
    are its interpretations; the properties of \<open>addBlock\<close> rest on it. \<open>XE_Safety\<close> and
    \<open>XE_Supply\<close> conclude for every reachable ledger: the invariant, no double receipt, final
    blocks stay, weights are delegated balances, a restart gives the same caches, and supply
    is conserved. \<open>XE_Planning\<close>, \<open>XE_Promotion\<close> and \<open>XE_Swap\<close> treat promotions.

  \<^bold>\<open>Consensus.\<close> \<open>XE_Quorum\<close> and \<open>XE_Votes\<close> are the two managers. \<open>XE_Ballot\<close> and \<open>XE_Tally\<close> show
  what each operation may change and what a tally counts; \<open>XE_Progress\<close> has the steps of a
  node as an inductive relation and shows that locks and final heights only grow;
  \<open>XE_Finality\<close> that a decision needs a quorum, that quorums intersect, and that a decided
  block becomes final and stays so; \<open>XE_Lock\<close> that a node's final votes follow its lock.

  \<^bold>\<open>Governance.\<close> \<open>XE_StateKV\<close> has the keys, their validation and transitions
  (\<open>statechain/kvstore.go\<close>, \<open>statechain/activations.go\<close>, \<open>statechain/types.go\<close>); \<open>XE_StateChain\<close>
  the chain, its store, genesis, replay and synchronisation (\<open>statechain/chain.go\<close>,
  \<open>statechain/encoding.go\<close>, \<open>statechain/crypto.go\<close>, \<open>statechain/genesis.go\<close>,
  \<open>statechain/sync.go\<close>). \<open>XE_Governance\<close> shows that changes are authorised and, through the
  locale \<open>one_way\<close> interpreted on the keyset, the phase and the protocol floor, that what must
  not go back does not. \<open>XE_Replay\<close> shows that a restart and a synchronising peer reach the
  same chain. \<open>XE_NodeConfig\<close> builds the ledger's environment from the chain as
  \<open>node/node.go\<close> does, and this theory joins the two. \<open>XE_Samples\<close> and \<open>XE_StateSamples\<close> hold
  the concrete network on which the properties are instantiated.

  \<^bold>\<open>Around the ledger.\<close> \<open>XE_Spendable\<close> (\<open>core/spendable.go\<close>) shows that what an account may
  spend is covered by its final blocks. \<open>XE_Peers\<close> has the ban store and the request limiter
  (\<open>net/banstore.go\<close>, \<open>net/ratelimit.go\<close>); the locale \<open>bounded_table\<close> says when such a table
  stays within its size, the limiter interprets it, and the ban store is shown not to meet it.

  \<^bold>\<open>Bounds and termination.\<close> Planning a promotion is mutually recursive over chains and sends;
  it takes fuel, and \<open>plan_fuel\<close>, the number of blocks on the chains, is proved to be enough.
  Making room in a table of peers ends because the list of arrivals gets shorter.
  The sending loop of a synchronisation advances by the blocks it read and may not end when it
  reads none, so it is a partial function; it is proved to return on chains that grew from
  their genesis, up to the 10000 blocks (\<open>syncMaxBlocks\<close>) one session sends and the 10 MiB
  (\<open>syncMaxResponseSize\<close>) one session reads. The other loops
  are structural.

  \<^bold>\<open>Scope of the promotion theorems.\<close> The properties of \<open>swapBlockLocked\<close>, and of tallies that
  promote, are for elections between payments (sends, receives, burns and mints). A promotion
  over lease or multisig blocks can leave the invariant; the findings name the cases.

  \<^bold>\<open>Not modelled.\<close> The Badger store is another implementation of the store interface on a
  third-party database. The rest of the networking, the HTTP interface, the command line, virtual machines,
  benchmarks, logging and metrics are input and output around these components. The search
  for a proof-of-work nonce and the generation of keys are random. The supply audit of
  \<open>core/supply.go\<close> reports on the stores and changes nothing; what it tests is proved here.
\<close>

section \<open>Ledger and governance chain together\<close>

lemma admitted_type: "blk_Type (admitted b) = blk_Type b"
  by (simp add: admitted_def strip_attestations_def normalizeBlockHex_def)

text \<open>
  C15. Only a governed minter issues XUSD. On a node whose governance chain was \<open>c\<close> and then
  took the blocks \<open>bs\<close>, a mint block changes the ledger only where its account is one of the
  keys the state lists under \<open>sys.minter\<close>, and where that entry is not the one \<open>c\<close> had, one of
  the blocks that changed it was signed by the keyset in charge of the key at that point.
\<close>

theorem mint_needs_governed_minter:
  assumes "blk_Type b = BlockMint"
  shows "core (snd (addBlock (node_env S (add_all S bs c) E) b s l)) = core l \<or>
    (\<exists>raw ks k. mget (ch_kv (add_all S bs c)) ''sys.minter'' = Some raw \<and> json_Minter S raw = Inr ks \<and> k \<in> set ks \<and>
       EqualFold k (blk_Account (admitted b)) \<and>
       (mget (ch_kv c) ''sys.minter'' = Some raw \<or>
        (\<exists>i<length bs. mget (ch_kv (add_all S (take (Suc i) bs) c)) ''sys.minter'' \<noteq> mget (ch_kv (add_all S (take i bs) c)) ''sys.minter'' \<and>
           authorised S (bs ! i) (ch_kv (add_all S (take i bs) c)) ''sys.minter'')))"
proof (cases "core (snd (addBlock (node_env S (add_all S bs c) E) b s l)) = core l")
  case False
  then have "isMinter (node_env S (add_all S bs c) E) (blk_Account (admitted b))" using addBlock_mint assms admitted_type by simp
  then obtain raw ks k where "mget (ch_kv (add_all S bs c)) ''sys.minter'' = Some raw" "json_Minter S raw = Inr ks" "k \<in> set ks"
    "EqualFold k (blk_Account (admitted b))" by (rule isMinter_governed)
  then show ?thesis using add_all_change [of S bs c "''sys.minter''"] by metis
qed simp

text \<open>On the sample chain nobody is a minter, so a mint leaves the ledger as it is.\<close>

theorem mint_needs_governed_minter_witness:
  "core (snd (addBlock (node_env sample_state_env (add_all sample_state_env [sample_block1] sample_chain0) sample_env)
     (sample_transfer\<lparr>blk_Type := BlockMint\<rparr>) True sample_ledger)) = core sample_ledger"
  using mint_needs_governed_minter [of "sample_transfer\<lparr>blk_Type := BlockMint\<rparr>" sample_state_env "[sample_block1]" sample_chain0 sample_env
      True sample_ledger]
  by (simp add: sample_added1 sample_chain1_def)

section \<open>Spending on the sample network\<close>

text \<open>After the transfer of the sample, which is not final, a thousand units less can be spent.\<close>

theorem SpendableBalances_bounded_witness:
  "mdef 0 (SpendableBalances sample_ledger1 (sample_hex 8)) ''XE'' \<le> GenesisSupply - 1000"
  using SpendableBalances_bounded [OF sample_ledger1_ok, of "''XE''" "sample_hex 8"]
  by (simp add: IsValidAsset_def)

end
